(* ===== verification/Prelude.thy ===== *)
theory Prelude
  imports Main "HOL-Library.Word" "HOL-Library.Sublist"
    "HOL-Library.Char_ord" "HOL-Library.List_Lexorder"
begin

text \<open>
  The vocabulary shared by the component theories: Rust's \<open>Result\<close> as a sum type with the
  \<open>?\<close> operator, ordered maps and sets (\<open>BTreeMap\<close>, \<open>BTreeSet\<close>) as strictly sorted
  association lists, and generic lemmas on lists and options.

  A Rust \<open>String\<close> is the list of its UTF-8 bytes, an Isabelle \<^typ>\<open>string\<close>. With
  \<open>Char_ord\<close> and \<open>List_Lexorder\<close> the order on \<^typ>\<open>string\<close> is the bytewise
  lexicographic order, which is Rust's \<open>Ord\<close> on \<open>str\<close>.
\<close>

section \<open>Collections of facts\<close>

named_theorems rust_defs \<open>unfolding equations of small Rust helpers\<close>
named_theorems bmap_laws \<open>what an ordered map returns after an update\<close>

section \<open>Results\<close>

text \<open>\<open>Result<'a, 'e>\<close> is \<^typ>\<open>'e + 'a\<close>; \<open>rbind\<close> is the \<open>?\<close> operator.\<close>

type_synonym ('e, 'a) result = "'e + 'a"

abbreviation Ok :: "'a \<Rightarrow> ('e, 'a) result" where
  "Ok \<equiv> Inr"

abbreviation Err :: "'e \<Rightarrow> ('e, 'a) result" where
  "Err \<equiv> Inl"

fun rbind :: "('e, 'a) result \<Rightarrow> ('a \<Rightarrow> ('e, 'b) result) \<Rightarrow> ('e, 'b) result" where
  "rbind (Inl e) f = Inl e"
| "rbind (Inr a) f = f a"

fun is_ok :: "('e, 'a) result \<Rightarrow> bool" where
  "is_ok (Inl _) = False"
| "is_ok (Inr _) = True"

fun ok_option :: "('e, 'a) result \<Rightarrow> 'a option" where
  "ok_option (Inl _) = None"
| "ok_option (Inr a) = Some a"

fun ok_or :: "'a option \<Rightarrow> 'e \<Rightarrow> ('e, 'a) result" where
  "ok_or None e = Inl e"
| "ok_or (Some a) e = Inr a"

fun map_err :: "('e \<Rightarrow> 'f) \<Rightarrow> ('e, 'a) result \<Rightarrow> ('f, 'a) result" where
  "map_err f (Inl e) = Inl (f e)"
| "map_err f (Inr a) = Inr a"

lemma rbind_Ok_iff [simp]: "rbind m f = Inr b \<longleftrightarrow> (\<exists>a. m = Inr a \<and> f a = Inr b)"
  by (cases m) auto

lemma rbind_Err_iff [simp]:
  "rbind m f = Inl e \<longleftrightarrow> m = Inl e \<or> (\<exists>a. m = Inr a \<and> f a = Inl e)"
  by (cases m) auto

lemma rbind_assoc: "rbind (rbind m f) g = rbind m (\<lambda>a. rbind (f a) g)"
  by (cases m) auto

lemma is_ok_iff: "is_ok r \<longleftrightarrow> (\<exists>a. r = Inr a)"
  by (cases r) auto

lemma ok_option_Some_iff [simp]: "ok_option r = Some a \<longleftrightarrow> r = Inr a"
  by (cases r) auto

lemma ok_option_None_iff [simp]: "ok_option r = None \<longleftrightarrow> (\<exists>e. r = Inl e)"
  by (cases r) auto

lemma ok_or_Ok_iff [simp]: "ok_or x e = Inr a \<longleftrightarrow> x = Some a"
  by (cases x) auto

lemma ok_or_Err_iff [simp]: "ok_or x e = Inl e' \<longleftrightarrow> x = None \<and> e' = e"
  by (cases x) auto

lemma map_err_Ok_iff [simp]: "map_err f r = Inr a \<longleftrightarrow> r = Inr a"
  by (cases r) auto

lemma map_err_Err_iff [simp]: "map_err f r = Inl e \<longleftrightarrow> (\<exists>e'. r = Inl e' \<and> e = f e')"
  by (cases r) auto

text \<open>\<open>iter().map(f).collect::<Result<Vec<_>, _>>()\<close>: stops at the first error.\<close>

fun collect_results :: "('a \<Rightarrow> ('e, 'b) result) \<Rightarrow> 'a list \<Rightarrow> ('e, 'b list) result" where
  "collect_results f [] = Inr []"
| "collect_results f (x # xs) =
     rbind (f x) (\<lambda>y. rbind (collect_results f xs) (\<lambda>ys. Inr (y # ys)))"

lemma collect_results_Ok:
  "collect_results f xs = Inr ys \<Longrightarrow> list_all2 (\<lambda>x y. f x = Inr y) xs ys"
  by (induction xs arbitrary: ys) auto

lemma collect_results_cong_Ok:
  "(\<And>x. x \<in> set xs \<Longrightarrow> f x = Inr (g x)) \<Longrightarrow> collect_results f xs = Inr (map g xs)"
  by (induction xs) auto

section \<open>Reducers\<close>

text \<open>
  A reducer is a state machine whose step may reject an event; a rejected event leaves the
  state as it was. \<open>run_events\<close> feeds a list of events, \<open>accepted\<close> is the sublist the
  reducer took. The locale is the contract between such a machine and its clients: one
  invariant that every accepted step keeps, one frame function that no step changes.
\<close>

fun run_events :: "('s \<Rightarrow> 'e \<Rightarrow> ('err, 's) result) \<Rightarrow> 's \<Rightarrow> 'e list \<Rightarrow> 's" where
  "run_events step s [] = s"
| "run_events step s (e # es) =
     (case step s e of Inl _ \<Rightarrow> run_events step s es | Inr s' \<Rightarrow> run_events step s' es)"

fun accepted :: "('s \<Rightarrow> 'e \<Rightarrow> ('err, 's) result) \<Rightarrow> 's \<Rightarrow> 'e list \<Rightarrow> 'e list" where
  "accepted step s [] = []"
| "accepted step s (e # es) =
     (case step s e of Inl _ \<Rightarrow> accepted step s es | Inr s' \<Rightarrow> e # accepted step s' es)"

lemma run_events_append:
  "run_events step s (xs @ ys) = run_events step (run_events step s xs) ys"
  by (induction xs arbitrary: s) (auto split: sum.splits)

lemma accepted_append:
  "accepted step s (xs @ ys) = accepted step s xs @ accepted step (run_events step s xs) ys"
  by (induction xs arbitrary: s) (auto split: sum.splits)

lemma run_events_accepted: "run_events step s (accepted step s es) = run_events step s es"
  by (induction es arbitrary: s) (auto split: sum.splits)

locale reducer =
  fixes step :: "'s \<Rightarrow> 'e \<Rightarrow> ('err, 's) result"
    and inv :: "'s \<Rightarrow> bool"
    and frame :: "'s \<Rightarrow> 'k"
  assumes step_inv: "inv s \<Longrightarrow> step s e = Inr s' \<Longrightarrow> inv s'"
    and step_frame: "step s e = Inr s' \<Longrightarrow> frame s' = frame s"
begin

lemma run_inv: "inv s \<Longrightarrow> inv (run_events step s es)"
  by (induction es arbitrary: s) (auto split: sum.splits dest: step_inv)

lemma run_frame: "frame (run_events step s es) = frame s"
  by (induction es arbitrary: s) (auto split: sum.splits dest: step_frame)

text \<open>A condition that every step outside \<open>L\<close> keeps survives a run without \<open>L\<close> events.\<close>

lemma run_stays:
  assumes keep: "\<And>s e s'. C s \<Longrightarrow> step s e = Inr s' \<Longrightarrow> \<not> L e \<Longrightarrow> C s'"
    and "C s" and "\<forall>e \<in> set (accepted step s es). \<not> L e"
  shows "C (run_events step s es)"
  using assms(2,3)
proof (induction es arbitrary: s)
  case Nil
  then show ?case by simp
next
  case (Cons e es)
  then show ?case by (cases "step s e") (auto dest: keep)
qed

end

lemma distinct_concat_map:
  assumes "distinct (map g xs)" and "\<And>x. x \<in> set xs \<Longrightarrow> distinct (f x)"
    and "\<And>x y z. x \<in> set xs \<Longrightarrow> y \<in> set xs \<Longrightarrow> z \<in> set (f x) \<Longrightarrow> z \<in> set (f y) \<Longrightarrow> g x = g y"
  shows "distinct (concat (map f xs))"
  using assms
proof (induction xs)
  case (Cons x xs)
  have "set (f x) \<inter> set (f y) = {}" if "y \<in> set xs" for y
    using Cons.prems(1) Cons.prems(3) [of x y] that by (auto simp: image_iff)
  moreover have "distinct (concat (map f xs))"
    using Cons.prems by (intro Cons.IH) auto
  ultimately show ?case using Cons.prems(2) [of x] by auto
qed simp

text \<open>A stable sort by a key refines an order of its input.\<close>

lemma insort_key_lex:
  assumes "sorted_wrt (\<lambda>x y. f x < f y \<or> f x = f y \<and> R x y) ys" and "\<forall>y\<in>set ys. R x y"
  shows "sorted_wrt (\<lambda>x y. f x < f y \<or> f x = f y \<and> R x y) (insort_key f x ys)"
  using assms by (induction ys) (auto simp: set_insort_key)

lemma sort_key_lex:
  fixes f :: "'a \<Rightarrow> 'b::linorder"
  assumes "sorted_wrt R xs"
  shows "sorted_wrt (\<lambda>x y. f x < f y \<or> f x = f y \<and> R x y) (sort_key f xs)"
  using assms by (induction xs) (auto intro!: insort_key_lex)

end
