(* ===== verification/Rust_Str.thy ===== *)
theory Rust_Str
  imports Prelude
begin

text \<open>
  The part of Rust's \<open>str\<close> and \<open>char\<close> API the modelled code uses, on UTF-8 byte lists.

  A predicate on \<open>char\<close> that only ASCII characters satisfy holds of all characters of a
  string exactly when it holds of all its bytes, because every byte of a multi-byte
  character is at least 128. \<open>trim\<close> and \<open>is_whitespace\<close> use the Unicode property
  \<open>White_Space\<close>; \<open>ws_encodings\<close> lists the UTF-8 encodings of its characters, and since
  UTF-8 is self-synchronising an encoding that occurs in a valid string occurs at a
  character boundary.
\<close>

section \<open>Byte classes\<close>

definition code :: "char \<Rightarrow> nat" where
  "code c = of_char c"

definition is_ascii_digit :: "char \<Rightarrow> bool" where
  "is_ascii_digit c \<longleftrightarrow> 48 \<le> code c \<and> code c \<le> 57"

definition is_ascii_lowercase :: "char \<Rightarrow> bool" where
  "is_ascii_lowercase c \<longleftrightarrow> 97 \<le> code c \<and> code c \<le> 122"

definition is_ascii_uppercase :: "char \<Rightarrow> bool" where
  "is_ascii_uppercase c \<longleftrightarrow> 65 \<le> code c \<and> code c \<le> 90"

definition is_ascii_alphanumeric :: "char \<Rightarrow> bool" where
  "is_ascii_alphanumeric c \<longleftrightarrow> is_ascii_digit c \<or> is_ascii_lowercase c \<or> is_ascii_uppercase c"

definition to_ascii_lowercase_char :: "char \<Rightarrow> char" where
  "to_ascii_lowercase_char c = (if is_ascii_uppercase c then char_of (code c + 32) else c)"

definition to_ascii_lowercase :: "string \<Rightarrow> string" where
  "to_ascii_lowercase s = map to_ascii_lowercase_char s"

lemmas byte_class_defs [rust_defs] =
  code_def is_ascii_digit_def is_ascii_lowercase_def is_ascii_uppercase_def
  is_ascii_alphanumeric_def to_ascii_lowercase_char_def to_ascii_lowercase_def

lemma code_less_256 [simp]: "code c < 256"
  by (simp add: code_def)

lemma code_char_of [simp]: "n < 256 \<Longrightarrow> code (char_of n) = n"
  by (simp add: code_def)

lemma code_inject: "code c = code d \<longleftrightarrow> c = d"
  by (simp add: code_def)

lemma to_ascii_lowercase_char_idem [simp]:
  "to_ascii_lowercase_char (to_ascii_lowercase_char c) = to_ascii_lowercase_char c"
  by (simp add: to_ascii_lowercase_char_def is_ascii_uppercase_def)

lemma to_ascii_lowercase_idem [simp]:
  "to_ascii_lowercase (to_ascii_lowercase s) = to_ascii_lowercase s"
  by (simp add: to_ascii_lowercase_def)

lemma to_ascii_lowercase_append [simp]:
  "to_ascii_lowercase (s @ t) = to_ascii_lowercase s @ to_ascii_lowercase t"
  by (simp add: to_ascii_lowercase_def)

lemma to_ascii_lowercase_Nil_iff [simp]: "to_ascii_lowercase s = [] \<longleftrightarrow> s = []"
  by (simp add: to_ascii_lowercase_def)

section \<open>Trimming\<close>

text \<open>The UTF-8 encodings of the characters with the property \<open>White_Space\<close>.\<close>

definition ws_encodings :: "string list" where
  "ws_encodings =
     map (\<lambda>n. [char_of n]) [9::nat, 10, 11, 12, 13, 32]
     @ map (map char_of)
         ([[0xC2, 0x85], [0xC2, 0xA0], [0xE1, 0x9A, 0x80]]
          @ map (\<lambda>n. [0xE2, 0x80, n]) [0x80..<0x8B]
          @ [[0xE2, 0x80, 0xA8], [0xE2, 0x80, 0xA9], [0xE2, 0x80, 0xAF],
             [0xE2, 0x81, 0x9F], [0xE3, 0x80, 0x80 :: nat]])"

fun strip_any :: "string list \<Rightarrow> string \<Rightarrow> string option" where
  "strip_any [] s = None"
| "strip_any (e # es) s =
     (if e \<noteq> [] \<and> prefix e s then Some (drop (length e) s) else strip_any es s)"

lemma strip_any_SomeD:
  "strip_any es s = Some r \<Longrightarrow> \<exists>e \<in> set es. e \<noteq> [] \<and> s = e @ r"
  by (induction es) (auto simp: prefix_def split: if_splits)

lemma strip_any_shorter: "strip_any es s = Some r \<Longrightarrow> length r < length s"
  by (auto dest!: strip_any_SomeD)

function trim_with :: "string list \<Rightarrow> string \<Rightarrow> string" where
  "trim_with es s = (case strip_any es s of None \<Rightarrow> s | Some r \<Rightarrow> trim_with es r)"
  by pat_completeness auto
termination
  by (relation "measure (\<lambda>(es, s). length s)") (auto dest: strip_any_shorter)

declare trim_with.simps [simp del]

definition trim_start :: "string \<Rightarrow> string" where
  "trim_start s = trim_with ws_encodings s"

definition trim_end :: "string \<Rightarrow> string" where
  "trim_end s = rev (trim_with (map rev ws_encodings) (rev s))"

definition trim :: "string \<Rightarrow> string" where
  "trim s = trim_end (trim_start s)"

definition has_whitespace :: "string \<Rightarrow> bool" where
  "has_whitespace s \<longleftrightarrow> list_ex (\<lambda>t. strip_any ws_encodings t \<noteq> None) (suffixes s)"

definition trim_end_matches :: "char \<Rightarrow> string \<Rightarrow> string" where
  "trim_end_matches c s = rev (dropWhile (\<lambda>x. x = c) (rev s))"

lemma trim_with_stops: "strip_any es (trim_with es s) = None"
proof (induction es s rule: trim_with.induct)
  case (1 es s)
  then show ?case
    by (subst trim_with.simps) (auto split: option.splits)
qed

lemma trim_with_fixpoint: "strip_any es s = None \<Longrightarrow> trim_with es s = s"
  by (subst trim_with.simps) simp

lemma trim_with_idem [simp]: "trim_with es (trim_with es s) = trim_with es s"
  by (rule trim_with_fixpoint) (rule trim_with_stops)

lemma trim_with_suffix: "suffix (trim_with es s) s"
proof (induction es s rule: trim_with.induct)
  case (1 es s)
  show ?case
  proof (cases "strip_any es s")
    case None
    then show ?thesis by (subst trim_with.simps) simp
  next
    case (Some r)
    with 1 have "suffix (trim_with es r) r" by simp
    moreover from Some have "suffix r s"
      by (auto dest!: strip_any_SomeD intro: suffixI)
    ultimately have "suffix (trim_with es r) s"
      by (rule suffix_order.trans)
    with Some show ?thesis by (subst trim_with.simps) simp
  qed
qed

lemma trim_end_prefix: "prefix (trim_end s) s"
  using trim_with_suffix [of "map rev ws_encodings" "rev s"]
  by (simp add: trim_end_def suffix_to_prefix)

lemma trim_end_matches_idem [simp]:
  "trim_end_matches c (trim_end_matches c s) = trim_end_matches c s"
  by (simp add: trim_end_matches_def)

lemma trim_end_matches_prefix: "prefix (trim_end_matches c s) s"
  using suffix_dropWhile [of "\<lambda>x. x = c" "rev s"]
  by (simp add: trim_end_matches_def suffix_to_prefix)

text \<open>A text that begins and ends with visible ASCII characters is left alone by trimming.\<close>

definition is_graphic :: "char \<Rightarrow> bool" where
  "is_graphic c \<longleftrightarrow> 33 \<le> code c \<and> code c < 127"

lemma ws_not_graphic: "e \<in> set ws_encodings \<Longrightarrow> e \<noteq> [] \<and> \<not> is_graphic (hd e) \<and> \<not> is_graphic (last e)"
  by (auto simp: ws_encodings_def is_graphic_def upt_rec)

lemma strip_any_None: "\<forall>e \<in> set es. \<not> prefix e s \<Longrightarrow> strip_any es s = None"
  by (induction es) auto

lemma trim_graphic:
  assumes "s \<noteq> []" and "is_graphic (hd s)" and "is_graphic (last s)"
  shows "trim s = s"
proof -
  have "strip_any ws_encodings s = None"
    using assms ws_not_graphic by (intro strip_any_None) (metis hd_append prefix_def)
  moreover have "strip_any (map rev ws_encodings) (rev s) = None"
    using assms ws_not_graphic
    by (intro strip_any_None) (fastforce simp: prefix_def rev_eq_append_conv)
  ultimately show ?thesis
    by (simp add: trim_def trim_start_def trim_end_def trim_with_fixpoint)
qed

lemma lowercase_dot [simp]: "to_ascii_lowercase_char c = CHR ''.'' \<longleftrightarrow> c = CHR ''.''"
proof (cases "is_ascii_uppercase c")
  case True
  then have "code (to_ascii_lowercase_char c) \<noteq> code (CHR ''.'')" and "c \<noteq> CHR ''.''"
    by (auto simp: to_ascii_lowercase_char_def is_ascii_uppercase_def code_def)
  then show ?thesis by metis
qed (simp add: to_ascii_lowercase_char_def)

lemma trim_end_matches_lowercase:
  "trim_end_matches (CHR ''.'') (to_ascii_lowercase s) = to_ascii_lowercase (trim_end_matches (CHR ''.'') s)"
  by (simp add: trim_end_matches_def to_ascii_lowercase_def rev_map dropWhile_map o_def)

lemma lowercase_graphic: "is_graphic c \<Longrightarrow> is_graphic (to_ascii_lowercase_char c)"
  by (auto simp: is_graphic_def to_ascii_lowercase_char_def is_ascii_uppercase_def)

lemma strip_any_Nil [simp]: "strip_any es [] = None"
  by (induction es) auto

lemma trim_with_Nil [simp]: "trim_with es [] = []"
  by (simp add: trim_with_fixpoint)

lemma trim_all_graphic: "list_all is_graphic s \<Longrightarrow> trim s = s"
  using trim_graphic [of s]
  by (cases "s = []") (simp_all add: list_all_iff trim_def trim_start_def trim_end_def)

text \<open>Evaluation shortcut: a text with visible ends is its own trimmed form.\<close>

lemma trim_code [code]:
  "trim s = (if s \<noteq> [] \<and> is_graphic (hd s) \<and> is_graphic (last s) then s else trim_end (trim_start s))"
  using trim_graphic [of s] by (auto simp: trim_def)

lemma strip_any_append:
  "strip_any (es @ fs) s = (case strip_any es s of None \<Rightarrow> strip_any fs s | Some r \<Rightarrow> Some r)"
  by (induction es) auto

lemma ws_ascii_first:
  "\<exists>B. map rev ws_encodings = map (\<lambda>n. [char_of n]) [9::nat, 10, 11, 12, 13, 32] @ B"
  unfolding ws_encodings_def map_append
  by (rule exI, rule arg_cong2 [where f = append])
    (simp_all only: list.map rev.simps append.simps)

lemma strip_space: "strip_any (map rev ws_encodings) (CHR '' '' # s) = Some s"
proof -
  obtain B where "map rev ws_encodings = map (\<lambda>n. [char_of n]) [9::nat, 10, 11, 12, 13, 32] @ B"
    using ws_ascii_first ..
  then show ?thesis by (simp only: strip_any_append) (simp add: char_of_def bit_Suc_0_iff)
qed

lemma trim_end_space: "trim_end (s @ '' '') = trim_end s"
proof -
  have "trim_with (map rev ws_encodings) (CHR '' '' # rev s) =
      trim_with (map rev ws_encodings) (rev s)"
    by (subst trim_with.simps) (simp add: strip_space)
  then show ?thesis by (simp add: trim_end_def)
qed

lemma trim_trailing_space:
  assumes "s \<noteq> []" and "is_graphic (hd s)" and "is_graphic (last s)"
  shows "trim (s @ '' '') = s"
proof -
  have "strip_any ws_encodings t = None" if "t \<noteq> []" "is_graphic (hd t)" for t
    using that ws_not_graphic by (intro strip_any_None) (metis hd_append prefix_def)
  then have "trim_start (s @ '' '') = s @ '' ''" "trim_start s = s"
    using assms by (simp_all add: trim_start_def trim_with_fixpoint)
  moreover have "trim s = s" using assms by (rule trim_graphic)
  ultimately show ?thesis by (simp add: trim_def trim_end_space)
qed

section \<open>UTF-8\<close>

text \<open>\<open>std::str::from_utf8\<close>: the well-formed byte sequences of the Unicode standard.\<close>

definition utf8_cont :: "char \<Rightarrow> bool" where
  "utf8_cont c \<longleftrightarrow> 0x80 \<le> code c \<and> code c \<le> 0xBF"

fun valid_utf8 :: "string \<Rightarrow> bool" where
  "valid_utf8 [] = True"
| "valid_utf8 (a # s) =
     (if code a < 0x80 then valid_utf8 s
      else if 0xC2 \<le> code a \<and> code a \<le> 0xDF then
        (case s of b # s' \<Rightarrow> utf8_cont b \<and> valid_utf8 s' | _ \<Rightarrow> False)
      else if 0xE0 \<le> code a \<and> code a \<le> 0xEF then
        (case s of b # c # s' \<Rightarrow>
           utf8_cont b \<and> utf8_cont c \<and> (code a = 0xE0 \<longrightarrow> 0xA0 \<le> code b) \<and>
           (code a = 0xED \<longrightarrow> code b \<le> 0x9F) \<and> valid_utf8 s'
         | _ \<Rightarrow> False)
      else if 0xF0 \<le> code a \<and> code a \<le> 0xF4 then
        (case s of b # c # d # s' \<Rightarrow>
           utf8_cont b \<and> utf8_cont c \<and> utf8_cont d \<and> (code a = 0xF0 \<longrightarrow> 0x90 \<le> code b) \<and>
           (code a = 0xF4 \<longrightarrow> code b \<le> 0x8F) \<and> valid_utf8 s'
         | _ \<Rightarrow> False)
      else False)"

lemma valid_utf8_ascii: "list_all (\<lambda>c. code c < 128) s \<Longrightarrow> valid_utf8 s"
  by (induction s) auto

text \<open>
  \<open>String::from_utf8_lossy\<close>. \<open>utf8_step\<close> is one step of \<open>Utf8Chunks\<close>: whether the input
  starts with a well-formed character, and how many bytes the character or the maximal ill-formed
  part takes. An ill-formed part becomes U+FFFD.
\<close>

definition REPLACEMENT :: string where
  "REPLACEMENT = map char_of [0xEF, 0xBF, 0xBD :: nat]"

definition utf8_second :: "char \<Rightarrow> char \<Rightarrow> bool" where
  "utf8_second a b \<longleftrightarrow>
     utf8_cont b \<and> (code a = 0xE0 \<longrightarrow> 0xA0 \<le> code b) \<and> (code a = 0xED \<longrightarrow> code b \<le> 0x9F) \<and>
     (code a = 0xF0 \<longrightarrow> 0x90 \<le> code b) \<and> (code a = 0xF4 \<longrightarrow> code b \<le> 0x8F)"

definition utf8_step :: "char \<Rightarrow> string \<Rightarrow> bool \<times> nat" where
  "utf8_step a s =
     (if code a < 0x80 then (True, 1)
      else if 0xC2 \<le> code a \<and> code a \<le> 0xDF then
        (case s of b # _ \<Rightarrow> if utf8_cont b then (True, 2) else (False, 1) | [] \<Rightarrow> (False, 1))
      else if 0xE0 \<le> code a \<and> code a \<le> 0xEF then
        (case s of
           b # c # _ \<Rightarrow>
             if \<not> utf8_second a b then (False, 1) else if utf8_cont c then (True, 3) else (False, 2)
         | [b] \<Rightarrow> if utf8_second a b then (False, 2) else (False, 1)
         | [] \<Rightarrow> (False, 1))
      else if 0xF0 \<le> code a \<and> code a \<le> 0xF4 then
        (case s of
           b # c # d # _ \<Rightarrow>
             if \<not> utf8_second a b then (False, 1) else if \<not> utf8_cont c then (False, 2)
             else if utf8_cont d then (True, 4) else (False, 3)
         | [b, c] \<Rightarrow>
             if \<not> utf8_second a b then (False, 1) else if utf8_cont c then (False, 3) else (False, 2)
         | [b] \<Rightarrow> if utf8_second a b then (False, 2) else (False, 1)
         | [] \<Rightarrow> (False, 1))
      else (False, 1))"

function from_utf8_lossy :: "string \<Rightarrow> string" where
  "from_utf8_lossy [] = []"
| "from_utf8_lossy (a # s) =
     (case utf8_step a s of (ok, n) \<Rightarrow>
        (if ok then take n (a # s) else REPLACEMENT) @ from_utf8_lossy (drop (n - 1) s))"
  by pat_completeness auto
termination by (relation "measure length") auto

lemma utf8_step_valid:
  assumes "valid_utf8 (a # s)"
  shows "\<exists>n. utf8_step a s = (True, Suc n) \<and> valid_utf8 (drop n s)"
proof -
  consider "code a < 0x80" | "0xC2 \<le> code a" "code a \<le> 0xDF" | "0xE0 \<le> code a" "code a \<le> 0xEF"
    | "0xF0 \<le> code a" "code a \<le> 0xF4"
    using assms by (auto split: if_splits)
  then show ?thesis
  proof cases
    case 1
    then show ?thesis using assms by (simp add: utf8_step_def)
  next
    case 2
    then obtain b t where "s = b # t" "utf8_cont b" "valid_utf8 t"
      using assms by (auto split: list.splits)
    then show ?thesis using 2 by (simp add: utf8_step_def)
  next
    case 3
    then obtain b c t where "s = b # c # t" "utf8_second a b" "utf8_cont c" "valid_utf8 t"
      using assms by (auto simp: utf8_second_def split: list.splits)
    then show ?thesis using 3 by (simp add: utf8_step_def)
  next
    case 4
    then obtain b c d t where "s = b # c # d # t" "utf8_second a b" "utf8_cont c" "utf8_cont d" "valid_utf8 t"
      using assms by (auto simp: utf8_second_def split: list.splits)
    then show ?thesis using 4 by (simp add: utf8_step_def eval_nat_numeral)
  qed
qed

lemma from_utf8_lossy_valid: "valid_utf8 s \<Longrightarrow> from_utf8_lossy s = s"
proof (induction s rule: from_utf8_lossy.induct)
  case (2 a s)
  obtain n where n: "utf8_step a s = (True, Suc n)" "valid_utf8 (drop n s)"
    using utf8_step_valid [OF 2(2)] by blast
  then show ?case using 2(1) [OF n(1) [symmetric]] by (simp del: valid_utf8.simps)
qed simp

section \<open>Searching and splitting\<close>

definition strip_prefix :: "string \<Rightarrow> string \<Rightarrow> string option" where
  "strip_prefix p s = (if prefix p s then Some (drop (length p) s) else None)"

definition strip_suffix :: "string \<Rightarrow> string \<Rightarrow> string option" where
  "strip_suffix q s = (if suffix q s then Some (take (length s - length q) s) else None)"

lemma strip_prefix_Some_iff: "strip_prefix p s = Some r \<longleftrightarrow> s = p @ r"
  by (auto simp: strip_prefix_def prefix_def)

lemma strip_suffix_Some_iff: "strip_suffix q s = Some r \<longleftrightarrow> s = r @ q"
  by (auto simp: strip_suffix_def suffix_def)

lemma strip_suffix_append [simp]: "strip_suffix q (r @ q) = Some r"
  by (simp add: strip_suffix_Some_iff)

lemma strip_prefix_append [simp]: "strip_prefix p (p @ r) = Some r"
  by (simp add: strip_prefix_Some_iff)

text \<open>\<open>s.split(c)\<close> for a one-byte character; \<open>s.find(c)\<close>; \<open>s.rsplit_once(c)\<close>.\<close>

fun split_on :: "char \<Rightarrow> string \<Rightarrow> string list" where
  "split_on c [] = [[]]"
| "split_on c (x # xs) =
     (if x = c then [] # split_on c xs
      else (case split_on c xs of [] \<Rightarrow> [[x]] | p # ps \<Rightarrow> (x # p) # ps))"

fun find_char :: "char \<Rightarrow> string \<Rightarrow> nat option" where
  "find_char c [] = None"
| "find_char c (x # xs) = (if x = c then Some 0 else map_option Suc (find_char c xs))"

text \<open>\<open>s.find(p)\<close> and \<open>s.contains(p)\<close> for a string \<open>p\<close>.\<close>

fun find_str :: "string \<Rightarrow> string \<Rightarrow> nat option" where
  "find_str p [] = (if p = [] then Some 0 else None)"
| "find_str p (x # xs) = (if prefix p (x # xs) then Some 0 else map_option Suc (find_str p xs))"

definition contains_str :: "string \<Rightarrow> string \<Rightarrow> bool" where
  "contains_str s p \<longleftrightarrow> find_str p s \<noteq> None"

definition rsplit_once :: "char \<Rightarrow> string \<Rightarrow> (string \<times> string) option" where
  "rsplit_once c s =
     (case find_char c (rev s) of
        None \<Rightarrow> None
      | Some i \<Rightarrow> Some (take (length s - Suc i) s, drop (length s - i) s))"

lemma split_on_not_Nil [simp]: "split_on c s \<noteq> []"
  by (induction s) (auto split: list.splits)

lemma split_on_no_sep: "p \<in> set (split_on c s) \<Longrightarrow> c \<notin> set p"
  by (induction s arbitrary: p) (auto split: if_splits list.splits)

lemma split_on_single: "c \<notin> set s \<Longrightarrow> split_on c s = [s]"
  by (induction s) auto

lemma split_on_append:
  "c \<notin> set p \<Longrightarrow> split_on c (p @ c # s) = p # split_on c s"
  by (induction p) auto

lemma find_char_Some:
  "find_char c s = Some i \<Longrightarrow> i < length s \<and> s ! i = c \<and> c \<notin> set (take i s)"
  by (induction s arbitrary: i) (auto split: if_splits)

lemma find_char_None_iff: "find_char c s = None \<longleftrightarrow> c \<notin> set s"
  by (induction s) auto

lemma find_char_append: "c \<notin> set p \<Longrightarrow> find_char c (p @ c # s) = Some (length p)"
  by (induction p) auto

lemma rsplit_once_append:
  assumes "c \<notin> set q"
  shows "rsplit_once c (p @ c # q) = Some (p, q)"
proof -
  have "find_char c (rev (p @ c # q)) = Some (length q)"
    using assms find_char_append [of c "rev q" "rev p"] by simp
  then show ?thesis by (simp add: rsplit_once_def)
qed

lemma rsplit_once_None_iff: "rsplit_once c s = None \<longleftrightarrow> c \<notin> set s"
  using find_char_None_iff [of c "rev s"] by (auto simp: rsplit_once_def split: option.splits)

lemma rsplit_once_Some:
  assumes "rsplit_once c s = Some (p, q)"
  shows "s = p @ c # q \<and> c \<notin> set q"
proof -
  have "c \<in> set s"
    using assms rsplit_once_None_iff [of c s] by auto
  then obtain p' q' where s: "s = p' @ c # q'" "c \<notin> set q'"
    by (metis in_set_conv_decomp_last)
  with rsplit_once_append [of c q' p'] assms show ?thesis by simp
qed

lemma dotted_inject:
  assumes "CHR ''.'' \<notin> set a" and "CHR ''.'' \<notin> set a'"
  shows "a @ CHR ''.'' # b = a' @ CHR ''.'' # b' \<longleftrightarrow> a = a' \<and> b = b'"
proof
  assume eq: "a @ CHR ''.'' # b = a' @ CHR ''.'' # b'"
  have "takeWhile (\<lambda>c. c \<noteq> CHR ''.'') (x @ CHR ''.'' # y) = x" if "CHR ''.'' \<notin> set x" for x y
    using that by (induction x) auto
  then have "a = a'" using eq assms by metis
  with eq show "a = a' \<and> b = b'" by simp
qed simp

section \<open>Decimal numbers\<close>

fun dec_value :: "nat \<Rightarrow> string \<Rightarrow> nat" where
  "dec_value acc [] = acc"
| "dec_value acc (c # cs) = dec_value (10 * acc + (code c - 48)) cs"

text \<open>
  \<open>str::parse\<close> for an unsigned type whose largest value is \<open>m\<close>: one leading \<open>+\<close> is
  accepted, an empty or non-decimal rest and an overflow are errors.
\<close>

definition parse_uint :: "nat \<Rightarrow> string \<Rightarrow> nat option" where
  "parse_uint m s =
     (let ds = (case s of c # cs \<Rightarrow> if c = CHR ''+'' \<and> cs \<noteq> [] then cs else s | [] \<Rightarrow> [])
      in if ds = [] \<or> \<not> list_all is_ascii_digit ds then None
         else if dec_value 0 ds \<le> m then Some (dec_value 0 ds) else None)"

definition u16_max :: nat where "u16_max = 65535"

definition digit_char :: "nat \<Rightarrow> char" where
  "digit_char d = char_of (48 + d)"

text \<open>The decimal text \<open>Display\<close> prints for an unsigned number.\<close>

fun show_nat :: "nat \<Rightarrow> string" where
  "show_nat n = (if n < 10 then [digit_char n] else show_nat (n div 10) @ [digit_char (n mod 10)])"

declare show_nat.simps [simp del]

lemma is_ascii_digit_digit_char [simp]: "d < 10 \<Longrightarrow> is_ascii_digit (digit_char d)"
  by (simp add: digit_char_def is_ascii_digit_def)

lemma code_digit_char [simp]: "d < 10 \<Longrightarrow> code (digit_char d) = 48 + d"
  by (simp add: digit_char_def)

lemma dec_value_append: "dec_value acc (xs @ ys) = dec_value (dec_value acc xs) ys"
  by (induction xs arbitrary: acc) auto

lemma show_nat_not_Nil [simp]: "show_nat n \<noteq> []"
  by (subst show_nat.simps) simp

lemma show_nat_digits: "list_all is_ascii_digit (show_nat n)"
proof (induction n rule: show_nat.induct)
  case (1 n)
  then show ?case
    by (subst show_nat.simps) auto
qed

lemma dec_value_show_nat [simp]: "dec_value 0 (show_nat n) = n"
proof (induction n rule: show_nat.induct)
  case (1 n)
  show ?case
  proof (cases "n < 10")
    case True
    then show ?thesis by (subst show_nat.simps) simp
  next
    case False
    with 1 have "dec_value 0 (show_nat (n div 10)) = n div 10" by simp
    with False show ?thesis
      by (subst show_nat.simps) (simp add: dec_value_append)
  qed
qed

lemma plus_not_digit: "is_ascii_digit c \<Longrightarrow> c \<noteq> CHR ''+''"
  by (auto simp: is_ascii_digit_def code_def)

lemma parse_uint_digits:
  assumes "list_all is_ascii_digit ds" and "ds \<noteq> []"
  shows "parse_uint m ds = (if dec_value 0 ds \<le> m then Some (dec_value 0 ds) else None)"
  using assms by (cases ds) (auto simp: parse_uint_def Let_def dest: plus_not_digit)

lemma parse_uint_show_nat: "n \<le> m \<Longrightarrow> parse_uint m (show_nat n) = Some n"
  by (simp add: parse_uint_digits show_nat_digits)

lemma parse_uint_bound: "parse_uint m s = Some n \<Longrightarrow> n \<le> m"
  by (auto simp: parse_uint_def Let_def split: if_splits list.splits)

definition show_int :: "int \<Rightarrow> string" where
  "show_int i = (if i < 0 then CHR ''-'' # show_nat (nat (- i)) else show_nat (nat i))"

section \<open>Debug formatting\<close>

text \<open>
  \<open>format!("{s:?}")\<close>: quotes, with the escapes of \<open>char::escape_debug\<close>. Bytes from 128
  up are copied, which is what the formatter does with printable non-ASCII characters.
\<close>

definition hex_digit :: "nat \<Rightarrow> char" where
  "hex_digit d = (if d < 10 then char_of (48 + d) else char_of (87 + d))"

definition hex_lower :: "nat \<Rightarrow> string" where
  "hex_lower n = (if n < 16 then [hex_digit n] else [hex_digit (n div 16), hex_digit (n mod 16)])"

definition escape_debug :: "char \<Rightarrow> string" where
  "escape_debug c =
     (if code c = 0 then [char_of (92::nat), CHR ''0'']
      else if code c = 9 then [char_of (92::nat), CHR ''t'']
      else if code c = 10 then [char_of (92::nat), CHR ''n'']
      else if code c = 13 then [char_of (92::nat), CHR ''r'']
      else if code c = 34 then [char_of (92::nat), char_of (34::nat)]
      else if code c = 92 then [char_of (92::nat), char_of (92::nat)]
      else if code c < 32 \<or> code c = 127
        then char_of (92::nat) # ''u{'' @ hex_lower (code c) @ ''}''
      else [c])"

definition debug_str :: "string \<Rightarrow> string" where
  "debug_str s = [char_of (34::nat)] @ concat (map escape_debug s) @ [char_of (34::nat)]"

end
