(* ===== verification/Transitions.thy ===== *)
theory Transitions
  imports Rust_Str
begin

text \<open>
  The lifecycle reducer of \<open>runtime/libvm/src/runtime/transitions.rs\<close> and the persisted
  machine state it rewrites (\<open>runtime/libvm/src/store/models/machine.rs\<close>).
\<close>

section \<open>The persisted state\<close>

type_synonym machine_id = string

datatype machine_runtime_state = Stopped | Starting | Running | Stopping | ErrorState

fun runtime_state_as_str :: "machine_runtime_state \<Rightarrow> string" where
  "runtime_state_as_str Stopped = ''stopped''"
| "runtime_state_as_str Starting = ''starting''"
| "runtime_state_as_str Running = ''running''"
| "runtime_state_as_str Stopping = ''stopping''"
| "runtime_state_as_str ErrorState = ''error''"

definition runtime_state_parse :: "string \<Rightarrow> (string, machine_runtime_state) result" where
  "runtime_state_parse v =
     (if v = ''stopped'' then Ok Stopped
      else if v = ''starting'' then Ok Starting
      else if v = ''running'' then Ok Running
      else if v = ''stopping'' then Ok Stopping
      else if v = ''error'' then Ok ErrorState
      else Err (''unknown machine runtime state '' @ debug_str v))"

record machine_state =
  ms_machine_id :: machine_id
  ms_status :: machine_runtime_state
  ms_vmm_pid :: "int option"
  ms_started_at :: "int option"
  ms_run_id :: "string option"
  ms_last_error :: "string option"
  ms_updated_at :: int

section \<open>Events and errors\<close>

datatype start_failure = FailStopped | FailError

datatype event =
    StartRequested string
  | MonitorReady string int int
  | MonitorObserved int "int option" "string option"
  | StartFailed string start_failure "string option"
  | StopRequested int "int option" "string option"
  | StopCompleted int "int option" "string option" "string option"
  | ExitObserved bool "string option"
  | MonitorGone "string option"
  | StartTimedOut

datatype transition_error =
    AlreadyActive
  | NotRunning
  | InvalidTransition machine_runtime_state string
  | StaleGeneration

definition START_TIMEOUT_ERROR :: string where
  "START_TIMEOUT_ERROR = ''machine start did not leave a live runtime''"

section \<open>Guards\<close>

definition is_active :: "machine_runtime_state \<Rightarrow> bool" where
  "is_active status \<longleftrightarrow> status \<in> {Starting, Running, Stopping}"

definition require_state ::
  "machine_runtime_state \<Rightarrow> machine_runtime_state \<Rightarrow> string \<Rightarrow> (transition_error, unit) result"
where
  "require_state actual expected ev =
     (if actual = expected then Ok () else Err (InvalidTransition actual ev))"

definition require_run_id ::
  "machine_state \<Rightarrow> string option \<Rightarrow> (transition_error, unit) result" where
  "require_run_id s run_id =
     (case run_id of
        Some r \<Rightarrow> if ms_run_id s \<noteq> Some r then Err StaleGeneration else Ok ()
      | None \<Rightarrow> Ok ())"

definition require_generation ::
  "machine_state \<Rightarrow> int \<Rightarrow> int option \<Rightarrow> string option \<Rightarrow> (transition_error, unit) result"
where
  "require_generation s pid started_at run_id =
     rbind (require_run_id s run_id) (\<lambda>_.
       if ms_vmm_pid s \<noteq> Some pid then Err StaleGeneration
       else if started_at \<noteq> None \<and> ms_started_at s \<noteq> started_at then Err StaleGeneration
       else Ok ())"

definition replace_runtime ::
  "machine_state \<Rightarrow> machine_runtime_state \<Rightarrow> int option \<Rightarrow> int option \<Rightarrow> string option
     \<Rightarrow> string option \<Rightarrow> int \<Rightarrow> machine_state" where
  "replace_runtime s status vmm_pid started_at run_id last_error now =
     s\<lparr>ms_status := status, ms_vmm_pid := vmm_pid, ms_started_at := started_at,
       ms_run_id := run_id, ms_last_error := last_error, ms_updated_at := now\<rparr>"

section \<open>Handlers, one per event\<close>

type_synonym transition = "(transition_error, machine_state) result"

definition start_requested :: "machine_state \<Rightarrow> string \<Rightarrow> int \<Rightarrow> transition" where
  "start_requested s run_id now =
     (if is_active (ms_status s) then Err AlreadyActive
      else Ok (replace_runtime s Starting None None (Some run_id) None now))"

definition monitor_ready :: "machine_state \<Rightarrow> string \<Rightarrow> int \<Rightarrow> int \<Rightarrow> int \<Rightarrow> transition" where
  "monitor_ready s run_id pid started_at now =
     rbind (require_state (ms_status s) Starting ''MonitorReady'') (\<lambda>_.
     rbind (require_run_id s (Some run_id)) (\<lambda>_.
       Ok (replace_runtime s Running (Some pid) (Some started_at) (Some run_id) None now)))"

definition monitor_observed ::
  "machine_state \<Rightarrow> int \<Rightarrow> int option \<Rightarrow> string option \<Rightarrow> int \<Rightarrow> transition" where
  "monitor_observed s pid started_at run_id now =
     (let status = (case ms_status s of
                      Starting \<Rightarrow> Starting
                    | Stopping \<Rightarrow> Stopping
                    | _ \<Rightarrow> Running)
      in Ok (replace_runtime s status (Some pid) started_at run_id None now))"

definition start_failed ::
  "machine_state \<Rightarrow> string \<Rightarrow> start_failure \<Rightarrow> string option \<Rightarrow> int \<Rightarrow> transition" where
  "start_failed s run_id failure error now =
     rbind (require_state (ms_status s) Starting ''StartFailed'') (\<lambda>_.
     rbind (require_run_id s (Some run_id)) (\<lambda>_.
       let status = (case failure of FailStopped \<Rightarrow> Stopped | FailError \<Rightarrow> ErrorState)
       in Ok (replace_runtime s status None None None error now)))"

definition stop_requested ::
  "machine_state \<Rightarrow> int \<Rightarrow> int option \<Rightarrow> string option \<Rightarrow> int \<Rightarrow> transition" where
  "stop_requested s pid started_at run_id now =
     (if ms_status s \<in> {Stopped, ErrorState} then Err NotRunning
      else rbind (require_generation s pid started_at run_id) (\<lambda>_.
        Ok (replace_runtime s Stopping (Some pid) started_at run_id None now)))"

definition stop_completed ::
  "machine_state \<Rightarrow> int \<Rightarrow> int option \<Rightarrow> string option \<Rightarrow> string option \<Rightarrow> int \<Rightarrow> transition"
where
  "stop_completed s pid started_at run_id last_error now =
     rbind (require_state (ms_status s) Stopping ''StopCompleted'') (\<lambda>_.
     rbind (require_generation s pid started_at run_id) (\<lambda>_.
       Ok (replace_runtime s Stopped None None None last_error now)))"

definition exit_observed :: "machine_state \<Rightarrow> bool \<Rightarrow> string option \<Rightarrow> int \<Rightarrow> transition" where
  "exit_observed s clean error now =
     (let (status, last_error) =
            (if clean then (Stopped, None)
             else (ErrorState,
                   Some (case error of Some e \<Rightarrow> e
                         | None \<Rightarrow> ''machine runtime exited with an error'')))
      in Ok (replace_runtime s status None None None last_error now))"

definition monitor_gone :: "machine_state \<Rightarrow> string option \<Rightarrow> int \<Rightarrow> transition" where
  "monitor_gone s last_error now =
     (let status = (case ms_status s of ErrorState \<Rightarrow> ErrorState | _ \<Rightarrow> Stopped)
      in Ok (replace_runtime s status None None None last_error now))"

definition start_timed_out :: "machine_state \<Rightarrow> int \<Rightarrow> transition" where
  "start_timed_out s now =
     rbind (require_state (ms_status s) Starting ''StartTimedOut'') (\<lambda>_.
       Ok (replace_runtime s ErrorState None None None (Some START_TIMEOUT_ERROR) now))"

fun reduce :: "machine_state \<Rightarrow> event \<Rightarrow> int \<Rightarrow> transition" where
  "reduce s (StartRequested run_id) now = start_requested s run_id now"
| "reduce s (MonitorReady run_id pid started_at) now = monitor_ready s run_id pid started_at now"
| "reduce s (MonitorObserved pid started_at run_id) now =
     monitor_observed s pid started_at run_id now"
| "reduce s (StartFailed run_id failure error) now = start_failed s run_id failure error now"
| "reduce s (StopRequested pid started_at run_id) now =
     stop_requested s pid started_at run_id now"
| "reduce s (StopCompleted pid started_at run_id last_error) now =
     stop_completed s pid started_at run_id last_error now"
| "reduce s (ExitObserved clean error) now = exit_observed s clean error now"
| "reduce s (MonitorGone last_error) now = monitor_gone s last_error now"
| "reduce s StartTimedOut now = start_timed_out s now"

section \<open>Invariant\<close>

text \<open>
  A machine that is not active names no process: pid, birth time and run id are cleared. A
  running or stopping machine names its monitor process.
\<close>

definition state_wf :: "machine_state \<Rightarrow> bool" where
  "state_wf s \<longleftrightarrow>
     (\<not> is_active (ms_status s) \<longrightarrow>
        ms_vmm_pid s = None \<and> ms_started_at s = None \<and> ms_run_id s = None) \<and>
     (ms_status s \<in> {Running, Stopping} \<longrightarrow> ms_vmm_pid s \<noteq> None)"

lemmas handler_defs =
  start_requested_def monitor_ready_def monitor_observed_def start_failed_def
  stop_requested_def stop_completed_def exit_observed_def monitor_gone_def
  start_timed_out_def

lemma is_active_iff: "is_active st \<longleftrightarrow> st \<noteq> Stopped \<and> st \<noteq> ErrorState"
  by (cases st) (simp_all add: is_active_def)

lemmas guard_defs =
  is_active_iff require_state_def require_run_id_def require_generation_def

lemmas transition_defs = handler_defs guard_defs replace_runtime_def

lemma reduce_wf: "reduce s e now = Ok s' \<Longrightarrow> state_wf s'"
  by (cases e)
    (auto simp: transition_defs state_wf_def split: if_splits option.splits
      machine_runtime_state.splits start_failure.splits)

lemma reduce_frame:
  "reduce s e now = Ok s' \<Longrightarrow> ms_machine_id s' = ms_machine_id s \<and> ms_updated_at s' = now"
  by (cases e) (auto simp: transition_defs split: if_splits option.splits)

text \<open>Timed events, as the store applies them: the event and the clock reading.\<close>

definition step :: "machine_state \<Rightarrow> event \<times> int \<Rightarrow> transition" where
  "step s e = reduce s (fst e) (snd e)"

interpretation lifecycle: reducer step state_wf ms_machine_id
  by unfold_locales (auto simp: step_def dest: reduce_wf reduce_frame)

section \<open>Which status changes are possible\<close>

lemma reduce_from_Stopping:
  "reduce s e now = Ok s' \<Longrightarrow> ms_status s = Stopping \<Longrightarrow>
     ms_status s' \<in> {Stopping, Stopped, ErrorState}"
  by (cases e)
    (auto simp: transition_defs split: if_splits option.splits start_failure.splits)

lemma reduce_to_Stopping:
  "reduce s e now = Ok s' \<Longrightarrow> ms_status s' = Stopping \<Longrightarrow> is_active (ms_status s)"
  by (cases e)
    (auto simp: transition_defs split: if_splits option.splits machine_runtime_state.splits
      start_failure.splits)

lemma reduce_to_Starting:
  "reduce s e now = Ok s' \<Longrightarrow> ms_status s' = Starting \<Longrightarrow>
     ms_status s = Starting \<or> (\<not> is_active (ms_status s) \<and> (\<exists>r. e = StartRequested r))"
  by (cases e)
    (auto simp: transition_defs split: if_splits option.splits machine_runtime_state.splits
      start_failure.splits)

text \<open>The events that end a run.\<close>

fun ends_run :: "event \<Rightarrow> bool" where
  "ends_run (StartFailed _ _ _) = True"
| "ends_run (StopCompleted _ _ _ _) = True"
| "ends_run (ExitObserved _ _) = True"
| "ends_run (MonitorGone _) = True"
| "ends_run StartTimedOut = True"
| "ends_run _ = False"

lemma reduce_keeps_active:
  "reduce s e now = Ok s' \<Longrightarrow> \<not> ends_run e \<Longrightarrow> is_active (ms_status s')"
  by (cases e) (auto simp: transition_defs split: if_splits option.splits
      machine_runtime_state.splits)

lemma reduce_ends: "reduce s e now = Ok s' \<Longrightarrow> ends_run e \<Longrightarrow> \<not> is_active (ms_status s')"
  by (cases e)
    (auto simp: transition_defs split: if_splits option.splits machine_runtime_state.splits
      start_failure.splits)

section \<open>Generations\<close>

text \<open>The run id an event claims to act for, if it names one.\<close>

fun event_run_id :: "event \<Rightarrow> string option" where
  "event_run_id (MonitorReady r _ _) = Some r"
| "event_run_id (StartFailed r _ _) = Some r"
| "event_run_id (StopRequested _ _ r) = r"
| "event_run_id (StopCompleted _ _ r _) = r"
| "event_run_id _ = None"

lemma reduce_run_id_guard:
  "event_run_id e = Some r \<Longrightarrow> reduce s e now = Ok s' \<Longrightarrow> ms_run_id s = Some r"
  by (cases e) (auto simp: transition_defs split: if_splits option.splits)

lemma reduce_pid_guard:
  "e = StopRequested pid t r \<or> e = StopCompleted pid t r err \<Longrightarrow> reduce s e now = Ok s' \<Longrightarrow>
     ms_vmm_pid s = Some pid \<and> (\<forall>x. t = Some x \<longrightarrow> ms_started_at s = Some x)"
  by (auto simp: transition_defs split: if_splits option.splits)

text \<open>A run id enters the state only with a start request or a monitor observation.\<close>

fun introduces_run :: "string \<Rightarrow> event \<Rightarrow> bool" where
  "introduces_run r (StartRequested r') = (r' = r)"
| "introduces_run r (MonitorObserved _ _ r') = (r' = Some r)"
| "introduces_run r _ = False"

lemma reduce_run_id_origin:
  "reduce s e now = Ok s' \<Longrightarrow> ms_run_id s' = Some r \<Longrightarrow>
     introduces_run r e \<or> ms_run_id s = Some r"
  by (cases e) (auto simp: transition_defs split: if_splits option.splits)

section \<open>Properties\<close>

text \<open>
  Claim C1. Whatever events a machine is fed, accepted or rejected, from a well-formed state
  it stays well-formed: an inactive machine keeps no pid, birth time or run id, a running or
  stopping one always names its monitor. The machine id never changes.
\<close>

theorem lifecycle_invariant:
  assumes "state_wf s"
  shows "state_wf (run_events step s es) \<and>
         ms_machine_id (run_events step s es) = ms_machine_id s"
  using lifecycle.run_inv [OF assms] lifecycle.run_frame by simp

definition example_state :: machine_state where
  "example_state =
     \<lparr>ms_machine_id = ''m1'', ms_status = Stopped, ms_vmm_pid = None, ms_started_at = None,
      ms_run_id = None, ms_last_error = None, ms_updated_at = 1\<rparr>"

definition example_events :: "(event \<times> int) list" where
  "example_events =
     [(StartRequested ''r1'', 10), (MonitorReady ''r1'' 123 42, 11),
      (StopRequested 123 (Some 42) (Some ''r1''), 12)]"

theorem lifecycle_invariant_witness:
  "state_wf example_state \<and>
   ms_status (run_events step example_state example_events) = Stopping \<and>
   state_wf (run_events step example_state example_events) \<and>
   ms_machine_id (run_events step example_state example_events) = ''m1''"
proof -
  have wf: "state_wf example_state"
    by (simp add: state_wf_def example_state_def)
  have "ms_status (run_events step example_state example_events) = Stopping"
    by (simp add: example_state_def example_events_def step_def transition_defs)
  with lifecycle_invariant [OF wf, of example_events] wf show ?thesis
    by (simp add: example_state_def)
qed



text \<open>
  Claim C12. Single flight: between two accepted start requests of one machine there is an
  accepted event that ended the first run, so two runs never overlap.
\<close>

theorem no_overlapping_runs:
  assumes first: "step s (StartRequested r, t) = Ok s1"
    and second: "step (run_events step s1 es) (StartRequested r', t') = Ok s2"
  shows "\<exists>e \<in> set (accepted step s1 es). ends_run (fst e)"
proof (rule ccontr)
  assume none: "\<not> ?thesis"
  have "is_active (ms_status s1)"
    using first by (auto simp: step_def transition_defs split: if_splits)
  then have "is_active (ms_status (run_events step s1 es))"
    using lifecycle.run_stays
      [of "\<lambda>x. is_active (ms_status x)" "\<lambda>e. ends_run (fst e)" s1 es] none
    by (auto simp: step_def dest: reduce_keeps_active)
  with second show False by (simp add: step_def start_requested_def)
qed

theorem no_overlapping_runs_witness:
  "\<exists>e \<in> set (accepted step
       (example_state\<lparr>ms_status := Starting, ms_run_id := Some ''r1'', ms_updated_at := 10\<rparr>)
       [(MonitorReady ''r1'' 123 42, 11), (ExitObserved True None, 12)]). ends_run (fst e)"
  by (rule no_overlapping_runs [of example_state "''r1''" 10 _ _ "''r2''" 13])
    (simp_all add: example_state_def step_def transition_defs)

text \<open>
  Claim C26. A stop in progress is never undone by a single event: from \<open>Stopping\<close> a machine
  only stays, stops or fails, \<open>Stopping\<close> is only entered from an active state, and
  \<open>Starting\<close> only by a start request on an inactive machine.
\<close>

theorem lifecycle_edges:
  assumes "reduce s e now = Ok s'"
  shows "(ms_status s = Stopping \<longrightarrow> ms_status s' \<in> {Stopping, Stopped, ErrorState}) \<and>
         (ms_status s' = Stopping \<longrightarrow> is_active (ms_status s)) \<and>
         (ms_status s' = Starting \<longrightarrow> ms_status s = Starting \<or>
            (\<not> is_active (ms_status s) \<and> (\<exists>r. e = StartRequested r)))"
  using assms reduce_from_Stopping reduce_to_Stopping reduce_to_Starting by blast

theorem lifecycle_edges_witness:
  "ms_status example_state = Stopped \<and>
   (\<exists>s'. reduce example_state (StartRequested ''r1'') 5 = Ok s' \<and> ms_status s' = Starting \<and>
         \<not> is_active (ms_status example_state))"
proof -
  define s' where "s' = example_state\<lparr>ms_status := Starting, ms_run_id := Some ''r1'',
    ms_updated_at := 5\<rparr>"
  have red: "reduce example_state (StartRequested ''r1'') 5 = Ok s'"
    by (simp add: s'_def example_state_def transition_defs)
  from lifecycle_edges [OF red] red show ?thesis
    by (auto simp: s'_def example_state_def)
qed

text \<open>
  Claim C27. Provenance of the recorded run: if a machine that starts without a run id ends
  up recording run \<open>r\<close>, then an accepted start request or monitor observation named \<open>r\<close>.
\<close>

theorem run_id_provenance:
  "ms_run_id (run_events step s es) = Some r \<Longrightarrow> ms_run_id s \<noteq> Some r \<Longrightarrow>
     \<exists>e \<in> set (accepted step s es). introduces_run r (fst e)"
proof (rule ccontr)
  assume r: "ms_run_id (run_events step s es) = Some r" "ms_run_id s \<noteq> Some r"
    and none: "\<not> (\<exists>e \<in> set (accepted step s es). introduces_run r (fst e))"
  have "ms_run_id (run_events step s es) \<noteq> Some r"
    using lifecycle.run_stays
      [of "\<lambda>x. ms_run_id x \<noteq> Some r" "\<lambda>e. introduces_run r (fst e)" s es] r none
    by (auto simp: step_def dest: reduce_run_id_origin)
  with r show False by simp
qed

theorem run_id_provenance_witness:
  "\<exists>e \<in> set (accepted step example_state example_events). introduces_run ''r1'' (fst e)"
  by (rule run_id_provenance)
    (simp_all add: example_state_def example_events_def step_def transition_defs)

text \<open>
  Claim C28. The full protocol of one run is never stuck: from any inactive state the start
  request, the matching ready report, the stop request and the stop completion are all
  accepted, and the machine ends \<open>Stopped\<close> with every trace of the run cleared.
\<close>

theorem full_cycle:
  assumes "\<not> is_active (ms_status s)"
  shows "let es = [(StartRequested r, t1), (MonitorReady r pid born, t2),
                   (StopRequested pid (Some born) (Some r), t3),
                   (StopCompleted pid (Some born) (Some r) err, t4)]
         in accepted step s es = es \<and>
            run_events step s es =
              s\<lparr>ms_status := Stopped, ms_vmm_pid := None, ms_started_at := None,
                ms_run_id := None, ms_last_error := err, ms_updated_at := t4\<rparr>"
  using assms by (auto simp: step_def transition_defs)

theorem full_cycle_witness:
  "\<not> is_active (ms_status example_state) \<and>
   ms_status (run_events step example_state
     [(StartRequested ''r'', 1), (MonitorReady ''r'' 7 2, 2),
      (StopRequested 7 (Some 2) (Some ''r''), 3),
      (StopCompleted 7 (Some 2) (Some ''r'') None, 4)]) = Stopped"
proof -
  have inactive: "\<not> is_active (ms_status example_state)"
    by (simp add: example_state_def is_active_iff)
  with full_cycle [OF inactive, of "''r''" 1 7 2 2 3 None 4] show ?thesis
    by (simp add: Let_def)
qed

text \<open>
  The stored spelling of a lifecycle state and the state determine each other: the
  parser returns the state that was printed, and accepts no other spelling.
\<close>

theorem runtime_state_roundtrip:
  "runtime_state_parse v = Ok st \<longleftrightarrow> v = runtime_state_as_str st"
  by (cases st) (simp_all add: runtime_state_parse_def)

end
