(* ===== verification/Reconcile.thy ===== *)
theory Reconcile
  imports Transitions
begin

text \<open>
  Reconciliation of the persisted machine state with the host
  (\<open>runtime/libvm/src/runtime/core.rs\<close>): the pid file, the process table, the exit record
  and the lifetime lock are read, the observation becomes one event of the reducer, and the
  result is written back when it differs. The durable store is a map from machine ids to
  states, with faults on reading and writing; what the host shows is a record of the results
  of the calls the code makes. Error values keep their variant; the texts of I/O errors are
  shortened to their fixed part.
\<close>

section \<open>Errors, exit records, process identities\<close>

datatype io_error = IoNotFound | IoInvalidData string | IoOther string

datatype libvm_error =
    LibIo io_error
  | LibTransition transition_error
  | InvalidOwnedPath string string
  | MachineAlreadyRunning string
  | MonitorConnection string string

datatype vmm_exit_outcome = ExitClean | ExitError | ExitForced

record vmm_exit_status =
  xs_machine_id :: string
  xs_run_id :: string
  xs_pid :: int
  xs_exited_at :: int
  xs_outcome :: vmm_exit_outcome
  xs_error :: "string option"

record process_identity =
  pi_pid :: int
  pi_started_at :: "int option"
  pi_alive :: "(libvm_error, bool) result"

definition matches_started_at :: "process_identity \<Rightarrow> int option \<Rightarrow> bool" where
  "matches_started_at p expected \<longleftrightarrow> pi_started_at p = expected"

definition identity_matches_generation :: "process_identity \<Rightarrow> int option \<Rightarrow> bool" where
  "identity_matches_generation p expected \<longleftrightarrow> expected = None \<or> matches_started_at p expected"

record vmm_run_identity =
  vr_pid :: int
  vr_started_at :: "int option"
  vr_run_id :: "string option"

record machine_config =
  mc_id :: machine_id
  mc_name :: string
  mc_machine_dir :: string

record host =
  h_pid_file :: "(io_error, string) result"
  h_for_pid :: "int \<Rightarrow> (libvm_error, process_identity option) result"
  h_ensure_run_dir :: "(libvm_error, unit) result"
  h_lifetime_lock_free :: "(libvm_error, bool) result"
  h_exit_status :: "(libvm_error, vmm_exit_status option) result"
  h_machine_data_dir :: string
  h_machine_run_dir :: string
  h_reconcile_network :: "(libvm_error, unit) result"
  h_remove_run_tree :: "(libvm_error, unit) result"
  h_now :: int

section \<open>The durable store\<close>

record store =
  st_states :: "machine_id \<rightharpoonup> machine_state"
  st_read_fault :: "libvm_error option"
  st_write_fault :: "libvm_error option"

definition store_machine_state ::
  "store \<Rightarrow> machine_id \<Rightarrow> (libvm_error, machine_state option) result" where
  "store_machine_state st mid =
     (case st_read_fault st of Some e \<Rightarrow> Err e | None \<Rightarrow> Ok (st_states st mid))"

definition save_machine_state :: "store \<Rightarrow> machine_state \<Rightarrow> (libvm_error, store) result" where
  "save_machine_state st s =
     (case st_write_fault st of
        Some e \<Rightarrow> Err e
      | None \<Rightarrow> Ok (st\<lparr>st_states := (st_states st)(ms_machine_id s \<mapsto> s)\<rparr>))"

definition stopped_machine_state :: "machine_id \<Rightarrow> string option \<Rightarrow> int \<Rightarrow> machine_state" where
  "stopped_machine_state mid last_error now =
     \<lparr>ms_machine_id = mid, ms_status = Stopped, ms_vmm_pid = None, ms_started_at = None,
      ms_run_id = None, ms_last_error = last_error, ms_updated_at = now\<rparr>"

definition machine_state_of :: "store \<Rightarrow> machine_id \<Rightarrow> int \<Rightarrow> (libvm_error, machine_state) result"
where
  "machine_state_of st mid now =
     rbind (store_machine_state st mid) (\<lambda>found.
       case found of Some s \<Rightarrow> Ok s | None \<Rightarrow> Ok (stopped_machine_state mid None now))"

section \<open>Observation\<close>

text \<open>\<open>trimmed.parse::<i32>()\<close>: an optional sign, then decimal digits within the range.\<close>

definition parse_i32 :: "string \<Rightarrow> int option" where
  "parse_i32 s =
     (case s of
        c # cs \<Rightarrow>
          if c = CHR ''-'' \<and> cs \<noteq> [] \<and> hd cs \<noteq> CHR ''+''
          then map_option (\<lambda>n. - int n) (parse_uint (2 ^ 31) cs)
          else map_option int (parse_uint (2 ^ 31 - 1) s)
      | [] \<Rightarrow> None)"

definition read_monitor_pid :: "(io_error, string) result \<Rightarrow> (io_error, int) result" where
  "read_monitor_pid file =
     rbind file (\<lambda>raw.
     rbind (ok_or (parse_i32 (trim raw)) (IoInvalidData ''parse monitor pid'')) (\<lambda>pid.
       if pid \<le> 0 then Err (IoInvalidData ''monitor pid must be positive'') else Ok pid))"

definition pid_from_file :: "host \<Rightarrow> (libvm_error, int option) result" where
  "pid_from_file h =
     (case read_monitor_pid (h_pid_file h) of
        Inr pid \<Rightarrow> Ok (Some pid)
      | Inl e \<Rightarrow> if e = IoNotFound then Ok None else Err (LibIo e))"

fun probe_pids ::
  "host \<Rightarrow> int option \<Rightarrow> bool \<Rightarrow> int option \<Rightarrow> int list
     \<Rightarrow> (libvm_error, process_identity option) result" where
  "probe_pids h expected recovering last_pid [] = Ok None"
| "probe_pids h expected recovering last_pid (pid # pids) =
     (if last_pid = Some pid then probe_pids h expected recovering last_pid pids
      else rbind (h_for_pid h pid) (\<lambda>found.
        case found of
          None \<Rightarrow> probe_pids h expected recovering (Some pid) pids
        | Some p \<Rightarrow> rbind (pi_alive p) (\<lambda>alive.
            if alive \<and> (identity_matches_generation p expected \<or> recovering)
            then Ok (Some p)
            else probe_pids h expected recovering (Some pid) pids)))"

definition recovering_prearmed_start :: "machine_state option \<Rightarrow> bool" where
  "recovering_prearmed_start runtime =
     (case runtime of
        None \<Rightarrow> False
      | Some s \<Rightarrow> ms_status s = Starting \<and> (ms_vmm_pid s = None \<or> ms_started_at s = None))"

definition option_list :: "'a option \<Rightarrow> 'a list" where
  "option_list x = (case x of None \<Rightarrow> [] | Some a \<Rightarrow> [a])"

definition live_monitor_identity ::
  "host \<Rightarrow> int option \<Rightarrow> machine_state option \<Rightarrow> (libvm_error, process_identity option) result"
where
  "live_monitor_identity h file_pid runtime =
     probe_pids h (Option.bind runtime ms_started_at) (recovering_prearmed_start runtime) None
       (option_list file_pid @ option_list (Option.bind runtime ms_vmm_pid))"

definition runtime_exit_matches :: "vmm_exit_status \<Rightarrow> machine_state option \<Rightarrow> bool" where
  "runtime_exit_matches x runtime =
     (case runtime of
        None \<Rightarrow> True
      | Some s \<Rightarrow> xs_machine_id x = ms_machine_id s \<and> ms_run_id s = Some (xs_run_id x) \<and>
                  ms_vmm_pid s = Some (xs_pid x))"

definition exit_observed_event :: "vmm_exit_status \<Rightarrow> bool \<times> string option" where
  "exit_observed_event x =
     (case xs_outcome x of
        ExitClean \<Rightarrow> (True, None)
      | ExitForced \<Rightarrow> (True, None)
      | ExitError \<Rightarrow> (False, xs_error x))"

definition reduce_or_error ::
  "machine_state \<Rightarrow> event \<Rightarrow> int \<Rightarrow> (libvm_error, machine_state) result" where
  "reduce_or_error s e now = map_err LibTransition (reduce s e now)"

definition current_status :: "machine_state option \<Rightarrow> machine_runtime_state" where
  "current_status runtime = (case runtime of None \<Rightarrow> Stopped | Some s \<Rightarrow> ms_status s)"

definition matching_exit ::
  "vmm_exit_status option \<Rightarrow> machine_state option \<Rightarrow> process_identity option
     \<Rightarrow> vmm_exit_status option" where
  "matching_exit exit_status runtime live =
     (case exit_status of
        Some x \<Rightarrow> if runtime_exit_matches x runtime \<and> live = None then Some x else None
      | None \<Rightarrow> None)"

text \<open>The last part of \<open>observe_machine_state\<close>: from what was read to the observed state.\<close>

definition observed_state ::
  "machine_id \<Rightarrow> machine_state option \<Rightarrow> process_identity option \<Rightarrow> bool
     \<Rightarrow> vmm_exit_status option \<Rightarrow> int \<Rightarrow> (libvm_error, machine_state) result" where
  "observed_state mid runtime live abandoned_start exit_status now =
     (let stored = (case runtime of Some s \<Rightarrow> s | None \<Rightarrow> stopped_machine_state mid None now)
      in case matching_exit exit_status runtime live of
           Some x \<Rightarrow>
             reduce_or_error stored
               (ExitObserved (fst (exit_observed_event x)) (snd (exit_observed_event x))) now
         | None \<Rightarrow>
             (case live of
                Some p \<Rightarrow>
                  reduce_or_error stored
                    (MonitorObserved (pi_pid p) (pi_started_at p)
                       (Option.bind runtime ms_run_id)) now
              | None \<Rightarrow>
                  if abandoned_start then reduce_or_error stored StartTimedOut now
                  else if current_status runtime = Starting
                  then Ok (stored\<lparr>ms_vmm_pid := None, ms_started_at := None,
                                  ms_last_error := None, ms_updated_at := now\<rparr>)
                  else reduce_or_error stored
                         (MonitorGone (Option.bind runtime ms_last_error)) now))"

definition observe_machine_state ::
  "host \<Rightarrow> machine_id \<Rightarrow> machine_state option \<Rightarrow> (libvm_error, machine_state) result" where
  "observe_machine_state h mid runtime =
     rbind (pid_from_file h) (\<lambda>file_pid.
     rbind (live_monitor_identity h file_pid runtime) (\<lambda>live.
     rbind (if current_status runtime = Starting \<and> live = None
            then rbind (h_ensure_run_dir h) (\<lambda>_. h_lifetime_lock_free h)
            else Ok False) (\<lambda>abandoned_start.
     rbind (h_exit_status h) (\<lambda>exit_status.
       observed_state mid runtime live abandoned_start exit_status (h_now h)))))"

definition machine_state_needs_writeback :: "machine_state option \<Rightarrow> machine_state \<Rightarrow> bool" where
  "machine_state_needs_writeback persisted observed =
     (case persisted of
        None \<Rightarrow> True
      | Some p \<Rightarrow> ms_status p \<noteq> ms_status observed \<or> ms_vmm_pid p \<noteq> ms_vmm_pid observed \<or>
                  ms_started_at p \<noteq> ms_started_at observed \<or> ms_run_id p \<noteq> ms_run_id observed \<or>
                  ms_last_error p \<noteq> ms_last_error observed)"

record runtime_status =
  rs_state :: machine_runtime_state
  rs_pid :: "int option"
  rs_started_at :: "int option"
  rs_run_id :: "string option"
  rs_last_error :: "string option"

definition runtime_status_of :: "machine_state \<Rightarrow> runtime_status" where
  "runtime_status_of s =
     \<lparr>rs_state = ms_status s, rs_pid = ms_vmm_pid s, rs_started_at = ms_started_at s,
      rs_run_id = ms_run_id s, rs_last_error = ms_last_error s\<rparr>"

section \<open>Store operations\<close>

definition reconcile_machine_runtime_locked ::
  "host \<Rightarrow> store \<Rightarrow> machine_config \<Rightarrow> (libvm_error, store \<times> runtime_status) result" where
  "reconcile_machine_runtime_locked h st config =
     rbind (store_machine_state st (mc_id config)) (\<lambda>persisted.
     rbind (observe_machine_state h (mc_id config) persisted) (\<lambda>observed.
     rbind (if machine_state_needs_writeback persisted observed
            then save_machine_state st observed else Ok st) (\<lambda>st'.
       Ok (st', runtime_status_of observed))))"

text \<open>
  The best-effort variant observes without the machine lock. It then tries the lock (the
  result is the argument \<open>lock\<close>); by that time another process may have changed the store and
  the host, so the second phase has its own \<open>h2\<close> and \<open>st2\<close>.
\<close>

definition reconcile_machine_runtime_best_effort ::
  "host \<Rightarrow> store \<Rightarrow> (libvm_error, bool) result \<Rightarrow> host \<Rightarrow> store \<Rightarrow> machine_config
     \<Rightarrow> (libvm_error, store \<times> runtime_status) result" where
  "reconcile_machine_runtime_best_effort h st lock h2 st2 config =
     rbind (store_machine_state st (mc_id config)) (\<lambda>persisted.
     rbind (observe_machine_state h (mc_id config) persisted) (\<lambda>observed.
       if machine_state_needs_writeback persisted observed
       then rbind lock (\<lambda>acquired.
              if acquired then reconcile_machine_runtime_locked h2 st2 config
              else rbind (machine_state_of st2 (mc_id config) (h_now h2)) (\<lambda>s.
                     Ok (st2, runtime_status_of s)))
       else Ok (st2, runtime_status_of observed)))"

definition transition_machine_state ::
  "store \<Rightarrow> machine_state \<Rightarrow> event \<Rightarrow> int \<Rightarrow> (libvm_error, store \<times> machine_state) result" where
  "transition_machine_state st s e now =
     rbind (reduce_or_error s e now) (\<lambda>next_state.
     rbind (save_machine_state st next_state) (\<lambda>st'. Ok (st', next_state)))"

definition transition_current_machine_state ::
  "store \<Rightarrow> machine_id \<Rightarrow> event \<Rightarrow> int \<Rightarrow> (libvm_error, store \<times> machine_state) result" where
  "transition_current_machine_state st mid e now =
     rbind (machine_state_of st mid now) (\<lambda>s. transition_machine_state st s e now)"

definition request_machine_start ::
  "store \<Rightarrow> machine_config \<Rightarrow> string \<Rightarrow> int \<Rightarrow> (libvm_error, store) result" where
  "request_machine_start st config run_id now =
     rbind (machine_state_of st (mc_id config) now) (\<lambda>s.
     rbind (reduce_or_error s (StartRequested run_id) now) (save_machine_state st))"

definition mark_machine_monitor_ready ::
  "store \<Rightarrow> machine_id \<Rightarrow> string \<Rightarrow> int \<Rightarrow> int \<Rightarrow> int \<Rightarrow> (libvm_error, store) result" where
  "mark_machine_monitor_ready st mid run_id pid started_at now =
     rbind (transition_current_machine_state st mid (MonitorReady run_id pid started_at) now)
       (\<lambda>(st', _). Ok st')"

definition mark_machine_start_failed ::
  "store \<Rightarrow> machine_id \<Rightarrow> string \<Rightarrow> start_failure \<Rightarrow> string option \<Rightarrow> int
     \<Rightarrow> (libvm_error, store) result" where
  "mark_machine_start_failed st mid run_id failure error now =
     rbind (transition_current_machine_state st mid (StartFailed run_id failure error) now)
       (\<lambda>(st', _). Ok st')"

definition mark_machine_start_stopped ::
  "store \<Rightarrow> machine_id \<Rightarrow> string \<Rightarrow> string option \<Rightarrow> int \<Rightarrow> (libvm_error, store) result" where
  "mark_machine_start_stopped st mid run_id error now =
     mark_machine_start_failed st mid run_id FailStopped error now"

definition mark_machine_start_error ::
  "store \<Rightarrow> machine_id \<Rightarrow> string \<Rightarrow> string option \<Rightarrow> int \<Rightarrow> (libvm_error, store) result" where
  "mark_machine_start_error st mid run_id error now =
     mark_machine_start_failed st mid run_id FailError error now"

definition set_machine_state ::
  "store \<Rightarrow> machine_id \<Rightarrow> machine_runtime_state \<Rightarrow> int option \<Rightarrow> int option \<Rightarrow> string option
     \<Rightarrow> string option \<Rightarrow> int \<Rightarrow> (libvm_error, store) result" where
  "set_machine_state st mid status vmm_pid started_at run_id last_error now =
     save_machine_state st
       \<lparr>ms_machine_id = mid, ms_status = status, ms_vmm_pid = vmm_pid,
        ms_started_at = started_at, ms_run_id = run_id, ms_last_error = last_error,
        ms_updated_at = now\<rparr>"

definition mark_machine_stopped ::
  "store \<Rightarrow> machine_id \<Rightarrow> string option \<Rightarrow> int \<Rightarrow> (libvm_error, store) result" where
  "mark_machine_stopped st mid last_error now =
     set_machine_state st mid Stopped None None None last_error now"

definition request_machine_stop ::
  "store \<Rightarrow> machine_id \<Rightarrow> vmm_run_identity \<Rightarrow> int \<Rightarrow> (libvm_error, store) result" where
  "request_machine_stop st mid g now =
     rbind (transition_current_machine_state st mid
              (StopRequested (vr_pid g) (vr_started_at g) (vr_run_id g)) now)
       (\<lambda>(st', _). Ok st')"

definition vmm_run_identity_matches :: "machine_state \<Rightarrow> vmm_run_identity \<Rightarrow> bool" where
  "vmm_run_identity_matches s g \<longleftrightarrow>
     (case vr_run_id g of Some r \<Rightarrow> ms_run_id s = Some r | None \<Rightarrow> True) \<and>
     ms_vmm_pid s = Some (vr_pid g) \<and>
     (case vr_started_at g of Some t \<Rightarrow> ms_started_at s = Some t | None \<Rightarrow> True)"

definition vmm_run_is_alive :: "host \<Rightarrow> vmm_run_identity \<Rightarrow> (libvm_error, bool) result" where
  "vmm_run_is_alive h g =
     rbind (h_for_pid h (vr_pid g)) (\<lambda>found.
       case found of
         None \<Rightarrow> Ok False
       | Some p \<Rightarrow> if identity_matches_generation p (vr_started_at g) then pi_alive p
                   else Ok False)"

text \<open>
  The network runtime and the run tree belong to other components; the results of the calls
  into them are fields of the host. A completed stop returns the store with its result,
  because the state is already saved when the cleanup fails.
\<close>

definition validate_machine_data_dir :: "host \<Rightarrow> machine_config \<Rightarrow> (libvm_error, unit) result" where
  "validate_machine_data_dir h config =
     (if mc_machine_dir config \<noteq> h_machine_data_dir h
      then Err (InvalidOwnedPath (mc_machine_dir config)
             (''persisted machine directory does not equal canonical machine path ''
              @ h_machine_data_dir h))
      else Ok ())"

definition cleanup_machine_resources_locked ::
  "host \<Rightarrow> machine_config \<Rightarrow> (libvm_error, unit) result" where
  "cleanup_machine_resources_locked h config =
     rbind (validate_machine_data_dir h config) (\<lambda>_.
     rbind (h_reconcile_network h) (\<lambda>_. h_remove_run_tree h))"

definition complete_stop_locked ::
  "host \<Rightarrow> store \<Rightarrow> machine_config \<Rightarrow> vmm_run_identity \<Rightarrow> string option
     \<Rightarrow> store \<times> (libvm_error, bool) result" where
  "complete_stop_locked h st config g last_error =
     (case machine_state_of st (mc_id config) (h_now h) of
        Inl e \<Rightarrow> (st, Err e)
      | Inr s \<Rightarrow>
          if \<not> is_active (ms_status s) then (st, Ok True)
          else if \<not> vmm_run_identity_matches s g then (st, Ok False)
          else (case vmm_run_is_alive h g of
                  Inl e \<Rightarrow> (st, Err e)
                | Inr alive \<Rightarrow>
                    if alive then (st, Ok False)
                    else (case reduce s (StopCompleted (vr_pid g) (vr_started_at g)
                                           (vr_run_id g) last_error) (h_now h) of
                            Inl e \<Rightarrow> if e = StaleGeneration then (st, Ok False)
                                     else (st, Err (LibTransition e))
                          | Inr next_state \<Rightarrow>
                              (case save_machine_state st next_state of
                                 Inl e \<Rightarrow> (st, Err e)
                               | Inr st' \<Rightarrow>
                                   (st', rbind (cleanup_machine_resources_locked h config)
                                           (\<lambda>_. Ok True))))))"

definition ensure_no_live_vmm_generation ::
  "host \<Rightarrow> store \<Rightarrow> machine_config \<Rightarrow> (libvm_error, unit) result" where
  "ensure_no_live_vmm_generation h st config =
     rbind (machine_state_of st (mc_id config) (h_now h)) (\<lambda>s.
       case ms_vmm_pid s of
         None \<Rightarrow> Ok ()
       | Some pid \<Rightarrow> rbind (h_for_pid h pid) (\<lambda>found.
           case found of
             None \<Rightarrow> Ok ()
           | Some p \<Rightarrow>
               if \<not> identity_matches_generation p (ms_started_at s)
               then Err (InvalidOwnedPath (h_machine_run_dir h)
                      (''silo-vmm pid '' @ show_int pid @
                       '' is a different process generation than persisted machine state''))
               else rbind (pi_alive p) (\<lambda>alive.
                 if alive then Err (MachineAlreadyRunning (mc_name config)) else Ok ())))"

definition monitor_identity ::
  "host \<Rightarrow> int \<Rightarrow> string \<Rightarrow> string \<Rightarrow> (libvm_error, process_identity) result" where
  "monitor_identity h pid pid_path machine_name =
     (let gone = MonitorConnection machine_name
                   (''silo-vmm pid '' @ show_int pid @ '' from '' @ pid_path @ '' is not running'')
      in rbind (h_for_pid h pid) (\<lambda>found.
           case found of
             None \<Rightarrow> Err gone
           | Some p \<Rightarrow> rbind (pi_alive p) (\<lambda>alive. if \<not> alive then Err gone else Ok p)))"

section \<open>The store contract\<close>

text \<open>
  What the operations rely on: a successful lookup returns what is stored, a successful save
  stores the state under its own machine id and touches nothing else. Clients see a store
  whose entries are filed under their own id and well-formed.
\<close>

definition filed :: "machine_id \<Rightarrow> machine_state \<Rightarrow> bool" where
  "filed m s \<longleftrightarrow> ms_machine_id s = m \<and> state_wf s"

locale machine_store =
  fixes lookup :: "'st \<Rightarrow> machine_id \<Rightarrow> (libvm_error, machine_state option) result"
    and save :: "'st \<Rightarrow> machine_state \<Rightarrow> (libvm_error, 'st) result"
    and contents :: "'st \<Rightarrow> machine_id \<rightharpoonup> machine_state"
  assumes lookup_Ok: "lookup st mid = Inr found \<Longrightarrow> found = contents st mid"
    and save_Ok: "save st s = Inr st' \<Longrightarrow>
      contents st' = (contents st)(ms_machine_id s \<mapsto> s)"
begin

lemma save_entries_wf:
  assumes "save st s = Inr st'" and "state_wf s"
    and "\<forall>m x. contents st m = Some x \<longrightarrow> filed m x"
  shows "\<forall>m x. contents st' m = Some x \<longrightarrow> filed m x"
  using assms(2,3) by (simp add: save_Ok [OF assms(1)] filed_def)

lemma save_other: "save st s = Inr st' \<Longrightarrow> m \<noteq> ms_machine_id s \<Longrightarrow> contents st' m = contents st m"
  by (drule save_Ok) simp

end

interpretation db: machine_store store_machine_state save_machine_state st_states
  by unfold_locales (auto simp: store_machine_state_def save_machine_state_def split: option.splits)

definition store_wf :: "store \<Rightarrow> bool" where
  "store_wf st \<longleftrightarrow> (\<forall>m s. st_states st m = Some s \<longrightarrow> filed m s)"

lemma save_store_wf:
  assumes "save_machine_state st s = Ok st'" and "state_wf s" and "store_wf st"
  shows "store_wf st'"
  using db.save_entries_wf [OF assms(1,2)] assms(3) by (simp add: store_wf_def)

lemma stopped_machine_state_wf [simp]: "state_wf (stopped_machine_state mid err now)"
  by (simp add: stopped_machine_state_def state_wf_def is_active_iff)

lemma machine_state_of_cases:
  assumes "machine_state_of st mid now = Ok s"
  shows "st_states st mid = Some s \<or> s = stopped_machine_state mid None now"
  using assms
  by (cases "st_read_fault st"; cases "st_states st mid")
    (simp_all add: machine_state_of_def store_machine_state_def)

lemma machine_state_of_filed:
  assumes "machine_state_of st mid now = Ok s" and "store_wf st"
  shows "filed mid s"
  using machine_state_of_cases [OF assms(1)]
proof
  assume "st_states st mid = Some s"
  then show ?thesis using assms(2) unfolding store_wf_def by blast
next
  assume "s = stopped_machine_state mid None now"
  then show ?thesis by (simp add: filed_def) (simp add: stopped_machine_state_def)
qed

section \<open>What an observation can conclude\<close>

lemma probe_pids_Some:
  "probe_pids h expected recovering last_pid pids = Ok (Some p) \<Longrightarrow>
     \<exists>pid \<in> set pids. h_for_pid h pid = Ok (Some p) \<and> pi_alive p = Ok True \<and>
       (identity_matches_generation p expected \<or> recovering)"
  by (induction h expected recovering last_pid pids rule: probe_pids.induct)
    (auto split: if_splits option.splits)

lemma observe_Ok:
  assumes "observe_machine_state h mid runtime = Ok s'"
  obtains f live ab x where "pid_from_file h = Ok f"
    and "live_monitor_identity h f runtime = Ok live"
    and "ab \<Longrightarrow> current_status runtime = Starting \<and> live = None \<and> h_lifetime_lock_free h = Ok True"
    and "h_exit_status h = Ok x"
    and "observed_state mid runtime live ab x (h_now h) = Ok s'"
proof -
  from assms obtain f live ab x where read: "pid_from_file h = Ok f"
      "live_monitor_identity h f runtime = Ok live"
      "(if current_status runtime = Starting \<and> live = None
        then rbind (h_ensure_run_dir h) (\<lambda>_. h_lifetime_lock_free h) else Ok False) = Ok ab"
      "h_exit_status h = Ok x" "observed_state mid runtime live ab x (h_now h) = Ok s'"
    unfolding observe_machine_state_def rbind_Ok_iff by blast
  have "ab \<Longrightarrow> current_status runtime = Starting \<and> live = None \<and> h_lifetime_lock_free h = Ok True"
    using read(3) by (auto split: if_splits)
  with that [of f live ab x] read show thesis by blast
qed

lemma observed_state_event:
  assumes "observed_state mid runtime live ab x now = Ok s'"
  shows "(\<exists>e. reduce (case runtime of Some s \<Rightarrow> s | None \<Rightarrow> stopped_machine_state mid None now)
            e now = Ok s') \<or>
         (\<exists>s. runtime = Some s \<and> ms_status s = Starting \<and> live = None \<and> \<not> ab \<and>
            matching_exit x runtime live = None \<and>
            s' = s\<lparr>ms_vmm_pid := None, ms_started_at := None, ms_last_error := None,
                   ms_updated_at := now\<rparr>)"
  using assms
  by (auto simp: observed_state_def Let_def reduce_or_error_def current_status_def
      simp del: reduce.simps split: option.splits if_splits)

lemma observed_state_frame:
  assumes "observed_state mid runtime live ab x now = Ok s'"
    and "\<And>s. runtime = Some s \<Longrightarrow> ms_machine_id s = mid"
  shows "ms_machine_id s' = mid"
  using observed_state_event [OF assms(1)] assms(2)
  by (auto dest!: reduce_frame simp: stopped_machine_state_def split: option.splits)

lemma observed_state_wf:
  assumes "observed_state mid runtime live ab x now = Ok s'"
    and "\<And>s. runtime = Some s \<Longrightarrow> state_wf s"
  shows "state_wf s'"
  using observed_state_event [OF assms(1)]
  by (auto dest: reduce_wf simp: state_wf_def is_active_iff)

lemma observed_state_live:
  assumes "observed_state mid runtime (Some p) ab x now = Ok s'"
  shows "is_active (ms_status s') \<and> ms_vmm_pid s' = Some (pi_pid p) \<and>
         ms_started_at s' = pi_started_at p \<and> ms_run_id s' = Option.bind runtime ms_run_id"
  using assms
  by (auto simp: observed_state_def Let_def reduce_or_error_def matching_exit_def
      monitor_observed_def replace_runtime_def is_active_iff
      split: option.splits if_splits machine_runtime_state.splits)

lemma observed_state_failed:
  assumes "observed_state mid (Some s) live ab x now = Ok s'"
    and "is_active (ms_status s)" and "ms_status s' = ErrorState"
  shows "(\<exists>y. x = Some y \<and> runtime_exit_matches y (Some s) \<and> xs_outcome y = ExitError) \<or> ab"
  using assms
  by (auto simp: observed_state_def Let_def reduce_or_error_def matching_exit_def
      monitor_observed_def monitor_gone_def exit_observed_def exit_observed_event_def
      replace_runtime_def is_active_iff
      split: option.splits if_splits machine_runtime_state.splits vmm_exit_outcome.splits)

lemma observed_state_inactive:
  assumes "observed_state mid runtime live ab x now = Ok s'" and "\<not> is_active (ms_status s')"
  shows "live = None"
  using assms observed_state_live by (cases live) auto

section \<open>Observing twice\<close>

text \<open>
  \<open>ProcessIdentity::for_pid\<close> names the process it was asked for. Under that law a second
  observation of the same host changes nothing, provided the first one settled: it found a
  live monitor, or there is no pid file left to be read.
\<close>

definition host_ok :: "host \<Rightarrow> bool" where
  "host_ok h \<longleftrightarrow> (\<forall>pid p. h_for_pid h pid = Ok (Some p) \<longrightarrow> pi_pid p = pid)"

lemma host_okD: "host_ok h \<Longrightarrow> h_for_pid h pid = Ok (Some p) \<Longrightarrow> pi_pid p = pid"
  by (simp add: host_ok_def)

lemma live_identity_Some:
  assumes "host_ok h" and "live_monitor_identity h f runtime = Ok (Some p)"
  shows "h_for_pid h (pi_pid p) = Ok (Some p) \<and> pi_alive p = Ok True \<and>
    (f = Some (pi_pid p) \<or> Option.bind runtime ms_vmm_pid = Some (pi_pid p)) \<and>
    (identity_matches_generation p (Option.bind runtime ms_started_at) \<or>
     recovering_prearmed_start runtime)"
proof -
  from probe_pids_Some [OF assms(2) [unfolded live_monitor_identity_def]]
  obtain pid where pid: "pid \<in> set (option_list f @ option_list (Option.bind runtime ms_vmm_pid))"
    "h_for_pid h pid = Ok (Some p)" "pi_alive p = Ok True"
    "identity_matches_generation p (Option.bind runtime ms_started_at) \<or>
     recovering_prearmed_start runtime" by blast
  moreover have "pi_pid p = pid" using assms(1) pid(2) by (rule host_okD)
  ultimately show ?thesis by (auto simp: option_list_def split: option.splits)
qed

lemma probe_hit:
  assumes "h_for_pid h pid = Ok (Some p)" and "pi_alive p = Ok True"
    and "identity_matches_generation p e" and "lst \<noteq> Some pid"
  shows "probe_pids h e r lst (pid # pids) = Ok (Some p)"
  using assms by simp

lemma probe_passes_over:
  assumes "probe_pids h e r None (a # pids) = Ok (Some p)" and "pi_pid p \<noteq> a" and "host_ok h"
  shows "h_for_pid h a = Ok None \<or>
    (\<exists>y. h_for_pid h a = Ok (Some y) \<and>
       (pi_alive y = Ok False \<or>
        pi_alive y = Ok True \<and> \<not> r \<and> \<not> identity_matches_generation y e))"
proof (cases "h_for_pid h a")
  case (Inl x) with assms(1) show ?thesis by simp
next
  case (Inr q)
  show ?thesis
  proof (cases q)
    case None with Inr show ?thesis by simp
  next
    case (Some y)
    then have "pi_pid y = a" using Inr assms(3) host_okD by blast
    then have "y \<noteq> p" using assms(2) by blast
    then show ?thesis using Inr Some assms(1)
      by (cases "pi_alive y") (simp_all split: if_splits, blast?)
  qed
qed

lemma probe_passes_again:
  assumes "h_for_pid h a = Ok None \<or>
    (\<exists>y. h_for_pid h a = Ok (Some y) \<and>
       (pi_alive y = Ok False \<or> pi_alive y = Ok True \<and> \<not> r \<and> \<not> identity_matches_generation y e))"
  shows "probe_pids h e r None (a # pids) = probe_pids h e r (Some a) pids"
  using assms by (elim disjE exE conjE) simp_all

lemma live_stable:
  assumes host: "host_ok h" and live: "live_monitor_identity h f runtime = Ok (Some p)"
    and s1: "ms_vmm_pid s1 = Some (pi_pid p)" "ms_started_at s1 = pi_started_at p"
  shows "live_monitor_identity h f (Some s1) = Ok (Some p)"
proof -
  note found = live_identity_Some [OF host live]
  have self: "identity_matches_generation p (pi_started_at p)"
    by (simp add: identity_matches_generation_def matches_started_at_def)
  let ?probe = "probe_pids h (pi_started_at p) (recovering_prearmed_start (Some s1))"
  have goal: "live_monitor_identity h f (Some s1) = ?probe None (option_list f @ [pi_pid p])"
    by (simp add: live_monitor_identity_def s1 option_list_def)
  show ?thesis
  proof (cases "f = None \<or> f = Some (pi_pid p)")
    case True
    then obtain pids where "option_list f @ [pi_pid p] = pi_pid p # pids"
      by (auto simp: option_list_def)
    then show ?thesis unfolding goal using found self by (metis probe_hit option.distinct(1))
  next
    case False
    then obtain a where a: "f = Some a" "a \<noteq> pi_pid p" by auto
    have was: "probe_pids h (Option.bind runtime ms_started_at)
        (recovering_prearmed_start runtime) None
        (a # option_list (Option.bind runtime ms_vmm_pid)) = Ok (Some p)"
      using live a(1) by (simp add: live_monitor_identity_def option_list_def)
    note skip = probe_passes_over [OF was a(2) [symmetric] host]
    have "h_for_pid h a = Ok None \<or>
      (\<exists>y. h_for_pid h a = Ok (Some y) \<and>
       (pi_alive y = Ok False \<or>
        pi_alive y = Ok True \<and> \<not> recovering_prearmed_start (Some s1) \<and>
        \<not> identity_matches_generation y (pi_started_at p)))"
      using skip found
      by (auto simp: identity_matches_generation_def matches_started_at_def
          recovering_prearmed_start_def s1)
    from probe_passes_again [OF this, of "[pi_pid p]"]
    have "?probe None [a, pi_pid p] = ?probe (Some a) [pi_pid p]" .
    also have "\<dots> = Ok (Some p)" using found self a(2) by (intro probe_hit) simp_all
    finally show ?thesis using goal by (simp add: a(1) option_list_def del: probe_pids.simps)
  qed
qed

lemma observed_live_again:
  assumes "observed_state mid runtime (Some p) ab x now = Ok s1"
  shows "\<exists>s2. observed_state mid (Some s1) (Some p) ab' x now = Ok s2 \<and>
    \<not> machine_state_needs_writeback (Some s1) s2"
  using assms
  by (auto simp: observed_state_def Let_def reduce_or_error_def matching_exit_def
      monitor_observed_def replace_runtime_def machine_state_needs_writeback_def
      split: option.splits if_splits machine_runtime_state.splits)

lemma observed_inactive_again:
  assumes "\<not> is_active (ms_status s1)" and "state_wf s1"
  shows "\<exists>s2. observed_state mid (Some s1) None False x now = Ok s2 \<and>
    \<not> machine_state_needs_writeback (Some s1) s2"
proof -
  have "matching_exit x (Some s1) None = None"
    using assms by (simp add: matching_exit_def runtime_exit_matches_def state_wf_def
      split: option.splits)
  with assms show ?thesis
    by (auto simp: observed_state_def reduce_or_error_def monitor_gone_def replace_runtime_def
      machine_state_needs_writeback_def current_status_def state_wf_def is_active_iff)
qed

lemma observed_gone:
  assumes "observed_state mid runtime None ab x now = Ok s1"
    and "\<And>s. runtime = Some s \<Longrightarrow> state_wf s"
  shows "state_wf s1 \<and> \<not> is_active (ms_status s1) \<or>
    (\<exists>s. runtime = Some s \<and> ms_status s = Starting \<and> \<not> ab \<and>
      s1 = s\<lparr>ms_vmm_pid := None, ms_started_at := None, ms_last_error := None, ms_updated_at := now\<rparr>)"
proof -
  have "is_active (ms_status s1) \<Longrightarrow> current_status runtime = Starting \<and> \<not> ab \<and>
    matching_exit x runtime None = None"
    using assms(1)
    by (auto simp: observed_state_def Let_def reduce_or_error_def monitor_gone_def
      exit_observed_def start_timed_out_def replace_runtime_def is_active_iff
      split: option.splits if_splits machine_runtime_state.splits)
  moreover have "state_wf s1" using observed_state_wf assms by blast
  ultimately show ?thesis using assms(1)
    by (cases "is_active (ms_status s1)")
      (auto simp: observed_state_def current_status_def split: option.splits)
qed

lemma observed_starting_again:
  assumes "ms_status s1 = Starting" and "ms_vmm_pid s1 = None" and "ms_started_at s1 = None"
    and "ms_last_error s1 = None"
  shows "\<exists>s2. observed_state mid (Some s1) None False x now = Ok s2 \<and>
    \<not> machine_state_needs_writeback (Some s1) s2"
proof -
  have "matching_exit x (Some s1) None = None"
    using assms by (simp add: matching_exit_def runtime_exit_matches_def split: option.splits)
  with assms show ?thesis
    by (simp add: observed_state_def machine_state_needs_writeback_def current_status_def)
qed

lemma observe_again:
  assumes host: "host_ok h" and obs: "observe_machine_state h mid runtime = Ok s1"
    and wf: "\<And>s. runtime = Some s \<Longrightarrow> state_wf s"
    and settled: "pid_from_file h = Ok None \<or> ms_vmm_pid s1 \<noteq> None"
  shows "\<exists>s2. observe_machine_state h mid (Some s1) = Ok s2 \<and>
    \<not> machine_state_needs_writeback (Some s1) s2"
proof -
  from obs obtain f live ab x where seen: "pid_from_file h = Ok f"
      "live_monitor_identity h f runtime = Ok live"
      "(if current_status runtime = Starting \<and> live = None
        then rbind (h_ensure_run_dir h) (\<lambda>_. h_lifetime_lock_free h) else Ok False) = Ok ab"
      "h_exit_status h = Ok x" "observed_state mid runtime live ab x (h_now h) = Ok s1"
    unfolding observe_machine_state_def rbind_Ok_iff by blast
  show ?thesis
  proof (cases live)
    case (Some p)
    have "live_monitor_identity h f (Some s1) = Ok (Some p)"
      using live_stable [OF host seen(2) [unfolded Some]]
        observed_state_live [OF seen(5) [unfolded Some]] by blast
    with seen(1,4) observed_live_again [OF seen(5) [unfolded Some], of False] show ?thesis
      by (simp add: observe_machine_state_def)
  next
    case None
    from observed_gone [OF seen(5) [unfolded None] wf]
    have gone: "ms_vmm_pid s1 = None \<and> (\<not> is_active (ms_status s1) \<and> state_wf s1 \<or>
      current_status runtime = Starting \<and> \<not> ab \<and> ms_status s1 = Starting \<and>
      ms_started_at s1 = None \<and> ms_last_error s1 = None)"
      by (auto simp: state_wf_def current_status_def)
    then have "f = None" using settled seen(1) by simp
    then have probe: "live_monitor_identity h f (Some s1) = Ok None"
      using gone by (simp add: live_monitor_identity_def option_list_def)
    have lock: "(if current_status (Some s1) = Starting \<and> None = (None :: process_identity option)
        then rbind (h_ensure_run_dir h) (\<lambda>_. h_lifetime_lock_free h) else Ok False) = Ok False"
      using gone seen(3) None by (auto simp: current_status_def is_active_iff)
    have "\<exists>s2. observed_state mid (Some s1) None False x (h_now h) = Ok s2 \<and>
      \<not> machine_state_needs_writeback (Some s1) s2"
      using gone observed_inactive_again observed_starting_again by blast
    with seen(1,4) probe lock show ?thesis
      unfolding observe_machine_state_def rbind_Ok_iff by blast
  qed
qed

section \<open>The store over any sequence of operations\<close>

inductive store_op :: "store \<Rightarrow> store \<Rightarrow> bool" where
  op_reconcile: "reconcile_machine_runtime_locked h st config = Ok (st', r) \<Longrightarrow> store_op st st'"
| op_start: "request_machine_start st config run_id now = Ok st' \<Longrightarrow> store_op st st'"
| op_ready: "mark_machine_monitor_ready st mid run_id pid started_at now = Ok st' \<Longrightarrow> store_op st st'"
| op_failed: "mark_machine_start_failed st mid run_id failure error now = Ok st' \<Longrightarrow> store_op st st'"
| op_stopped: "mark_machine_stopped st mid last_error now = Ok st' \<Longrightarrow> store_op st st'"
| op_stop: "request_machine_stop st mid g now = Ok st' \<Longrightarrow> store_op st st'"
| op_complete: "complete_stop_locked h st config g last_error = (st', r) \<Longrightarrow> store_op st st'"

inductive_cases store_opE: "store_op st st'"

lemma transition_current_wf:
  assumes "transition_current_machine_state st mid e now = Ok (st', s)" and "store_wf st"
  shows "store_wf st'"
  using assms(1) save_store_wf [OF _ _ assms(2)]
  by (auto simp: transition_current_machine_state_def transition_machine_state_def reduce_or_error_def
      simp del: reduce.simps split: sum.splits dest: reduce_wf)

lemma observe_wf:
  assumes "observe_machine_state h mid runtime = Ok s'" and "\<And>s. runtime = Some s \<Longrightarrow> filed mid s"
  shows "filed mid s'"
proof (rule observe_Ok [OF assms(1)])
  fix live ab x
  assume obs: "observed_state mid runtime live ab x (h_now h) = Ok s'"
  have "ms_machine_id s' = mid" using observed_state_frame [OF obs] assms(2) by (simp add: filed_def)
  moreover have "state_wf s'" using observed_state_wf [OF obs] assms(2) by (simp add: filed_def)
  ultimately show ?thesis by (simp add: filed_def)
qed

lemma reconcile_Ok:
  assumes "reconcile_machine_runtime_locked h st config = Ok (st', r)"
  obtains s where "observe_machine_state h (mc_id config) (st_states st (mc_id config)) = Ok s"
    and "st_read_fault st = None" and "r = runtime_status_of s"
    and "if machine_state_needs_writeback (st_states st (mc_id config)) s
         then save_machine_state st s = Ok st' else st' = st"
  using assms
  by (auto simp: reconcile_machine_runtime_locked_def store_machine_state_def
      split: option.splits if_splits)

lemma reconcile_wf:
  assumes "reconcile_machine_runtime_locked h st config = Ok (st', r)" and "store_wf st"
  shows "store_wf st'"
proof (rule reconcile_Ok [OF assms(1)])
  fix s
  assume obs: "observe_machine_state h (mc_id config) (st_states st (mc_id config)) = Ok s"
    and w: "if machine_state_needs_writeback (st_states st (mc_id config)) s
         then save_machine_state st s = Ok st' else st' = st"
  have "filed (mc_id config) s"
    using observe_wf [OF obs] assms(2) by (auto simp: store_wf_def)
  then show "store_wf st'"
    using w save_store_wf [OF _ _ assms(2)] assms(2) by (auto simp: filed_def split: if_splits)
qed

lemma complete_stop_cases:
  assumes "complete_stop_locked h st config g err = (st', r)"
  shows "st' = st \<or> (\<exists>s s'. machine_state_of st (mc_id config) (h_now h) = Ok s \<and>
    vmm_run_identity_matches s g \<and> vmm_run_is_alive h g = Ok False \<and>
    reduce s (StopCompleted (vr_pid g) (vr_started_at g) (vr_run_id g) err) (h_now h) = Ok s' \<and>
    save_machine_state st s' = Ok st' \<and> r = rbind (cleanup_machine_resources_locked h config) (\<lambda>_. Ok True))"
  using assms
  by (auto simp: complete_stop_locked_def simp del: reduce.simps split: sum.splits if_splits)

lemma complete_stop_wf:
  assumes "complete_stop_locked h st config g err = (st', r)" and "store_wf st"
  shows "store_wf st'"
  using complete_stop_cases [OF assms(1)] assms(2) save_store_wf [OF _ _ assms(2)] reduce_wf
  by blast

lemma store_op_wf: "store_op st st' \<Longrightarrow> store_wf st \<Longrightarrow> store_wf st'"
proof (induction rule: store_op.induct)
  case (op_reconcile h st config st' r) then show ?case by (rule reconcile_wf)
next
  case (op_start st config run_id now st')
  then show ?case using save_store_wf
    by (auto simp: request_machine_start_def reduce_or_error_def simp del: reduce.simps
        dest: reduce_wf)
next
  case (op_stopped st mid last_error now st')
  then show ?case using save_store_wf
    by (auto simp: mark_machine_stopped_def set_machine_state_def state_wf_def is_active_iff)
next
  case (op_complete h st config g last_error st' r)
  then show ?case by (rule complete_stop_wf)
qed (auto simp: mark_machine_monitor_ready_def mark_machine_start_failed_def
      request_machine_stop_def intro: transition_current_wf)

lemma probe_pids_None:
  "probe_pids h e r lst pids = Ok None \<Longrightarrow> pid \<in> set pids \<Longrightarrow> lst \<noteq> Some pid \<Longrightarrow>
     h_for_pid h pid = Ok (Some p) \<Longrightarrow> pi_alive p = Ok True \<Longrightarrow> \<not> identity_matches_generation p e"
proof (induction h e r lst pids rule: probe_pids.induct)
  case (2 h e r lst a pids)
  then show ?case by (cases "a = pid") (auto split: if_splits option.splits)
qed simp

lemma observe_live_kept:
  assumes "observe_machine_state h mid (Some s) = Ok s'" and "ms_vmm_pid s = Some pid"
    and "h_for_pid h pid = Ok (Some p)" and "pi_alive p = Ok True"
    and "identity_matches_generation p (ms_started_at s)"
  shows "is_active (ms_status s') \<and> ms_vmm_pid s' \<noteq> None \<and> ms_run_id s' = ms_run_id s"
proof (rule observe_Ok [OF assms(1)])
  fix f live ab x
  assume live: "live_monitor_identity h f (Some s) = Ok live"
    and obs: "observed_state mid (Some s) live ab x (h_now h) = Ok s'"
  have "live \<noteq> None"
  proof
    assume "live = None"
    from probe_pids_None [OF live [unfolded live_monitor_identity_def this] _ _ assms(3,4)]
      assms(2,5) show False by (simp add: option_list_def)
  qed
  then show ?thesis using observed_state_live obs by fastforce
qed

section \<open>Concrete runs\<close>

definition quiet_host :: host where
  "quiet_host = \<lparr>h_pid_file = Err IoNotFound, h_for_pid = (\<lambda>_. Ok None),
     h_ensure_run_dir = Ok (), h_lifetime_lock_free = Ok True, h_exit_status = Ok None,
     h_machine_data_dir = ''/m/m1'', h_machine_run_dir = ''/r/m1'', h_reconcile_network = Ok (),
     h_remove_run_tree = Ok (), h_now = 20\<rparr>"

definition empty_store :: store where
  "empty_store = \<lparr>st_states = Map.empty, st_read_fault = None, st_write_fault = None\<rparr>"

definition store_of :: "machine_state \<Rightarrow> store" where
  "store_of s = empty_store\<lparr>st_states := [ms_machine_id s \<mapsto> s]\<rparr>"

definition demo_config :: machine_config where
  "demo_config = \<lparr>mc_id = ''m1'', mc_name = ''demo'', mc_machine_dir = ''/m/m1''\<rparr>"

definition demo_state :: "machine_runtime_state \<Rightarrow> int option \<Rightarrow> int option \<Rightarrow> string option \<Rightarrow> machine_state"
where
  "demo_state st pid t run =
     \<lparr>ms_machine_id = ''m1'', ms_status = st, ms_vmm_pid = pid, ms_started_at = t,
      ms_run_id = run, ms_last_error = None, ms_updated_at = 10\<rparr>"

lemma empty_store_wf [simp]: "store_wf empty_store"
  by (simp add: store_wf_def empty_store_def)

lemma store_of_wf [simp]: "state_wf s \<Longrightarrow> store_wf (store_of s)"
  by (simp add: store_wf_def store_of_def filed_def)

lemma demo_start:
  "request_machine_start empty_store demo_config ''r1'' 10 =
     Ok (store_of (demo_state Starting None None (Some ''r1'')))"
  by (simp add: request_machine_start_def machine_state_of_def store_machine_state_def
      save_machine_state_def empty_store_def demo_config_def store_of_def demo_state_def
      stopped_machine_state_def reduce_or_error_def start_requested_def is_active_iff
      replace_runtime_def)

lemma quiet_running:
  "reconcile_machine_runtime_locked quiet_host
     (store_of (demo_state Running (Some 7) (Some 5) (Some ''r1''))) demo_config =
   Ok (store_of ((demo_state Stopped None None None)\<lparr>ms_updated_at := 20\<rparr>),
       runtime_status_of (demo_state Stopped None None None))"
  by (simp add: reconcile_machine_runtime_locked_def store_machine_state_def store_of_def
      empty_store_def demo_config_def demo_state_def observe_machine_state_def quiet_host_def
      pid_from_file_def read_monitor_pid_def live_monitor_identity_def option_list_def
      current_status_def observed_state_def matching_exit_def reduce_or_error_def
      monitor_gone_def replace_runtime_def machine_state_needs_writeback_def
      save_machine_state_def runtime_status_of_def)

lemma demo_state_wf [simp]:
  "state_wf (demo_state Running (Some pid) t run)" "state_wf (demo_state Stopping (Some pid) t run)"
  "state_wf (demo_state Starting p t run)" "state_wf (demo_state Stopped None None None)"
  by (simp_all add: demo_state_def state_wf_def is_active_iff)

definition exit_host :: host where
  "exit_host = quiet_host\<lparr>h_exit_status := Ok (Some \<lparr>xs_machine_id = ''m1'', xs_run_id = ''r1'',
     xs_pid = 7, xs_exited_at = 15, xs_outcome = ExitError, xs_error = Some ''panic''\<rparr>)\<rparr>"

definition proc :: "int \<Rightarrow> int \<Rightarrow> process_identity" where
  "proc pid t = \<lparr>pi_pid = pid, pi_started_at = Some t, pi_alive = Ok True\<rparr>"

definition live_host :: "int \<Rightarrow> host" where
  "live_host t = exit_host\<lparr>h_pid_file := Ok ''7'',
     h_for_pid := (\<lambda>q. Ok (if q = 7 then Some (proc 7 t) else None))\<rparr>"

lemmas demo_defs = reconcile_machine_runtime_locked_def store_machine_state_def store_of_def
  empty_store_def demo_config_def demo_state_def observe_machine_state_def quiet_host_def
  exit_host_def live_host_def proc_def
  pid_from_file_def live_monitor_identity_def option_list_def
  current_status_def observed_state_def matching_exit_def reduce_or_error_def
  monitor_gone_def monitor_observed_def exit_observed_def exit_observed_event_def
  runtime_exit_matches_def recovering_prearmed_start_def identity_matches_generation_def
  matches_started_at_def replace_runtime_def machine_state_needs_writeback_def
  save_machine_state_def runtime_status_of_def

lemma read_pid_7: "read_monitor_pid (Ok ''7'') = Ok 7"
proof -
  have "trim ''7'' = ''7''" by (rule trim_graphic) (simp_all add: is_graphic_def code_def)
  then show ?thesis
    by (simp add: read_monitor_pid_def parse_i32_def parse_uint_def is_ascii_digit_def code_def)
qed

lemma exit_running:
  "reconcile_machine_runtime_locked exit_host
     (store_of (demo_state Running (Some 7) (Some 5) (Some ''r1''))) demo_config =
   Ok (store_of ((demo_state ErrorState None None None)
          \<lparr>ms_last_error := Some ''panic'', ms_updated_at := 20\<rparr>),
       runtime_status_of ((demo_state ErrorState None None None)\<lparr>ms_last_error := Some ''panic''\<rparr>))"
  by (simp add: demo_defs read_monitor_pid_def)

lemma live_running:
  "reconcile_machine_runtime_locked (live_host 5)
     (store_of (demo_state Running (Some 7) (Some 5) (Some ''r1''))) demo_config =
   Ok (store_of (demo_state Running (Some 7) (Some 5) (Some ''r1'')),
       runtime_status_of (demo_state Running (Some 7) (Some 5) (Some ''r1'')))"
  by (simp add: demo_defs read_pid_7)

lemma reused_running:
  "reconcile_machine_runtime_locked (live_host 9)
     (store_of (demo_state Running (Some 7) (Some 5) (Some ''r2''))) demo_config =
   Ok (store_of ((demo_state Stopped None None None)\<lparr>ms_updated_at := 20\<rparr>),
       runtime_status_of (demo_state Stopped None None None))"
  by (simp add: demo_defs read_pid_7)

lemma reused_stopped:
  "reconcile_machine_runtime_locked (live_host 9)
     (store_of ((demo_state Stopped None None None)\<lparr>ms_updated_at := 20\<rparr>)) demo_config =
   Ok (store_of ((demo_state Running (Some 7) (Some 9) None)\<lparr>ms_updated_at := 20\<rparr>),
       runtime_status_of (demo_state Running (Some 7) (Some 9) None))"
  by (simp add: demo_defs read_pid_7)

lemma live_host_ok: "host_ok (live_host t)"
  by (simp add: host_ok_def live_host_def proc_def)

lemma stopping_completed:
  "complete_stop_locked quiet_host (store_of (demo_state Stopping (Some 7) (Some 5) (Some ''r1'')))
     demo_config \<lparr>vr_pid = 7, vr_started_at = Some 5, vr_run_id = Some ''r1''\<rparr> None =
   (store_of ((demo_state Stopped None None None)\<lparr>ms_updated_at := 20\<rparr>), Ok True)"
  by (simp add: demo_defs complete_stop_locked_def machine_state_of_def is_active_iff
      vmm_run_identity_matches_def vmm_run_is_alive_def stop_completed_def require_state_def
      require_generation_def require_run_id_def cleanup_machine_resources_locked_def
      validate_machine_data_dir_def)

section \<open>Properties\<close>

text \<open>
  Claim C14. Whatever sequence of lifecycle operations runs against the store (reconciliation,
  start requests, monitor-ready and start-failed reports, forced stops, stop requests, stop
  completions, each with an arbitrary host and clock), every stored state stays filed under
  its own machine id and well-formed: an inactive machine never keeps a pid, a birth time or a
  run id, and a running or stopping one names its process.
\<close>

theorem store_invariant:
  assumes "store_op\<^sup>*\<^sup>* st st'" and "store_wf st"
  shows "store_wf st'"
  using assms by (induction rule: rtranclp_induct) (auto intro: store_op_wf)

theorem store_invariant_witness:
  "store_wf empty_store \<and> store_wf (store_of (demo_state Starting None None (Some ''r1'')))"
proof -
  have "store_op\<^sup>*\<^sup>* empty_store (store_of (demo_state Starting None None (Some ''r1'')))"
    using op_start [OF demo_start] by blast
  from store_invariant [OF this] show ?thesis by simp
qed

text \<open>
  Claim C18. Reconciliation tells its caller exactly what is durably stored: after a
  successful pass the store has a state for the machine and the returned status is the
  projection of that state, whether or not the pass had to write.
\<close>

theorem reconcile_reports_store:
  assumes "reconcile_machine_runtime_locked h st config = Ok (st', r)" and "store_wf st"
  shows "\<exists>s. st_states st' (mc_id config) = Some s \<and> filed (mc_id config) s \<and>
    r = runtime_status_of s \<and>
    (\<forall>m. m \<noteq> mc_id config \<longrightarrow> st_states st' m = st_states st m)"
proof (rule reconcile_Ok [OF assms(1)])
  fix s
  assume obs: "observe_machine_state h (mc_id config) (st_states st (mc_id config)) = Ok s"
    and r: "r = runtime_status_of s"
    and w: "if machine_state_needs_writeback (st_states st (mc_id config)) s
         then save_machine_state st s = Ok st' else st' = st"
  have s: "filed (mc_id config) s"
    using observe_wf [OF obs] assms(2) by (auto simp: store_wf_def)
  show ?thesis
  proof (cases "machine_state_needs_writeback (st_states st (mc_id config)) s")
    case True
    with w have "save_machine_state st s = Ok st'" by simp
    from db.save_Ok [OF this] s r show ?thesis by (auto simp: filed_def)
  next
    case False
    then obtain q where q: "st_states st (mc_id config) = Some q" "runtime_status_of q = r"
      using r by (auto simp: machine_state_needs_writeback_def runtime_status_of_def
          split: option.splits)
    with False w assms(2) show ?thesis by (auto simp: store_wf_def)
  qed
qed

theorem reconcile_reports_store_witness:
  "\<exists>s. st_states (store_of ((demo_state Stopped None None None)\<lparr>ms_updated_at := 20\<rparr>)) ''m1'' = Some s \<and>
     runtime_status_of (demo_state Stopped None None None) = runtime_status_of s"
  using reconcile_reports_store [OF quiet_running] by (auto simp: demo_config_def)

text \<open>
  Claim C22. Reconciliation is idempotent once it has settled: on an unchanged host, when the
  first pass found a live monitor (it reported a pid) or no pid file is left, a second pass
  reports the same status and leaves the store untouched. The host law used is that
  \<open>ProcessIdentity::for_pid\<close> returns an identity with the pid it was asked for.
\<close>

theorem reconcile_idempotent:
  assumes first: "reconcile_machine_runtime_locked h st config = Ok (st1, r1)"
    and "store_wf st" and "host_ok h"
    and "pid_from_file h = Ok None \<or> rs_pid r1 \<noteq> None"
  shows "reconcile_machine_runtime_locked h st1 config = Ok (st1, r1)"
proof (rule reconcile_Ok [OF first])
  fix s
  let ?p = "st_states st (mc_id config)"
  assume obs: "observe_machine_state h (mc_id config) ?p = Ok s"
    and rd: "st_read_fault st = None" and r: "r1 = runtime_status_of s"
    and w: "if machine_state_needs_writeback ?p s then save_machine_state st s = Ok st1
            else st1 = st"
  have wf: "\<And>q. ?p = Some q \<Longrightarrow> state_wf q"
    and s: "filed (mc_id config) s"
    using observe_wf [OF obs] assms(2) by (auto simp: store_wf_def filed_def)
  show ?thesis
  proof (cases "machine_state_needs_writeback ?p s")
    case False
    with w first show ?thesis by simp
  next
    case True
    with w have saved: "save_machine_state st s = Ok st1" by simp
    then have st1: "store_machine_state st1 (mc_id config) = Ok (Some s)"
      using rd s by (auto simp: save_machine_state_def store_machine_state_def filed_def
          split: option.splits)
    obtain s2 where "observe_machine_state h (mc_id config) (Some s) = Ok s2"
      and "\<not> machine_state_needs_writeback (Some s) s2"
      using observe_again [OF assms(3) obs wf] assms(4) r by (auto simp: runtime_status_of_def)
    then show ?thesis
      using st1 r by (simp add: reconcile_machine_runtime_locked_def runtime_status_of_def
          machine_state_needs_writeback_def)
  qed
qed

theorem reconcile_idempotent_witness:
  "reconcile_machine_runtime_locked quiet_host
     (store_of ((demo_state Stopped None None None)\<lparr>ms_updated_at := 20\<rparr>)) demo_config =
   Ok (store_of ((demo_state Stopped None None None)\<lparr>ms_updated_at := 20\<rparr>),
       runtime_status_of (demo_state Stopped None None None))"
  by (rule reconcile_idempotent [OF quiet_running])
    (simp_all add: host_ok_def quiet_host_def pid_from_file_def read_monitor_pid_def)

text \<open>
  Claim C19. A live monitor is never declared gone: when the process the stored state names
  is alive with the recorded birth time, a successful reconciliation reports an active
  machine with a pid and the same run id, whatever the pid file, the exit record and the
  lifetime lock say.
\<close>

theorem live_monitor_kept:
  assumes "reconcile_machine_runtime_locked h st config = Ok (st', r)"
    and "st_states st (mc_id config) = Some s" and "ms_vmm_pid s = Some pid"
    and "h_for_pid h pid = Ok (Some p)" and "pi_alive p = Ok True"
    and "identity_matches_generation p (ms_started_at s)"
  shows "is_active (rs_state r) \<and> rs_pid r \<noteq> None \<and> rs_run_id r = ms_run_id s"
  by (rule reconcile_Ok [OF assms(1)])
    (use observe_live_kept [OF _ assms(3-6)] assms(2) in \<open>auto simp: runtime_status_of_def\<close>)

theorem live_monitor_kept_witness:
  "is_active (rs_state (runtime_status_of (demo_state Running (Some 7) (Some 5) (Some ''r1''))))"
  using live_monitor_kept [OF live_running, of _ 7 "proc 7 5"]
  by (simp add: store_of_def demo_config_def demo_state_def live_host_def proc_def
      identity_matches_generation_def matches_started_at_def)



text \<open>
  Claim C21. Reconciliation turns an active machine into a failed one only on evidence: an
  exit record of the very same run (machine id, run id and pid) with the outcome \<open>error\<close>, or
  a start whose lifetime lock is free, so that nobody is starting it any more.
\<close>

theorem failure_needs_evidence:
  assumes "reconcile_machine_runtime_locked h st config = Ok (st', r)"
    and "st_states st (mc_id config) = Some s" and "is_active (ms_status s)"
    and "rs_state r = ErrorState"
  shows "(\<exists>x. h_exit_status h = Ok (Some x) \<and> xs_machine_id x = ms_machine_id s \<and>
            ms_run_id s = Some (xs_run_id x) \<and> ms_vmm_pid s = Some (xs_pid x) \<and>
            xs_outcome x = ExitError) \<or>
         (ms_status s = Starting \<and> h_lifetime_lock_free h = Ok True)"
proof (rule reconcile_Ok [OF assms(1)])
  fix s'
  assume obs: "observe_machine_state h (mc_id config) (st_states st (mc_id config)) = Ok s'"
    and r: "r = runtime_status_of s'"
  show ?thesis
  proof (rule observe_Ok [OF obs [unfolded assms(2)]])
    fix f live ab x
    assume ab: "ab \<Longrightarrow> current_status (Some s) = Starting \<and> live = None \<and>
        h_lifetime_lock_free h = Ok True"
      and x: "h_exit_status h = Ok x"
      and obs: "observed_state (mc_id config) (Some s) live ab x (h_now h) = Ok s'"
    have "ms_status s' = ErrorState" using assms(4) r by (simp add: runtime_status_of_def)
    from observed_state_failed [OF obs assms(3) this] ab x show ?thesis
      by (auto simp: runtime_exit_matches_def current_status_def)
  qed
qed

theorem failure_needs_evidence_witness:
  "\<exists>x. h_exit_status exit_host = Ok (Some x) \<and> xs_pid x = 7 \<and> xs_outcome x = ExitError"
  using failure_needs_evidence [OF exit_running, of "demo_state Running (Some 7) (Some 5) (Some ''r1'')"]
  by (auto simp: runtime_status_of_def demo_state_def store_of_def demo_config_def is_active_iff)




end
