(* ===== verification/Btree.thy ===== *)
theory Btree
  imports Prelude
begin

text \<open>
  \<open>std::collections::BTreeMap\<close> as a strictly ascending association list, with the interface
  the components rely on as a locale. Iteration order is the key order, as in Rust.
\<close>

type_synonym ('k, 'v) btree = "('k \<times> 'v) list"

fun bt_get :: "'k::linorder \<Rightarrow> ('k, 'v) btree \<Rightarrow> 'v option" where
  "bt_get k [] = None"
| "bt_get k ((k', v) # t) = (if k = k' then Some v else bt_get k t)"

fun bt_insert :: "'k::linorder \<Rightarrow> 'v \<Rightarrow> ('k, 'v) btree \<Rightarrow> ('k, 'v) btree" where
  "bt_insert k v [] = [(k, v)]"
| "bt_insert k v ((k', v') # t) =
     (if k < k' then (k, v) # (k', v') # t
      else if k = k' then (k, v) # t
      else (k', v') # bt_insert k v t)"

fun bt_remove :: "'k::linorder \<Rightarrow> ('k, 'v) btree \<Rightarrow> ('k, 'v) btree" where
  "bt_remove k [] = []"
| "bt_remove k ((k', v') # t) = (if k = k' then t else (k', v') # bt_remove k t)"

definition bt_wf :: "('k::linorder, 'v) btree \<Rightarrow> bool" where
  "bt_wf t \<longleftrightarrow> sorted_wrt (<) (map fst t)"

definition bt_keys :: "('k::linorder, 'v) btree \<Rightarrow> 'k set" where
  "bt_keys t = fst ` set t"

lemma bt_wf_simps [simp]:
  "bt_wf []"
  "bt_wf ((k, v) # t) \<longleftrightarrow> (\<forall>k' \<in> bt_keys t. k < k') \<and> bt_wf t"
  by (auto simp: bt_wf_def bt_keys_def)

lemma bt_keys_simps [simp]:
  "bt_keys [] = {}"
  "bt_keys ((k, v) # t) = insert k (bt_keys t)"
  by (auto simp: bt_keys_def)

lemma bt_get_None_iff: "bt_get k t = None \<longleftrightarrow> k \<notin> bt_keys t"
  by (induction k t rule: bt_get.induct) auto

lemma bt_keys_insert [simp]: "bt_keys (bt_insert k v t) = insert k (bt_keys t)"
  by (induction k v t rule: bt_insert.induct) auto

lemma bt_wf_insert [simp]: "bt_wf t \<Longrightarrow> bt_wf (bt_insert k v t)"
  by (induction k v t rule: bt_insert.induct) auto

lemma bt_get_insert [simp]:
  "bt_wf t \<Longrightarrow> bt_get j (bt_insert k v t) = (if j = k then Some v else bt_get j t)"
  by (induction k v t rule: bt_insert.induct) auto

lemma bt_keys_remove_subset: "bt_keys (bt_remove k t) \<subseteq> bt_keys t"
  by (induction k t rule: bt_remove.induct) auto

lemma bt_wf_remove [simp]: "bt_wf t \<Longrightarrow> bt_wf (bt_remove k t)"
  using bt_keys_remove_subset by (induction k t rule: bt_remove.induct) fastforce+

lemma bt_get_remove [simp]:
  "bt_wf t \<Longrightarrow> bt_get j (bt_remove k t) = (if j = k then None else bt_get j t)"
  by (induction k t rule: bt_remove.induct) (auto simp: bt_get_None_iff)

lemma bt_mem_iff: "bt_wf t \<Longrightarrow> (k, v) \<in> set t \<longleftrightarrow> bt_get k t = Some v"
  by (induction t) (force simp: bt_keys_def)+

lemma bt_insert_subset: "set (bt_insert k v t) \<subseteq> insert (k, v) (set t)"
  by (induction k v t rule: bt_insert.induct) auto

lemma bt_ext:
  assumes "bt_wf s" and "bt_wf t" and "\<And>k. bt_get k s = bt_get k t"
  shows "s = t"
  using assms
proof (induction s arbitrary: t)
  case Nil
  show ?case
  proof (cases t)
    case (Cons q t')
    then show ?thesis using Nil.prems(3) [of "fst q"] by (cases q) simp
  qed simp
next
  case (Cons p s)
  obtain k v where p: "p = (k, v)" by (cases p)
  show ?case
  proof (cases t)
    case Nil
    then show ?thesis using Cons.prems(3) [of k] p by simp
  next
    case (Cons q t')
    obtain j w where q: "q = (j, w)" by (cases q)
    have "k = j"
    proof (rule ccontr)
      assume "k \<noteq> j"
      with Cons.prems(3) [of k] Cons.prems(3) [of j] p q Cons
      have "k \<in> bt_keys t'" "j \<in> bt_keys s"
        by (metis bt_get.simps(2) bt_get_None_iff option.distinct(1))+
      with Cons.prems(1,2) p q Cons show False by (auto dest: less_asym)
    qed
    moreover have "v = w" using Cons.prems(3) [of k] p q Cons \<open>k = j\<close> by simp
    moreover have "s = t'"
    proof (rule Cons.IH)
      show "bt_wf s" "bt_wf t'" using Cons.prems(1,2) p q Cons by simp_all
      have "k \<notin> bt_keys s" "k \<notin> bt_keys t'" using Cons.prems(1,2) p q Cons \<open>k = j\<close> by auto
      then have "bt_get k s = None" "bt_get k t' = None" by (simp_all add: bt_get_None_iff)
      then show "bt_get i s = bt_get i t'" for i
        using Cons.prems(3) [of i] p q Cons \<open>k = j\<close> by (cases "i = k") simp_all
    qed
    ultimately show ?thesis using p q Cons by simp
  qed
qed

section \<open>The interface\<close>

text \<open>
  What clients of a map rely on: the invariant is kept, a lookup sees the last write of its
  key and nothing else, and two maps with the same lookups are the same map.
\<close>

locale map_interface =
  fixes wf :: "'m \<Rightarrow> bool"
    and get :: "'k \<Rightarrow> 'm \<Rightarrow> 'v option"
    and ins :: "'k \<Rightarrow> 'v \<Rightarrow> 'm \<Rightarrow> 'm"
    and del :: "'k \<Rightarrow> 'm \<Rightarrow> 'm"
  assumes wf_ins: "wf m \<Longrightarrow> wf (ins k v m)"
    and wf_del: "wf m \<Longrightarrow> wf (del k m)"
    and get_ins: "wf m \<Longrightarrow> get j (ins k v m) = (if j = k then Some v else get j m)"
    and get_del: "wf m \<Longrightarrow> get j (del k m) = (if j = k then None else get j m)"
    and ext: "wf m \<Longrightarrow> wf m' \<Longrightarrow> (\<And>k. get k m = get k m') \<Longrightarrow> m = m'"
begin

lemma ins_same: "wf m \<Longrightarrow> get k m = Some v \<Longrightarrow> ins k v m = m"
  by (rule ext) (auto simp: wf_ins get_ins)

lemma ins_ins: "wf m \<Longrightarrow> ins k v (ins k w m) = ins k v m"
  by (rule ext) (auto simp: wf_ins get_ins)

lemma ins_commute: "wf m \<Longrightarrow> j \<noteq> k \<Longrightarrow> ins j v (ins k w m) = ins k w (ins j v m)"
  by (rule ext) (auto simp: wf_ins get_ins)

lemma del_ins: "wf m \<Longrightarrow> get k m = None \<Longrightarrow> del k (ins k v m) = m"
  by (rule ext) (auto simp: wf_ins wf_del get_ins get_del)

lemma del_absent: "wf m \<Longrightarrow> get k m = None \<Longrightarrow> del k m = m"
  by (rule ext) (auto simp: wf_del get_del)

end

interpretation bt: map_interface bt_wf bt_get bt_insert bt_remove
  by unfold_locales (auto intro: bt_ext)

end
