(* ===== verification/Plugin.thy ===== *)
theory Plugin
  imports Rust_Str Btree
begin

text \<open>
  The closed registry of endpoint kinds, families and condition facets
  (\<open>common/policy/src/plugin.rs\<close>), the package registries (\<open>registry.rs\<close>) and the parser of
  HTTPS origins.
\<close>

section \<open>Registry types\<close>

datatype endpoint_family = FamilyIp | FamilyHttp | FamilyPackage

fun family_as_str :: "endpoint_family \<Rightarrow> string" where
  "family_as_str FamilyIp = ''ip''"
| "family_as_str FamilyHttp = ''http''"
| "family_as_str FamilyPackage = ''package''"

text \<open>\<open>format!("{family:?}")\<close>: the derived \<open>Debug\<close> prints the variant name.\<close>

fun family_debug :: "endpoint_family \<Rightarrow> string" where
  "family_debug FamilyIp = ''Ip''"
| "family_debug FamilyHttp = ''Http''"
| "family_debug FamilyPackage = ''Package''"

text \<open>The derived order of the enumeration: the order of its variants.\<close>

fun family_index :: "endpoint_family \<Rightarrow> nat" where
  "family_index FamilyIp = 0"
| "family_index FamilyHttp = 1"
| "family_index FamilyPackage = 2"

lemma family_index_inject [simp]: "family_index a = family_index b \<longleftrightarrow> a = b"
  by (cases a; cases b) simp_all

instantiation endpoint_family :: linorder
begin

definition less_eq_endpoint_family :: "endpoint_family \<Rightarrow> endpoint_family \<Rightarrow> bool" where
  "less_eq_endpoint_family a b \<longleftrightarrow> family_index a \<le> family_index b"

definition less_endpoint_family :: "endpoint_family \<Rightarrow> endpoint_family \<Rightarrow> bool" where
  "less_endpoint_family a b \<longleftrightarrow> family_index a < family_index b"

instance
  by standard (auto simp: less_eq_endpoint_family_def less_endpoint_family_def)

end

datatype transport = PacketFilter | HttpProxy | HttpsMitm | TlsTerminate

fun transport_as_str :: "transport \<Rightarrow> string" where
  "transport_as_str PacketFilter = ''packet-filter''"
| "transport_as_str HttpProxy = ''http-proxy''"
| "transport_as_str HttpsMitm = ''https-mitm''"
| "transport_as_str TlsTerminate = ''tls-terminate''"

datatype endpoint_schema = SchemaIp | SchemaHosts | SchemaRegistries

datatype condition_kind = CondNone | CondHttp | CondFacet

datatype facet_kind = FacetString | FacetStringListMap | FacetInt | FacetBool

record facet_field_definition =
  ff_name :: string
  ff_kind :: facet_kind
  ff_optional :: bool

record facet_definition =
  fd_name :: string
  fd_fields :: "facet_field_definition list"

record endpoint_definition =
  ed_kind :: string
  ed_family :: endpoint_family
  ed_transport :: transport
  ed_default_port :: nat
  ed_schema :: endpoint_schema
  ed_supports_credentials :: bool
  ed_terminates_tls :: bool

record family_definition =
  fam_family :: endpoint_family
  fam_condition :: condition_kind
  fam_facets :: "string list"

record plugin_registry =
  pr_endpoints :: "(string, endpoint_definition) btree"
  pr_families :: "(endpoint_family, family_definition) btree"
  pr_facets :: "(string, facet_definition) btree"

section \<open>The built-in registry\<close>

text \<open>\<open>BTreeMap::from\<close> inserts the entries in order.\<close>

definition bt_from :: "('k::linorder \<times> 'v) list \<Rightarrow> ('k, 'v) btree" where
  "bt_from entries = fold (\<lambda>(k, v). bt_insert k v) entries []"

lemma fold_insert_get:
  assumes "bt_wf m"
  shows "bt_wf (fold (\<lambda>(k, v). bt_insert k v) es m) \<and>
    bt_get k (fold (\<lambda>(k, v). bt_insert k v) es m) =
      (case map_of (rev es) k of Some v \<Rightarrow> Some v | None \<Rightarrow> bt_get k m)"
  using assms
  by (induction es arbitrary: m) (auto simp: map_add_Some_iff split: option.splits)

lemma bt_from_wf [simp]: "bt_wf (bt_from es)"
  using fold_insert_get [of "[]" es] by (simp add: bt_from_def)

lemma bt_get_from: "bt_get k (bt_from es) = map_of (rev es) k"
  using fold_insert_get [of "[]" es k] by (simp add: bt_from_def split: option.splits)

definition builtin_families :: "(endpoint_family, family_definition) btree" where
  "builtin_families = bt_from
     [(FamilyIp, \<lparr>fam_family = FamilyIp, fam_condition = CondNone, fam_facets = []\<rparr>),
      (FamilyHttp, \<lparr>fam_family = FamilyHttp, fam_condition = CondHttp, fam_facets = [''http'']\<rparr>),
      (FamilyPackage, \<lparr>fam_family = FamilyPackage, fam_condition = CondFacet,
                       fam_facets = [''http'', ''package'']\<rparr>)]"

definition builtin_endpoints :: "(string, endpoint_definition) btree" where
  "builtin_endpoints = bt_from
     [(''ip'', \<lparr>ed_kind = ''ip'', ed_family = FamilyIp, ed_transport = PacketFilter,
               ed_default_port = 0, ed_schema = SchemaIp, ed_supports_credentials = False,
               ed_terminates_tls = False\<rparr>),
      (''http'', \<lparr>ed_kind = ''http'', ed_family = FamilyHttp, ed_transport = HttpProxy,
                 ed_default_port = 80, ed_schema = SchemaHosts, ed_supports_credentials = False,
                 ed_terminates_tls = False\<rparr>),
      (''https'', \<lparr>ed_kind = ''https'', ed_family = FamilyHttp, ed_transport = HttpsMitm,
                  ed_default_port = 443, ed_schema = SchemaHosts, ed_supports_credentials = True,
                  ed_terminates_tls = True\<rparr>),
      (''registries'', \<lparr>ed_kind = ''registries'', ed_family = FamilyPackage,
                       ed_transport = TlsTerminate, ed_default_port = 443,
                       ed_schema = SchemaRegistries, ed_supports_credentials = False,
                       ed_terminates_tls = True\<rparr>)]"

definition field_def :: "string \<Rightarrow> facet_kind \<Rightarrow> facet_field_definition" where
  "field_def name kind = \<lparr>ff_name = name, ff_kind = kind, ff_optional = False\<rparr>"

definition builtin_facets :: "(string, facet_definition) btree" where
  "builtin_facets = bt_from
     [(''http'', \<lparr>fd_name = ''http'', fd_fields =
         [field_def ''method'' FacetString, field_def ''host'' FacetString,
          field_def ''path'' FacetString, field_def ''query'' FacetStringListMap,
          field_def ''headers'' FacetStringListMap]\<rparr>),
      (''package'', \<lparr>fd_name = ''package'', fd_fields =
         [field_def ''ecosystem'' FacetString, field_def ''operation'' FacetString,
          field_def ''name'' FacetString, field_def ''version'' FacetString,
          field_def ''identity_known'' FacetBool, field_def ''age_known'' FacetBool,
          field_def ''age_hours'' FacetInt, field_def ''age_source'' FacetString,
          field_def ''malware_data_available'' FacetBool, field_def ''malware'' FacetBool,
          (field_def ''malware_reason'' FacetString)\<lparr>ff_optional := True\<rparr>]\<rparr>)]"

definition builtins :: plugin_registry where
  "builtins = \<lparr>pr_endpoints = builtin_endpoints, pr_families = builtin_families,
               pr_facets = builtin_facets\<rparr>"

definition registry_endpoint :: "plugin_registry \<Rightarrow> string \<Rightarrow> endpoint_definition option" where
  "registry_endpoint r kind = bt_get kind (pr_endpoints r)"

definition registry_family :: "plugin_registry \<Rightarrow> endpoint_family \<Rightarrow> family_definition option" where
  "registry_family r family = bt_get family (pr_families r)"

definition registry_facet :: "plugin_registry \<Rightarrow> string \<Rightarrow> facet_definition option" where
  "registry_facet r name = bt_get name (pr_facets r)"

section \<open>Package registries\<close>

datatype package_repository = Npm | PyPi

definition package_repository_parse :: "string \<Rightarrow> package_repository option" where
  "package_repository_parse value =
     (if value = ''npm'' then Some Npm else if value = ''pypi'' then Some PyPi else None)"

fun repository_hosts :: "package_repository \<Rightarrow> string list" where
  "repository_hosts Npm = [''registry.npmjs.org'', ''registry.yarnpkg.com'', ''registry.npmjs.com'']"
| "repository_hosts PyPi =
     [''pypi.org'', ''files.pythonhosted.org'', ''pypi.python.org'', ''pythonhosted.org'']"

text \<open>\<open>hosts\<close> without repetition, in order of first occurrence.\<close>

definition push_new :: "string list \<Rightarrow> string \<Rightarrow> string list" where
  "push_new hosts host = (if host \<in> set hosts then hosts else hosts @ [host])"

definition registry_hosts :: "string list \<Rightarrow> string list" where
  "registry_hosts repositories =
     fold (\<lambda>repository hosts.
       case package_repository_parse repository of
         None \<Rightarrow> hosts
       | Some r \<Rightarrow> foldl push_new hosts (repository_hosts r)) repositories []"

section \<open>HTTPS origins\<close>

definition parse_https_origin :: "string \<Rightarrow> (string \<times> nat) option" where
  "parse_https_origin value =
     (if CHR ''?'' \<in> set value \<or> CHR ''#'' \<in> set value then None
      else Option.bind (strip_prefix ''https://'' value) (\<lambda>remainder.
        let authority = hd (split_on (CHR ''/'') remainder) in
        if authority = [] \<or> CHR ''@'' \<in> set authority \<or> has_whitespace authority then None
        else case strip_prefix ''['' authority of
          Some bracketed \<Rightarrow>
            Option.bind (find_char (CHR '']'') bracketed) (\<lambda>close.
              let host = take close bracketed; suffix = drop (Suc close) bracketed in
              Option.bind (if suffix = [] then Some 443
                           else Option.bind (strip_prefix '':'' suffix) (parse_uint u16_max)) (\<lambda>port.
                if host = [] \<or> has_whitespace host \<or> port = 0 then None
                else Some (to_ascii_lowercase host, port)))
        | None \<Rightarrow>
            Option.bind (case rsplit_once (CHR '':'') authority of
                 Some (host, port) \<Rightarrow> Option.bind (parse_uint u16_max port) (\<lambda>p. Some (host, p))
               | None \<Rightarrow> Some (authority, 443)) (\<lambda>(host, port).
              if host = [] \<or> port = 0 then None else Some (to_ascii_lowercase host, port))))"

section \<open>Origins\<close>

lemma origin_port_bound:
  assumes "(if sfx = [] then Some 443 else Option.bind (strip_prefix '':'' sfx) (parse_uint u16_max)) = Some port"
  shows "port \<le> 65535"
  using assms parse_uint_bound [of u16_max]
  by (auto simp: u16_max_def bind_eq_Some_conv split: if_splits)

text \<open>
  An accepted HTTPS origin is usable as an egress: the port is between 1 and 65535, the
  host is not empty and already in lower case.
\<close>

lemma parse_https_origin_bounds:
  assumes "parse_https_origin value = Some (host, port)"
  shows "1 \<le> port \<and> port \<le> 65535 \<and> host \<noteq> [] \<and> to_ascii_lowercase host = host"
  using assms origin_port_bound parse_uint_bound [of u16_max]
  by (auto simp: parse_https_origin_def bind_eq_Some_conv Let_def u16_max_def
      split: if_splits option.splits)

definition host_char :: "char \<Rightarrow> bool" where
  "host_char c \<longleftrightarrow> is_graphic c \<and> c \<notin> set ''?#@/:[''"

lemma digits_graphic: "is_ascii_digit c \<Longrightarrow> is_graphic c \<and> c \<notin> set ''?#@/:[''"
  by (auto simp: is_graphic_def is_ascii_digit_def code_def)

lemma graphic_no_whitespace: "list_all is_graphic s \<Longrightarrow> \<not> has_whitespace s"
proof -
  assume g: "list_all is_graphic s"
  have "strip_any ws_encodings t = None" if "suffix t s" for t
  proof (cases t)
    case (Cons c cs)
    then have "is_graphic (hd t)" using g that by (auto simp: suffix_def list_all_iff)
    with Cons show ?thesis
      using ws_not_graphic by (intro strip_any_None) (metis hd_append list.discI prefix_def)
  qed simp
  then show ?thesis by (auto simp: has_whitespace_def list_ex_iff)
qed

lemma split_head: "c \<notin> set a \<Longrightarrow> rest = [] \<or> hd rest = c \<Longrightarrow> hd (split_on c (a @ rest)) = a"
  by (cases rest) (auto simp: split_on_append split_on_single)

text \<open>
  Writing an origin and parsing it gives its parts back: for a host of visible ASCII
  characters without URL delimiters and a port between 1 and 65535, with or without a path, the
  result is the lower-cased host and the port.
\<close>

theorem parse_https_origin_roundtrip:
  assumes "host \<noteq> []" and "list_all host_char host" and "1 \<le> port" and "port \<le> 65535"
    and "list_all host_char path"
  shows "parse_https_origin (''https://'' @ host @ '':'' @ show_nat port @ ''/'' @ path) =
    Some (to_ascii_lowercase host, port)"
proof -
  define ds where "ds = show_nat port"
  define a where "a = host @ CHR '':'' # ds"
  define v where "v = a @ CHR ''/'' # path"
  have ds: "\<forall>c\<in>set ds. is_graphic c \<and> c \<notin> set ''?#@/:[''"
    using show_nat_digits [of port] digits_graphic by (auto simp: list_all_iff ds_def)
  have host: "\<forall>c\<in>set host. is_graphic c \<and> c \<notin> set ''?#@/:[''"
    and path: "\<forall>c\<in>set path. is_graphic c \<and> c \<notin> set ''?#@/:[''"
    using assms(2,5) by (auto simp: list_all_iff host_char_def)
  have a: "CHR ''@'' \<notin> set a" "CHR ''/'' \<notin> set a" "CHR ''?'' \<notin> set a" "CHR ''#'' \<notin> set a"
    "list_all is_graphic a"
    using ds host by (auto simp: a_def list_all_iff is_graphic_def code_def)
  have v: "CHR ''?'' \<notin> set v" "CHR ''#'' \<notin> set v" "hd (split_on (CHR ''/'') v) = a"
    using a path by (auto simp: v_def split_on_append)
  have "strip_prefix ''['' a = None"
    using assms(1) host by (cases host) (auto simp: strip_prefix_def a_def)
  moreover have "rsplit_once (CHR '':'') a = Some (host, ds)"
    unfolding a_def using ds by (intro rsplit_once_append) auto
  moreover have "parse_uint u16_max ds = Some port"
    using assms(4) by (simp add: ds_def parse_uint_show_nat u16_max_def)
  moreover have "a \<noteq> []" "\<not> has_whitespace a" using a(5) by (simp_all add: graphic_no_whitespace a_def)
  moreover have "''https://'' @ host @ '':'' @ show_nat port @ ''/'' @ path = ''https://'' @ v"
    by (simp add: v_def a_def ds_def)
  moreover have "CHR ''?'' \<notin> set (''https://'' @ v)" "CHR ''#'' \<notin> set (''https://'' @ v)"
    using v by auto
  ultimately show ?thesis
    using a(1) v(3) assms(1,3)
    by (simp only: parse_https_origin_def strip_prefix_append Let_def) simp
qed

theorem parse_https_origin_roundtrip_witness:
  "parse_https_origin (''https://'' @ ''Intel.example'' @ '':'' @ show_nat 8443 @ ''/'' @ ''feed'') =
     Some (to_ascii_lowercase ''Intel.example'', 8443)"
  by (rule parse_https_origin_roundtrip) (simp_all add: host_char_def is_graphic_def code_def)

end
