(* ===== verification/Condition.thy ===== *)
theory Condition
  imports Plugin
begin

text \<open>
  Condition sources (\<open>common/policy/src/condition.rs\<close>): scanning them around string literals,
  rewriting the dotted HTTP and facet paths to variables of the expression engine, compiling
  them by a trial run and evaluating them on a request. The scanning loops are functions of
  the source and the byte index, as in the code. The expression engine (the \<open>cel\<close> crate) and
  the Unicode lower-case mapping are parameters.
\<close>

section \<open>Scanning\<close>

definition utf8_width :: "char \<Rightarrow> nat" where
  "utf8_width c =
     (if code c < 0x80 then 1 else if code c < 0xE0 then 2 else if code c < 0xF0 then 3 else 4)"

lemma utf8_width_pos [simp]: "0 < utf8_width c"
  by (simp add: utf8_width_def)

definition next_char_index :: "string \<Rightarrow> nat \<Rightarrow> nat" where
  "next_char_index source index =
     index + (case drop index source of [] \<Rightarrow> 0 | c # _ \<Rightarrow> utf8_width c)"

definition is_cel_identifier_char :: "char \<Rightarrow> bool" where
  "is_cel_identifier_char c \<longleftrightarrow> is_ascii_alphanumeric c \<or> c = CHR ''_''"

definition is_identifier_char :: "char \<Rightarrow> bool" where
  "is_identifier_char c \<longleftrightarrow> is_ascii_alphanumeric c \<or> c = CHR ''_'' \<or> c = CHR ''-''"

definition quote1 :: char where "quote1 = char_of (39 :: nat)"
definition quote2 :: char where "quote2 = char_of (34 :: nat)"
definition backslash :: char where "backslash = char_of (92 :: nat)"

definition is_quote :: "char \<Rightarrow> bool" where
  "is_quote c \<longleftrightarrow> c = quote1 \<or> c = quote2"

definition quoted_literal_at :: "string \<Rightarrow> nat \<Rightarrow> bool" where
  "quoted_literal_at source index \<longleftrightarrow> index < length source \<and> is_quote (source ! index)"

function quoted_literal_loop :: "string \<Rightarrow> char \<Rightarrow> nat \<Rightarrow> nat" where
  "quoted_literal_loop bytes quote index =
     (if index < length bytes then
        if bytes ! index = backslash
        then quoted_literal_loop bytes quote (min (index + 2) (length bytes))
        else if bytes ! index = quote then index + 1
        else quoted_literal_loop bytes quote (index + 1)
      else index)"
  by pat_completeness auto
termination
  by (relation "measure (\<lambda>(bytes, quote, index). length bytes - index)") auto

declare quoted_literal_loop.simps [simp del]

definition quoted_literal_end :: "string \<Rightarrow> nat \<Rightarrow> nat" where
  "quoted_literal_end source start = quoted_literal_loop source (source ! start) (start + 1)"

text \<open>
  The character before an index is an identifier character or a dot exactly when the byte
  before it is: the bytes of a longer encoding are neither.
\<close>

definition cel_path_start_boundary :: "string \<Rightarrow> nat \<Rightarrow> bool" where
  "cel_path_start_boundary source index \<longleftrightarrow>
     (case rev (take index source) of
        [] \<Rightarrow> True
      | c # _ \<Rightarrow> \<not> is_cel_identifier_char c \<and> c \<noteq> CHR ''.'')"

definition cel_path_at :: "string \<Rightarrow> nat \<Rightarrow> string \<Rightarrow> bool" where
  "cel_path_at source index path \<longleftrightarrow>
     prefix path (drop index source) \<and> cel_path_start_boundary source index \<and>
     (case drop (index + length path) source of [] \<Rightarrow> True | c # _ \<Rightarrow> \<not> is_cel_identifier_char c)"

lemma quoted_literal_loop_ge: "index \<le> quoted_literal_loop bytes quote index"
proof (induction bytes quote index rule: quoted_literal_loop.induct)
  case (1 bytes quote index)
  then show ?case by (subst quoted_literal_loop.simps) auto
qed

lemma quoted_literal_end_gt [simp]: "index < quoted_literal_end source index"
  using quoted_literal_loop_ge [of "index + 1"] by (simp add: quoted_literal_end_def Suc_le_eq)

lemma next_char_index_gt: "index < length source \<Longrightarrow> index < next_char_index source index"
  by (cases "drop index source") (auto simp: next_char_index_def)

section \<open>Searching for paths outside literals\<close>

text \<open>
  One loop serves both searches of the code: it stops at the first index outside the literals
  at which the test holds.
\<close>

function scan_from :: "(string \<Rightarrow> nat \<Rightarrow> bool) \<Rightarrow> string \<Rightarrow> nat \<Rightarrow> bool" where
  "scan_from test source index =
     (if index < length source then
        if quoted_literal_at source index
        then scan_from test source (quoted_literal_end source index)
        else if test source index then True
        else scan_from test source (next_char_index source index)
      else False)"
  by pat_completeness auto
termination
  by (relation "measure (\<lambda>(test, source, index). length source - index)")
    (auto intro: diff_less_mono2 next_char_index_gt)

declare scan_from.simps [simp del]

definition contains_http_facet :: "string \<Rightarrow> string \<Rightarrow> bool" where
  "contains_http_facet source facet = scan_from (\<lambda>s i. cel_path_at s i facet) source 0"

definition contains_cel_path_prefix :: "string \<Rightarrow> string \<Rightarrow> bool" where
  "contains_cel_path_prefix source p =
     scan_from (\<lambda>s i. prefix p (drop i s) \<and> cel_path_start_boundary s i) source 0"

section \<open>Rewriting\<close>

text \<open>
  The rewriting loops copy literals and every other character and replace the paths they look
  for. A path is never empty: the loops of the code would not advance on one. Sets of keys are
  ascending lists.
\<close>

definition slice :: "string \<Rightarrow> nat \<Rightarrow> nat \<Rightarrow> string" where
  "slice source i j = take (j - i) (drop i source)"

function rewrite_cel_identifier_from :: "string \<Rightarrow> string \<Rightarrow> string \<Rightarrow> nat \<Rightarrow> string" where
  "rewrite_cel_identifier_from source original replacement index =
     (if index < length source then
        if quoted_literal_at source index
        then slice source index (quoted_literal_end source index) @
             rewrite_cel_identifier_from source original replacement (quoted_literal_end source index)
        else if original \<noteq> [] \<and> cel_path_at source index original
        then replacement @
             rewrite_cel_identifier_from source original replacement (index + length original)
        else slice source index (next_char_index source index) @
             rewrite_cel_identifier_from source original replacement (next_char_index source index)
      else [])"
  by pat_completeness auto
termination
  by (relation "measure (\<lambda>(source, original, replacement, index). length source - index)")
    (auto intro: diff_less_mono2 next_char_index_gt)

declare rewrite_cel_identifier_from.simps [simp del]

definition rewrite_cel_identifier :: "string \<Rightarrow> string \<Rightarrow> string \<Rightarrow> string" where
  "rewrite_cel_identifier source original replacement =
     rewrite_cel_identifier_from source original replacement 0"

definition key_end :: "string \<Rightarrow> nat \<Rightarrow> nat" where
  "key_end source key_start =
     key_start + length (takeWhile is_identifier_char (drop key_start source))"

definition select_text :: "string \<Rightarrow> string \<Rightarrow> string" where
  "select_text replacement key = replacement @ ''['' @ [quote1] @ key @ [quote1] @ '']''"

function rewrite_field_selects_from ::
  "(string \<Rightarrow> string) \<Rightarrow> string \<Rightarrow> string \<Rightarrow> string \<Rightarrow> bool \<Rightarrow> string list \<Rightarrow> nat \<Rightarrow> string \<times> string list"
where
  "rewrite_field_selects_from lower source original replacement lowercase_key keys index =
     (if index < length source then
        if quoted_literal_at source index
        then let (out, ks) = rewrite_field_selects_from lower source original replacement lowercase_key
                               keys (quoted_literal_end source index)
             in (slice source index (quoted_literal_end source index) @ out, ks)
        else if original \<noteq> [] \<and> cel_path_at source index original \<and>
                \<not> prefix ''.'' (drop (index + length original) source)
        then let (out, ks) = rewrite_field_selects_from lower source original replacement lowercase_key
                               keys (index + length original)
             in (original @ out, ks)
        else if original \<noteq> [] \<and> cel_path_at source index original \<and>
                key_end source (index + length original + 1) > index + length original + 1
        then let key_start = index + length original + 1;
                 raw = slice source key_start (key_end source key_start);
                 key = (if lowercase_key then lower raw else raw);
                 (out, ks) = rewrite_field_selects_from lower source original replacement lowercase_key
                               (insort_insert key keys) (key_end source key_start)
             in (select_text replacement key @ out, ks)
        else let (out, ks) = rewrite_field_selects_from lower source original replacement lowercase_key
                               keys (next_char_index source index)
             in (slice source index (next_char_index source index) @ out, ks)
      else ([], keys))"
  by pat_completeness auto
termination
  by (relation "measure (\<lambda>(lower, source, original, replacement, lk, keys, index). length source - index)")
    (auto intro!: diff_less_mono2 next_char_index_gt)

declare rewrite_field_selects_from.simps [simp del]

text \<open>
  \<open>variable['key']\<close>: the length of the bracketed part after the variable, and its key. The
  key ends at the first matching quote and must be followed by the closing bracket.
\<close>

definition bracket_key :: "string \<Rightarrow> (string \<times> nat) option" where
  "bracket_key after =
     Option.bind (strip_prefix ''['' after) (\<lambda>stripped.
       case stripped of
         [] \<Rightarrow> None
       | quote # rest \<Rightarrow>
           if \<not> is_quote quote then None
           else Option.bind (find_char quote rest) (\<lambda>end_relative.
             if prefix '']'' (drop (end_relative + 1) rest)
             then Some (take end_relative rest, end_relative + 4) else None))"

function rewrite_bracket_keys_from ::
  "(string \<Rightarrow> string) \<Rightarrow> string \<Rightarrow> string \<Rightarrow> bool \<Rightarrow> string list \<Rightarrow> nat \<Rightarrow> string \<times> string list" where
  "rewrite_bracket_keys_from lower source variable lowercase_key keys index =
     (if index < length source then
        if quoted_literal_at source index
        then let (out, ks) = rewrite_bracket_keys_from lower source variable lowercase_key keys
                               (quoted_literal_end source index)
             in (slice source index (quoted_literal_end source index) @ out, ks)
        else if variable = [] \<or> \<not> cel_path_at source index variable
        then let (out, ks) = rewrite_bracket_keys_from lower source variable lowercase_key keys
                               (next_char_index source index)
             in (slice source index (next_char_index source index) @ out, ks)
        else (case bracket_key (drop (index + length variable) source) of
                None \<Rightarrow>
                  let (out, ks) = rewrite_bracket_keys_from lower source variable lowercase_key keys
                                    (index + length variable)
                  in (variable @ out, ks)
              | Some (raw, n) \<Rightarrow>
                  let key = (if lowercase_key then lower raw else raw);
                      (out, ks) = rewrite_bracket_keys_from lower source variable lowercase_key
                                    (insort_insert key keys) (index + length variable + n)
                  in (select_text variable key @ out, ks))
      else ([], keys))"
  by pat_completeness auto
termination
  by (relation "measure (\<lambda>(lower, source, variable, lk, keys, index). length source - index)")
    (auto intro!: diff_less_mono2 next_char_index_gt)

declare rewrite_bracket_keys_from.simps [simp del]

definition rewrite_field_selects ::
  "(string \<Rightarrow> string) \<Rightarrow> string \<Rightarrow> string \<Rightarrow> string \<Rightarrow> bool \<Rightarrow> string list \<Rightarrow> string \<times> string list" where
  "rewrite_field_selects lower source original replacement lowercase_key keys =
     rewrite_field_selects_from lower source original replacement lowercase_key keys 0"

definition rewrite_bracket_keys ::
  "(string \<Rightarrow> string) \<Rightarrow> string \<Rightarrow> string \<Rightarrow> bool \<Rightarrow> string list \<Rightarrow> string \<times> string list" where
  "rewrite_bracket_keys lower source variable lowercase_key keys =
     rewrite_bracket_keys_from lower source variable lowercase_key keys 0"

text \<open>
  Inside a literal every character is lowered, the one after a backslash too; the literal ends
  at its quote.
\<close>

fun lower_outside :: "string \<Rightarrow> string" and lower_inside :: "char \<Rightarrow> string \<Rightarrow> string" where
  "lower_outside [] = []"
| "lower_outside (c # s) = c # (if is_quote c then lower_inside c s else lower_outside s)"
| "lower_inside quote [] = []"
| "lower_inside quote (v # s) =
     to_ascii_lowercase_char v #
     (if v = quote then lower_outside s
      else if v = backslash
      then (case s of [] \<Rightarrow> [] | e # s' \<Rightarrow> to_ascii_lowercase_char e # lower_inside quote s')
      else lower_inside quote s)"

definition lowercase_string_literals :: "string \<Rightarrow> string" where
  "lowercase_string_literals source = lower_outside source"

section \<open>Preparation\<close>

type_synonym compile_error = string

definition reject_known_unavailable_facets :: "string \<Rightarrow> (compile_error, unit) result" where
  "reject_known_unavailable_facets source =
     (case List.find (contains_http_facet source)
        [''http.body'', ''http.body_json'', ''http.header'', ''http.raw_path'',
         ''http.escaped_path'', ''http.unknown''] of
        Some facet \<Rightarrow> Err (''unsupported http condition facet '' @ facet)
      | None \<Rightarrow> Ok ())"

lemma find_str_nonempty: "find_str p s = Some i \<Longrightarrow> p \<noteq> [] \<Longrightarrow> s \<noteq> []"
  by (cases s) auto

function indexed_list_compared_to_string :: "string \<Rightarrow> string \<Rightarrow> bool" where
  "indexed_list_compared_to_string rest variable =
     (case find_str variable rest of
        None \<Rightarrow> False
      | Some index \<Rightarrow>
          if variable = [] then False
          else let rest' = drop (index + length variable) rest;
                   trimmed = trim_start rest'
               in if \<not> prefix ''['' trimmed
                  then indexed_list_compared_to_string rest' variable
                  else case find_char (CHR '']'') trimmed of
                         None \<Rightarrow> indexed_list_compared_to_string rest' variable
                       | Some close \<Rightarrow>
                           let after = trim_start (drop (close + 1) trimmed) in
                           if prefix (''== '' @ [quote1]) after \<or> prefix (''== '' @ [quote2]) after
                           then True
                           else indexed_list_compared_to_string rest' variable)"
  by pat_completeness auto
termination
proof (relation "measure (\<lambda>(rest, variable). length rest)", goal_cases)
  case 1
  then show ?case by simp
qed (auto simp: Let_def intro!: diff_less dest!: find_str_nonempty)

declare indexed_list_compared_to_string.simps [simp del]

definition reject_static_type_mismatches :: "string \<Rightarrow> (compile_error, unit) result" where
  "reject_static_type_mismatches source =
     (if contains_str source ''http_query =='' \<or> contains_str source ''== http_query''
      then Err ''http.query comparisons must index a string list''
      else if contains_str source ''http_headers =='' \<or> contains_str source ''== http_headers''
      then Err ''http.headers comparisons must index a string list''
      else if indexed_list_compared_to_string source ''http_headers'' \<or>
              indexed_list_compared_to_string source ''http_query''
      then Err ''http query and header entries are string lists''
      else Ok ())"

record prepared_source =
  ps_source :: string
  ps_query_keys :: "string list"
  ps_header_keys :: "string list"

definition prepare_http_condition_source ::
  "(string \<Rightarrow> string) \<Rightarrow> string \<Rightarrow> (compile_error, prepared_source) result" where
  "prepare_http_condition_source lower source =
     rbind (reject_known_unavailable_facets source) (\<lambda>_.
       let (p1, q1) = rewrite_field_selects lower source ''http.query'' ''http_query'' False [];
           (p2, h1) = rewrite_field_selects lower p1 ''http.headers'' ''http_headers'' True [];
           (p3, q2) = rewrite_bracket_keys lower p2 ''http.query'' False q1;
           (p4, h2) = rewrite_bracket_keys lower p3 ''http.headers'' True h1;
           p5 = rewrite_cel_identifier p4 ''http.method'' ''http_method'';
           p6 = rewrite_cel_identifier p5 ''http.host'' ''http_host'';
           p7 = rewrite_cel_identifier p6 ''http.path'' ''http_path'';
           p8 = rewrite_cel_identifier p7 ''http.query'' ''http_query'';
           p9 = rewrite_cel_identifier p8 ''http.headers'' ''http_headers''
       in if contains_cel_path_prefix p9 ''http.'' then Err ''unknown http condition facet''
          else let p10 = (if contains_str p9 ''http_method'' then lowercase_string_literals p9 else p9)
               in rbind (reject_static_type_mismatches p10) (\<lambda>_.
                    Ok \<lparr>ps_source = p10, ps_query_keys = q2, ps_header_keys = h2\<rparr>))"

section \<open>The expression engine\<close>

text \<open>
  What the code uses of the engine: conversion of the bound values, compilation, execution in
  a context of bindings, and the kind of a result. Errors are their texts.
\<close>

datatype cel_input =
    InString string
  | InStringListMap "(string, string list) btree"
  | InInt int
  | InBool bool

datatype cel_value =
    CelList | CelMap | CelFunction | CelInt | CelUInt | CelFloat | CelString | CelBytes
  | CelBool bool | CelDuration | CelTimestamp | CelOpaque | CelNull

fun value_type_name :: "cel_value \<Rightarrow> string" where
  "value_type_name CelList = ''list''"
| "value_type_name CelMap = ''map''"
| "value_type_name CelFunction = ''function''"
| "value_type_name CelInt = ''int''"
| "value_type_name CelUInt = ''uint''"
| "value_type_name CelFloat = ''float''"
| "value_type_name CelString = ''string''"
| "value_type_name CelBytes = ''bytes''"
| "value_type_name (CelBool _) = ''bool''"
| "value_type_name CelDuration = ''duration''"
| "value_type_name CelTimestamp = ''timestamp''"
| "value_type_name CelOpaque = ''opaque''"
| "value_type_name CelNull = ''null''"

record ('p, 'v) cel =
  cel_to_value :: "cel_input \<Rightarrow> (string, 'v) result"
  cel_compile :: "string \<Rightarrow> (string, 'p) result"
  cel_execute :: "'p \<Rightarrow> (string \<times> 'v) list \<Rightarrow> (string, cel_value) result"

type_synonym 'v bindings = "(string \<times> 'v) list"

definition add_variable ::
  "('p, 'v) cel \<Rightarrow> string \<Rightarrow> cel_input \<Rightarrow> 'v bindings \<Rightarrow> (compile_error, 'v bindings) result" where
  "add_variable engine name input context =
     rbind (cel_to_value engine input) (\<lambda>v. Ok ((name, v) # context))"

record http_condition_context =
  hc_method :: string
  hc_host :: string
  hc_path :: string
  hc_query :: "(string, string list) btree"
  hc_headers :: "(string, string list) btree"

definition default_with_keys :: "string list \<Rightarrow> string list \<Rightarrow> http_condition_context" where
  "default_with_keys query_keys header_keys =
     \<lparr>hc_method = [], hc_host = [], hc_path = [],
      hc_query = fold (\<lambda>key. bt_insert key [[], []]) query_keys [],
      hc_headers = fold (\<lambda>key. bt_insert key [[], []]) header_keys []\<rparr>"

definition entry_or_default :: "string \<Rightarrow> (string, string list) btree \<Rightarrow> (string, string list) btree"
where
  "entry_or_default key m = (if bt_get key m = None then bt_insert key [] m else m)"

definition fill_missing_keys ::
  "string list \<Rightarrow> string list \<Rightarrow> http_condition_context \<Rightarrow> http_condition_context" where
  "fill_missing_keys query_keys header_keys context =
     context\<lparr>hc_query := fold entry_or_default query_keys (hc_query context),
             hc_headers := fold entry_or_default header_keys (hc_headers context)\<rparr>"

definition add_http_context ::
  "('p, 'v) cel \<Rightarrow> http_condition_context \<Rightarrow> 'v bindings \<Rightarrow> (compile_error, 'v bindings) result" where
  "add_http_context engine context bindings =
     rbind (add_variable engine ''http_method'' (InString (hc_method context)) bindings) (\<lambda>b1.
     rbind (add_variable engine ''http_host'' (InString (hc_host context)) b1) (\<lambda>b2.
     rbind (add_variable engine ''http_path'' (InString (hc_path context)) b2) (\<lambda>b3.
     rbind (add_variable engine ''http_query'' (InStringListMap (hc_query context)) b3) (\<lambda>b4.
       add_variable engine ''http_headers'' (InStringListMap (hc_headers context)) b4))))"

definition cel_run ::
  "('p, 'v) cel \<Rightarrow> 'p \<Rightarrow> http_condition_context \<Rightarrow> (compile_error, cel_value) result" where
  "cel_run engine program context =
     rbind (add_http_context engine context []) (cel_execute engine program)"

section \<open>HTTP conditions\<close>

record 'p http_condition =
  ht_program :: 'p
  ht_query_keys :: "string list"
  ht_header_keys :: "string list"

datatype condition_eval_error = UnknownCondition nat | EvalMessage string

definition http_condition_compile ::
  "(string \<Rightarrow> string) \<Rightarrow> ('p, 'v) cel \<Rightarrow> string \<Rightarrow> (compile_error, 'p http_condition) result" where
  "http_condition_compile lower engine source =
     rbind (prepare_http_condition_source lower source) (\<lambda>prepared.
     rbind (map_err (\<lambda>e. ''parse condition: '' @ e) (cel_compile engine (ps_source prepared)))
       (\<lambda>program.
     rbind (cel_run engine program
              (default_with_keys (ps_query_keys prepared) (ps_header_keys prepared))) (\<lambda>value.
       case value of
         CelBool _ \<Rightarrow> Ok \<lparr>ht_program = program, ht_query_keys = ps_query_keys prepared,
                         ht_header_keys = ps_header_keys prepared\<rparr>
       | _ \<Rightarrow> Err (''must return bool, got '' @ value_type_name value))))"

definition http_condition_evaluate ::
  "('p, 'v) cel \<Rightarrow> 'p http_condition \<Rightarrow> http_condition_context
     \<Rightarrow> (condition_eval_error, bool) result" where
  "http_condition_evaluate engine c context =
     rbind (map_err EvalMessage (cel_run engine (ht_program c)
              (fill_missing_keys (ht_query_keys c) (ht_header_keys c) context))) (\<lambda>value.
       case value of
         CelBool b \<Rightarrow> Ok b
       | _ \<Rightarrow> Err (EvalMessage (''condition returned '' @ value_type_name value)))"

section \<open>Facet conditions\<close>

fun facet_input :: "facet_kind \<Rightarrow> cel_input" where
  "facet_input FacetString = InString []"
| "facet_input FacetStringListMap = InStringListMap []"
| "facet_input FacetInt = InInt 0"
| "facet_input FacetBool = InBool False"

definition unknown_facet :: "endpoint_family \<Rightarrow> string \<Rightarrow> compile_error" where
  "unknown_facet family name =
     ''endpoint family '' @ family_debug family @ '' references unknown facet '' @ name"

definition unknown_family :: "endpoint_family \<Rightarrow> compile_error" where
  "unknown_family family = ''unknown endpoint family '' @ family_debug family"

fun bind_fields ::
  "('p, 'v) cel \<Rightarrow> string \<Rightarrow> facet_field_definition list \<Rightarrow> 'v bindings
     \<Rightarrow> (compile_error, 'v bindings) result" where
  "bind_fields engine facet [] b = Ok b"
| "bind_fields engine facet (field # fs) b =
     rbind (add_variable engine (facet @ ''_'' @ ff_name field) (facet_input (ff_kind field)) b)
       (bind_fields engine facet fs)"

fun bind_facets ::
  "('p, 'v) cel \<Rightarrow> plugin_registry \<Rightarrow> endpoint_family \<Rightarrow> string list \<Rightarrow> 'v bindings
     \<Rightarrow> (compile_error, 'v bindings) result" where
  "bind_facets engine plugins family [] b = Ok b"
| "bind_facets engine plugins family (name # names) b =
     rbind (ok_or (registry_facet plugins name) (unknown_facet family name)) (\<lambda>facet.
     rbind (bind_fields engine (fd_name facet) (fd_fields facet) b)
       (bind_facets engine plugins family names))"

definition execute_facet_condition ::
  "('p, 'v) cel \<Rightarrow> 'p \<Rightarrow> endpoint_family \<Rightarrow> plugin_registry \<Rightarrow> prepared_source
     \<Rightarrow> (compile_error, cel_value) result" where
  "execute_facet_condition engine program family plugins prepared =
     rbind (ok_or (registry_family plugins family) (unknown_family family)) (\<lambda>definition.
     rbind (if ''http'' \<in> set (fam_facets definition)
            then add_http_context engine
                   (default_with_keys (ps_query_keys prepared) (ps_header_keys prepared)) []
            else Ok []) (\<lambda>b.
     rbind (bind_facets engine plugins family
              (filter (\<lambda>name. name \<noteq> ''http'') (fam_facets definition)) b)
       (cel_execute engine program)))"

definition rewrite_facet_fields :: "facet_definition \<Rightarrow> string \<Rightarrow> string" where
  "rewrite_facet_fields facet source =
     fold (\<lambda>field s. rewrite_cel_identifier s (fd_name facet @ ''.'' @ ff_name field)
                       (fd_name facet @ ''_'' @ ff_name field)) (fd_fields facet) source"

fun rewrite_facets ::
  "plugin_registry \<Rightarrow> endpoint_family \<Rightarrow> string list \<Rightarrow> string \<Rightarrow> (compile_error, string) result" where
  "rewrite_facets plugins family [] source = Ok source"
| "rewrite_facets plugins family (name # names) source =
     rbind (ok_or (registry_facet plugins name) (unknown_facet family name)) (\<lambda>facet.
       let source' = rewrite_facet_fields facet source in
       if contains_cel_path_prefix source' (fd_name facet @ ''.'')
       then Err (''unknown '' @ fd_name facet @ '' condition facet'')
       else rewrite_facets plugins family names source')"

definition facet_condition_compile ::
  "(string \<Rightarrow> string) \<Rightarrow> ('p, 'v) cel \<Rightarrow> string \<Rightarrow> endpoint_family \<Rightarrow> plugin_registry
     \<Rightarrow> (compile_error, unit) result" where
  "facet_condition_compile lower engine source family plugins =
     rbind (ok_or (registry_family plugins family) (unknown_family family)) (\<lambda>definition.
     rbind (if ''http'' \<in> set (fam_facets definition) then prepare_http_condition_source lower source
            else Ok \<lparr>ps_source = source, ps_query_keys = [], ps_header_keys = []\<rparr>) (\<lambda>prepared.
     rbind (rewrite_facets plugins family
              (filter (\<lambda>name. name \<noteq> ''http'') (fam_facets definition)) (ps_source prepared))
       (\<lambda>source'.
     rbind (map_err (\<lambda>e. ''parse condition: '' @ e) (cel_compile engine source')) (\<lambda>program.
     rbind (execute_facet_condition engine program family plugins
              (prepared\<lparr>ps_source := source'\<rparr>)) (\<lambda>value.
       case value of
         CelBool _ \<Rightarrow> Ok ()
       | _ \<Rightarrow> Err (''must return bool, got '' @ value_type_name value))))))"

section \<open>Rewriting touches nothing but the path\<close>

lemma slice_append_drop: "i \<le> j \<Longrightarrow> slice s i j @ drop j s = drop i s"
  by (metis append_take_drop_id drop_drop le_add_diff_inverse2 slice_def)

lemma rewrite_identity_from:
  assumes "\<not> scan_from (\<lambda>s i. cel_path_at s i p) source index"
  shows "rewrite_cel_identifier_from source p r index = drop index source"
  using assms
proof (induction source p r index rule: rewrite_cel_identifier_from.induct)
  case (1 source p r index)
  show ?case
  proof (cases "index < length source")
    case True
    note scan = 1(4) [unfolded scan_from.simps [of _ source index]]
    show ?thesis
    proof (cases "quoted_literal_at source index")
      case lit: True
      with 1(1) [OF True lit] scan True
      have "rewrite_cel_identifier_from source p r (quoted_literal_end source index) =
          drop (quoted_literal_end source index) source" by simp
      with True lit show ?thesis
        by (subst rewrite_cel_identifier_from.simps) (simp add: slice_append_drop less_imp_le)
    next
      case lit: False
      with scan True have no: "\<not> cel_path_at source index p" by (simp split: if_splits)
      with 1(3) [OF True lit] scan True lit
      have "rewrite_cel_identifier_from source p r (next_char_index source index) =
          drop (next_char_index source index) source" by simp
      with True lit no show ?thesis
        by (subst rewrite_cel_identifier_from.simps)
          (simp add: slice_append_drop less_imp_le next_char_index_gt)
    qed
  qed (subst rewrite_cel_identifier_from.simps, simp)
qed

section \<open>Literals\<close>

text \<open>The literal whose opening quote has been read: its remaining text, and what follows.\<close>

fun literal_rest :: "char \<Rightarrow> string \<Rightarrow> string \<times> string" where
  "literal_rest q [] = ([], [])"
| "literal_rest q (c # s) =
     (if c = backslash
      then (case s of [] \<Rightarrow> ([c], []) | e # s' \<Rightarrow> let (a, b) = literal_rest q s' in (c # e # a, b))
      else if c = q then ([c], s)
      else let (a, b) = literal_rest q s in (c # a, b))"

lemma literal_rest_append: "literal_rest q s = (a, b) \<Longrightarrow> s = a @ b"
  by (induction q s arbitrary: a b rule: literal_rest.induct)
    (auto split: if_splits list.splits prod.splits)

lemma literal_rest_shorter: "(a, b) = literal_rest q s \<Longrightarrow> length b \<le> length s"
  by (metis literal_rest_append le_add2 length_append)

function literals :: "string \<Rightarrow> string list" where
  "literals [] = []"
| "literals (c # s) =
     (if is_quote c then let (a, b) = literal_rest c s in (c # a) # literals b
      else literals (drop (utf8_width c - 1) s))"
  by pat_completeness auto
termination
  by (relation "measure length") (auto dest: literal_rest_shorter)

lemma literal_rest_loop:
  "drop (quoted_literal_loop s q i) s = snd (literal_rest q (drop i s)) \<and>
   quoted_literal_loop s q i \<le> max i (length s)"
proof (induction s q i rule: quoted_literal_loop.induct)
  case (1 s q i)
  show ?case
  proof (cases "i < length s")
    case True
    then have d: "drop i s = s ! i # drop (Suc i) s" by (rule Cons_nth_drop_Suc [symmetric])
    show ?thesis
    proof (cases "s ! i = backslash")
      case esc: True
      show ?thesis
      proof (cases "Suc i < length s")
        case more: True
        then have "drop (Suc i) s = s ! Suc i # drop (i + 2) s"
          by (simp add: Cons_nth_drop_Suc [symmetric])
        moreover have "min (i + 2) (length s) = i + 2" using more by simp
        ultimately show ?thesis
          using 1(1) [OF True esc] True esc more d
          by (subst (1 2) quoted_literal_loop.simps) (auto simp: split: prod.splits)
      next
        case False
        then show ?thesis using 1(1) [OF True esc] True esc d
          by (subst (1 2) quoted_literal_loop.simps) (auto simp: min_def)
      qed
    next
      case esc: False
      show ?thesis
        using 1(2) [OF True esc] True esc d
        by (subst (1 2) quoted_literal_loop.simps) (auto simp: split: prod.splits)
    qed
  next
    case False
    then show ?thesis by (subst (1 2) quoted_literal_loop.simps) simp
  qed
qed

lemma literal_rest_extend:
  "literal_rest q s = (a, b) \<Longrightarrow> b = [] \<or> literal_rest q (a @ x) = (a, x)"
proof (induction q s arbitrary: a b rule: literal_rest.induct)
  case (2 q c s)
  show ?case
  proof (cases "c = backslash")
    case esc: True
    show ?thesis
    proof (cases s)
      case (Cons e s')
      then obtain a' where "literal_rest q s' = (a', b)" "a = c # e # a'"
        using 2(3) esc by (auto split: prod.splits)
      with 2(1) [OF esc Cons] esc show ?thesis by auto
    qed (use 2(3) esc in simp)
  next
    case esc: False
    show ?thesis
    proof (cases "c = q")
      case False
      then obtain a' where "literal_rest q s = (a', b)" "a = c # a'"
        using 2(3) esc by (auto split: prod.splits)
      with 2(2) [OF esc False] esc False show ?thesis by auto
    qed (use 2(3) esc in auto)
  qed
qed simp

lemma literal_rest_open: "literal_rest q s = (a, []) \<Longrightarrow> literal_rest q a = (a, [])"
  using literal_rest_append by fastforce

lemma literal_slice:
  assumes "i < length s" and "literal_rest (s ! i) (drop (Suc i) s) = (a, b)"
  shows "slice s i (quoted_literal_end s i) = s ! i # a \<and> drop (quoted_literal_end s i) s = b"
proof -
  have tail: "drop (quoted_literal_end s i) s = b"
    using literal_rest_loop [of s "s ! i" "i + 1"] assms(2) by (simp add: quoted_literal_end_def)
  have "slice s i (quoted_literal_end s i) @ b = drop i s"
    using slice_append_drop [of i "quoted_literal_end s i" s] tail by (simp add: less_imp_le)
  also have "\<dots> = (s ! i # a) @ b"
    using assms literal_rest_append by (metis Cons_nth_drop_Suc append_Cons)
  finally show ?thesis using tail by simp
qed

lemma literals_literal:
  assumes "is_quote c" and "literal_rest c s = (a, b)" and "b = [] \<Longrightarrow> x = []"
  shows "literals ((c # a) @ x) = (c # a) # literals x"
proof (cases "b = []")
  case True
  then show ?thesis using assms literal_rest_open by simp
next
  case False
  then show ?thesis using assms literal_rest_extend [OF assms(2), of x] by simp
qed

definition plain_char :: "char \<Rightarrow> bool" where
  "plain_char c \<longleftrightarrow> code c < 128 \<and> \<not> is_quote c"

lemma literals_plain: "list_all plain_char p \<Longrightarrow> literals (p @ x) = literals x"
  by (induction p) (auto simp: plain_char_def utf8_width_def)

lemma literals_char:
  assumes "\<not> is_quote c" and "length s < utf8_width c - 1 \<Longrightarrow> x = []"
  shows "literals (take (utf8_width c) (c # s) @ x) = literals x"
proof -
  have "take (utf8_width c) (c # s) = c # take (utf8_width c - 1) s"
    by (cases "utf8_width c") (use utf8_width_pos [of c] in auto)
  with assms show ?thesis
    by (cases "length s < utf8_width c - 1") (simp_all add: not_less)
qed

lemma rewrite_past_end: "length source \<le> index \<Longrightarrow> rewrite_cel_identifier_from source p r index = []"
  by (subst rewrite_cel_identifier_from.simps) simp

lemma rewrite_literals_from:
  assumes "list_all plain_char p" and "list_all plain_char r"
  shows "literals (rewrite_cel_identifier_from source p r index) = literals (drop index source)"
  using assms
proof (induction source p r index rule: rewrite_cel_identifier_from.induct)
  case (1 source p r index)
  note plain = 1(4,5)
  show ?case
  proof (cases "index < length source")
    case True
    let ?c = "source ! index" let ?s = "drop (Suc index) source"
    have d: "drop index source = ?c # ?s" using True by (rule Cons_nth_drop_Suc [symmetric])
    show ?thesis
    proof (cases "quoted_literal_at source index")
      case lit: True
      obtain a b where ab: "literal_rest ?c ?s = (a, b)" by fastforce
      let ?e = "quoted_literal_end source index"
      note sl = literal_slice [OF True ab]
      have "b = [] \<Longrightarrow> rewrite_cel_identifier_from source p r ?e = []"
        using sl by (intro rewrite_past_end) simp
      then show ?thesis
        using 1(1) [OF True lit plain] True lit sl d ab literals_literal [OF _ ab]
        by (subst rewrite_cel_identifier_from.simps) (simp add: quoted_literal_at_def)
    next
      case lit: False
      then have nq: "\<not> is_quote ?c" using True by (simp add: quoted_literal_at_def)
      show ?thesis
      proof (cases "p \<noteq> [] \<and> cel_path_at source index p")
        case path: True
        then obtain t where t: "drop index source = p @ t"
          by (auto simp: cel_path_at_def prefix_def)
        then have "t = drop (index + length p) source"
          using drop_drop [of "length p" index source] by (simp add: add.commute)
        with t have "drop index source = p @ drop (index + length p) source" by simp
        then show ?thesis
          using 1(2) [OF True lit path plain] True lit path plain literals_plain
          by (subst rewrite_cel_identifier_from.simps) simp
      next
        case path: False
        let ?n = "next_char_index source index"
        have n: "?n = index + utf8_width ?c" using d by (simp add: next_char_index_def)
        have chunk: "slice source index ?n = take (utf8_width ?c) (?c # ?s)"
          using d n by (simp add: slice_def)
        have "length ?s < utf8_width ?c - 1 \<Longrightarrow> rewrite_cel_identifier_from source p r ?n = []"
          using n by (intro rewrite_past_end) auto
        then have "literals (slice source index ?n @ rewrite_cel_identifier_from source p r ?n) =
            literals (rewrite_cel_identifier_from source p r ?n)"
          unfolding chunk by (rule literals_char [OF nq])
        moreover have "literals (drop ?n source) = literals (drop index source)"
        proof -
          have "drop ?n source = drop (utf8_width ?c) (?c # ?s)"
            using d n drop_drop [of "utf8_width ?c" index source] by (simp add: add.commute)
          also have "\<dots> = drop (utf8_width ?c - 1) ?s"
            by (cases "utf8_width ?c") (use utf8_width_pos [of ?c] in auto)
          finally show ?thesis using nq d by simp
        qed
        ultimately show ?thesis
          using 1(3) [OF True lit path plain] True lit path
          by (subst rewrite_cel_identifier_from.simps) auto
      qed
    qed
  qed (simp add: rewrite_past_end)
qed

section \<open>Filling in missing keys\<close>

lemma fold_entry_wf: "bt_wf m \<Longrightarrow> bt_wf (fold entry_or_default keys m)"
  by (induction keys arbitrary: m) (auto simp: entry_or_default_def)

lemma fold_entry_get:
  "bt_wf m \<Longrightarrow> bt_get k (fold entry_or_default keys m) =
     (case bt_get k m of Some v \<Rightarrow> Some v | None \<Rightarrow> if k \<in> set keys then Some [] else None)"
proof (induction keys arbitrary: m)
  case (Cons key keys)
  have "bt_wf (entry_or_default key m)" using Cons.prems by (simp add: entry_or_default_def)
  from Cons.IH [OF this] Cons.prems show ?case
    by (auto simp: entry_or_default_def split: option.splits)
qed (simp split: option.splits)

section \<open>Properties\<close>

text \<open>
  Claim C35. Rewriting a path leaves every string literal of the condition alone: scanning the
  result finds the same literals in the same order, for any path and replacement written in
  plain ASCII without quotes, whatever the source (unterminated literals, escapes and
  multi-byte text included).
\<close>

theorem rewrite_keeps_literals:
  assumes "list_all plain_char original" and "list_all plain_char replacement"
  shows "literals (rewrite_cel_identifier source original replacement) = literals source"
  using rewrite_literals_from [OF assms] by (simp add: rewrite_cel_identifier_def)

lemma plain_paths:
  "list_all plain_char ''http.method''" "list_all plain_char ''http_method''"
  by code_simp+

theorem rewrite_keeps_literals_witness:
  "literals (rewrite_cel_identifier (''http.method == '' @ [quote1] @ ''http.method'' @ [quote1])
      ''http.method'' ''http_method'') =
   literals (''http.method == '' @ [quote1] @ ''http.method'' @ [quote1])"
  by (rule rewrite_keeps_literals [OF plain_paths])

text \<open>
  A condition that does not mention a path outside its literals is not changed by
  the rewriting of that path, so the order in which independent paths are rewritten cannot
  corrupt it.
\<close>

theorem rewrite_without_occurrence:
  assumes "\<not> contains_http_facet source original"
  shows "rewrite_cel_identifier source original replacement = source"
  using rewrite_identity_from assms
  by (simp add: rewrite_cel_identifier_def contains_http_facet_def)

theorem rewrite_without_occurrence_witness:
  "\<not> contains_http_facet ''a.b'' ''b'' \<and> rewrite_cel_identifier ''a.b'' ''b'' ''c'' = ''a.b''"
proof -
  have "\<not> contains_http_facet ''a.b'' ''b''" by code_simp
  with rewrite_without_occurrence show ?thesis by blast
qed

text \<open>
  Evaluation completes the request's maps before it runs: every key the condition
  mentions is present, keys the request has keep their values, absent ones become empty lists,
  and no other key appears. A trial run that compiled therefore cannot fail later for lack of
  a mentioned key.
\<close>

theorem evaluation_keys:
  assumes "bt_wf (hc_query context)" and "bt_wf (hc_headers context)"
  shows "bt_get k (hc_query (fill_missing_keys qs hs context)) =
      (case bt_get k (hc_query context) of
         Some v \<Rightarrow> Some v | None \<Rightarrow> if k \<in> set qs then Some [] else None) \<and>
    bt_get k (hc_headers (fill_missing_keys qs hs context)) =
      (case bt_get k (hc_headers context) of
         Some v \<Rightarrow> Some v | None \<Rightarrow> if k \<in> set hs then Some [] else None)"
  using fold_entry_get [OF assms(1)] fold_entry_get [OF assms(2)] by (simp add: fill_missing_keys_def)

theorem evaluation_keys_witness:
  "bt_get ''page'' (hc_query (fill_missing_keys [''page''] [] (default_with_keys [] []))) = Some []"
  using evaluation_keys [of "default_with_keys [] []" "''page''" "[''page'']" "[]"]
  by (simp add: default_with_keys_def)

section \<open>The method condition\<close>

definition get_condition :: string where
  "get_condition = ''http.method == '' @ [quote1] @ ''GET'' @ [quote1]"

lemma prepare_get:
  "prepare_http_condition_source to_ascii_lowercase get_condition =
     Ok \<lparr>ps_source = ''http_method == '' @ [quote1] @ ''get'' @ [quote1], ps_query_keys = [],
         ps_header_keys = []\<rparr>"
  by code_simp

text \<open>
  An engine that knows the equality of the method with a literal, for the two spellings at
  hand; other sources are errors.
\<close>

definition method_engine :: "(string, cel_input) cel" where
  "method_engine =
     \<lparr>cel_to_value = Ok, cel_compile = Ok,
      cel_execute = (\<lambda>program bindings.
        if program = ''http_method == '' @ [quote1] @ ''GET'' @ [quote1]
        then Ok (CelBool (map_of bindings ''http_method'' = Some (InString ''GET'')))
        else if program = ''http_method == '' @ [quote1] @ ''get'' @ [quote1]
        then Ok (CelBool (map_of bindings ''http_method'' = Some (InString ''get'')))
        else Err ''unsupported'')\<rparr>"

definition get_request :: http_condition_context where
  "get_request = (default_with_keys [] [])\<lparr>hc_method := ''GET'', hc_host := ''example.com''\<rparr>"

lemmas run_defs = cel_run_def add_http_context_def add_variable_def method_engine_def


end
