(* ===== verification/Policy_Model.thy ===== *)
theory Policy_Model
  imports Condition
begin

text \<open>
  The parsed policy (\<open>common/policy/src/model.rs\<close>): diagnostics, the declarations of a policy
  document, the compiled conditions with their ids, and the secrets a policy requires.
\<close>

section \<open>Diagnostics\<close>

datatype diagnostic_severity = SeverityError | SeverityWarning

record diagnostic =
  dg_severity :: diagnostic_severity
  dg_code :: "string option"
  dg_summary :: string
  dg_detail :: string
  dg_file :: string
  dg_line :: nat
  dg_column :: nat

definition diagnostic_error :: "string \<Rightarrow> nat \<Rightarrow> nat \<Rightarrow> string \<Rightarrow> string \<Rightarrow> diagnostic" where
  "diagnostic_error file line column summary detail =
     \<lparr>dg_severity = SeverityError, dg_code = None, dg_summary = summary, dg_detail = detail,
      dg_file = file, dg_line = line, dg_column = column\<rparr>"

definition diagnostic_warning :: "string \<Rightarrow> nat \<Rightarrow> nat \<Rightarrow> string \<Rightarrow> string \<Rightarrow> diagnostic" where
  "diagnostic_warning file line column summary detail =
     \<lparr>dg_severity = SeverityWarning, dg_code = None, dg_summary = summary, dg_detail = detail,
      dg_file = file, dg_line = line, dg_column = column\<rparr>"

record load_error =
  le_filename :: string
  le_diagnostics :: "diagnostic list"

text \<open>\<open>str::lines\<close>: pieces between line feeds, a carriage return before one removed, no empty last piece.\<close>

definition strip_cr :: "string \<Rightarrow> string" where
  "strip_cr s = (if s \<noteq> [] \<and> last s = char_of (13 :: nat) then butlast s else s)"

definition str_lines :: "string \<Rightarrow> string list" where
  "str_lines s =
     (let pieces = split_on (char_of (10 :: nat)) s
      in map strip_cr (butlast pieces) @ (if last pieces = [] then [] else [last pieces]))"

definition diagnostic_text :: "diagnostic \<Rightarrow> string" where
  "diagnostic_text d =
     [char_of (10 :: nat)] @ dg_file d @ '':'' @ show_nat (dg_line d) @ '':'' @ show_nat (dg_column d)
       @ '': '' @ dg_summary d
       @ (if dg_detail d = [] then []
          else concat (map (\<lambda>l. [char_of (10 :: nat)] @ ''  '' @ l) (str_lines (dg_detail d))))"

definition error_diagnostics :: "diagnostic list \<Rightarrow> diagnostic list" where
  "error_diagnostics ds = filter (\<lambda>d. dg_severity d = SeverityError) ds"

definition load_error_text :: "load_error \<Rightarrow> string" where
  "load_error_text e =
     (let errors = error_diagnostics (le_diagnostics e)
      in ''load policy file '' @ le_filename e
           @ (if length errors = 1 then '' failed with 1 error:''
              else '' failed with '' @ show_nat (length errors) @ '' errors:'')
           @ concat (map diagnostic_text errors))"

section \<open>Declarations\<close>

datatype action = Allow | Deny

record audit_settings_decl =
  as_body_buffer :: int
  as_body_storage :: int

record settings_decl =
  sd_default_action :: action
  sd_audit :: "audit_settings_decl option"

definition settings_decl_default :: settings_decl where
  "settings_decl_default = \<lparr>sd_default_action = Allow, sd_audit = None\<rparr>"

record port_range =
  pt_start :: nat
  pt_end :: nat

record ref =
  ref_kind :: string
  ref_name :: string

definition ref_key :: "ref \<Rightarrow> string" where
  "ref_key r = ref_kind r @ ''.'' @ ref_name r"

record endpoint_decl =
  en_kind :: string
  en_name :: string
  en_family :: endpoint_family
  en_transport :: transport
  en_default_port :: nat
  en_terminates_tls :: bool
  en_supports_credentials :: bool
  en_source :: "string list"
  en_destination :: "string list"
  en_protocol :: string
  en_ports :: "port_range list"
  en_hosts :: "string list"
  en_registries :: "string list"
  en_malware_feed :: string
  en_filter_package_age :: "nat option"
  en_order :: nat

record condition_decl =
  cd_id :: nat
  cd_source :: string

record credential_decl =
  cr_kind :: string
  cr_name :: string
  cr_endpoint :: ref
  cr_username :: string
  cr_header :: string
  cr_prefix :: string
  cr_idempotency_key :: bool
  cr_condition :: "condition_decl option"
  cr_order :: nat

record rule_decl =
  ru_name :: string
  ru_endpoints :: "ref list"
  ru_credential :: "ref option"
  ru_tunnel :: "ref option"
  ru_verdict :: action
  ru_priority :: int
  ru_disabled :: bool
  ru_condition :: "condition_decl option"
  ru_reason :: string
  ru_order :: nat

record tailscale_decl =
  ts_name :: string
  ts_ephemeral :: bool
  ts_tags :: "string list"
  ts_hostname :: string
  ts_control_url :: string
  ts_order :: nat

datatype forward_protocol = ForwardTcp | ForwardHttps

datatype forward_certificate_provider = ProviderTailscale

record forward_tls =
  ft_provider :: forward_certificate_provider

record forward_decl =
  fw_kind :: string
  fw_name :: string
  fw_listen :: string
  fw_target :: string
  fw_target_port :: nat
  fw_tunnel :: "ref option"
  fw_protocol :: forward_protocol
  fw_tls :: "forward_tls option"
  fw_order :: nat

record policy_document =
  pd_id :: nat
  pd_filename :: string
  pd_diagnostics :: "diagnostic list"
  pd_settings :: settings_decl
  pd_endpoints :: "endpoint_decl list"
  pd_credentials :: "credential_decl list"
  pd_rules :: "rule_decl list"
  pd_tailscale :: "tailscale_decl list"
  pd_forwards :: "forward_decl list"

section \<open>The policy and its conditions\<close>

datatype 'p compiled_condition = CompiledHttp "'p http_condition" | CompiledFacet

record 'p policy =
  po_hash :: string
  po_documents :: "policy_document list"
  po_diagnostics :: "diagnostic list"
  po_conditions :: "'p compiled_condition list"

text \<open>Ids are 32-bit; \<open>as u32\<close> keeps the low 32 bits.\<close>

definition as_u32 :: "nat \<Rightarrow> nat" where "as_u32 n = n mod 2 ^ 32"

definition evaluate_http_condition ::
  "('p, 'v) cel \<Rightarrow> 'p policy \<Rightarrow> nat \<Rightarrow> http_condition_context
     \<Rightarrow> (condition_eval_error, bool) result" where
  "evaluate_http_condition engine p condition_id context =
     (if condition_id = 0 then Ok True
      else let index = condition_id - 1 in
        if index < length (po_conditions p)
        then (case po_conditions p ! index of
                CompiledHttp c \<Rightarrow> http_condition_evaluate engine c context
              | CompiledFacet \<Rightarrow>
                  Err (EvalMessage (''condition '' @ show_nat condition_id @
                         '' is not an HTTP-family condition'')))
        else Err (UnknownCondition condition_id))"

definition push_condition ::
  "'p policy \<Rightarrow> 'p compiled_condition \<Rightarrow> string \<Rightarrow> 'p policy \<times> condition_decl" where
  "push_condition p c source =
     (p\<lparr>po_conditions := po_conditions p @ [c]\<rparr>,
      \<lparr>cd_id = as_u32 (length (po_conditions p) + 1), cd_source = source\<rparr>)"

definition register_http_condition ::
  "(string \<Rightarrow> string) \<Rightarrow> ('p, 'v) cel \<Rightarrow> 'p policy \<Rightarrow> string
     \<Rightarrow> (compile_error, 'p policy \<times> condition_decl) result" where
  "register_http_condition lower engine p source =
     rbind (http_condition_compile lower engine source) (\<lambda>c.
       Ok (push_condition p (CompiledHttp c) source))"

definition register_condition ::
  "(string \<Rightarrow> string) \<Rightarrow> ('p, 'v) cel \<Rightarrow> 'p policy \<Rightarrow> string \<Rightarrow> endpoint_family \<Rightarrow> plugin_registry
     \<Rightarrow> (compile_error, 'p policy \<times> condition_decl) result" where
  "register_condition lower engine p source family plugins =
     rbind (ok_or (registry_family plugins family) (unknown_family family)) (\<lambda>definition.
       if fam_condition definition = CondHttp then register_http_condition lower engine p source
       else if fam_condition definition = CondNone
       then Err (''conditions are not supported for endpoint family '' @ family_debug family)
       else rbind (facet_condition_compile lower engine source family plugins) (\<lambda>_.
              Ok (push_condition p CompiledFacet source)))"

section \<open>Secret requirements\<close>

datatype expected_secret = ExpectPlain | ExpectOAuth

record credential_secret_slot =
  sl_name :: string
  sl_required :: bool
  sl_expected :: expected_secret

record secret_requirement =
  sr_credential :: ref
  sr_endpoint :: ref
  sr_slot :: string
  sr_required :: bool
  sr_expected :: expected_secret

definition plain_slot :: "string \<Rightarrow> bool \<Rightarrow> credential_secret_slot" where
  "plain_slot name required = \<lparr>sl_name = name, sl_required = required, sl_expected = ExpectPlain\<rparr>"

definition decl_secret_slots :: "credential_decl \<Rightarrow> credential_secret_slot list" where
  "decl_secret_slots credential =
     (let kind = cr_kind credential in
      if kind = ''basic_auth'' then [plain_slot ''password'' True]
      else if kind = ''bearer_token'' \<or> kind = ''header_token'' then [plain_slot ''token'' True]
      else if kind = ''github_oauth'' \<or> kind = ''openai_codex_oauth''
      then [\<lparr>sl_name = ''oauth'', sl_required = True, sl_expected = ExpectOAuth\<rparr>]
      else if kind = ''aws_credential''
      then [plain_slot ''access_key_id'' True, plain_slot ''secret_access_key'' True,
            plain_slot ''session_token'' False, plain_slot ''profile'' False]
      else [])"

definition secret_requirements :: "'p policy \<Rightarrow> secret_requirement list" where
  "secret_requirements p =
     concat (map (\<lambda>document. concat (map (\<lambda>credential.
       map (\<lambda>slot. \<lparr>sr_credential = \<lparr>ref_kind = cr_kind credential, ref_name = cr_name credential\<rparr>,
                    sr_endpoint = cr_endpoint credential, sr_slot = sl_name slot,
                    sr_required = sl_required slot, sr_expected = sl_expected slot\<rparr>)
         (decl_secret_slots credential)) (pd_credentials document))) (po_documents p))"

section \<open>Condition ids\<close>

text \<open>
  Claim C34. Registering an HTTP condition gives it a usable id as long as fewer than
  \<open>2^32 - 1\<close> conditions are registered: the id is a non-zero 32-bit number, evaluating it runs
  the compiled condition, and every id that evaluated before still evaluates to the same answer.
\<close>

theorem registered_condition_evaluates:
  assumes "register_http_condition lower engine p source = Ok (p', d)"
    and "length (po_conditions p) < 2 ^ 32 - 1"
  shows "1 \<le> cd_id d \<and> cd_id d < 2 ^ 32 \<and>
    (\<exists>c. http_condition_compile lower engine source = Ok c \<and>
       evaluate_http_condition engine p' (cd_id d) context = http_condition_evaluate engine c context) \<and>
    (i \<le> length (po_conditions p) \<longrightarrow>
       evaluate_http_condition engine p' i context = evaluate_http_condition engine p i context)"
  using assms
  by (auto simp: register_http_condition_def push_condition_def as_u32_def
      evaluate_http_condition_def nth_append Let_def)

definition no_policy :: "string policy" where
  "no_policy = \<lparr>po_hash = [], po_documents = [], po_diagnostics = [], po_conditions = []\<rparr>"

theorem registered_condition_evaluates_witness:
  "\<exists>p' d. register_http_condition to_ascii_lowercase method_engine no_policy get_condition = Ok (p', d) \<and>
     1 \<le> cd_id d \<and> cd_id d < 2 ^ 32"
proof -
  obtain c where "http_condition_compile to_ascii_lowercase method_engine get_condition = Ok c"
    by (simp add: http_condition_compile_def prepare_get run_defs default_with_keys_def)
  then obtain p' d where
    "register_http_condition to_ascii_lowercase method_engine no_policy get_condition = Ok (p', d)"
    by (cases "push_condition no_policy (CompiledHttp c) get_condition")
      (auto simp: register_http_condition_def)
  then show ?thesis
    using registered_condition_evaluates [of to_ascii_lowercase method_engine no_policy get_condition]
    by (auto simp: no_policy_def)
qed

text \<open>
  The bound is needed: the condition registered when \<open>2^32 - 1\<close> conditions are already there gets
  id 0, which evaluates to true without running anything.
\<close>

lemma condition_id_wraps:
  assumes "register_http_condition lower engine p source = Ok (p', d)"
    and "length (po_conditions p) = 2 ^ 32 - 1"
  shows "cd_id d = 0 \<and> evaluate_http_condition engine p' (cd_id d) context = Ok True"
  using assms
  by (auto simp: register_http_condition_def push_condition_def as_u32_def evaluate_http_condition_def)

end
