(* ===== verification/Secrets.thy ===== *)
theory Secrets
  imports Rust_Str Btree
begin

text \<open>
  The secret store (\<open>common/secrets/src/lib.rs\<close>) and the run-scoped grants
  (\<open>common/secrets/src/grant.rs\<close>): names and scopes, the transactional file store with its
  atomic replacement of the record file, the authorisation of provider requests and the
  Content-Length frames. Paths are lists of components. The JSON library and the clock
  formatting are parameters: the record \<open>serde\<close> holds the calls the code makes into them,
  and \<open>serde_ok\<close> states the round-trip laws the store relies on.
\<close>

section \<open>Names and scopes\<close>

datatype secret_error =
    NotFound
  | ReadOnly
  | Unauthorized string
  | InvalidRequest string
  | ProviderUnavailable string
  | ProviderRejected string
  | RateLimited
  | Unsupported
  | Internal string

fun wire_code :: "secret_error \<Rightarrow> string" where
  "wire_code NotFound = ''not_found''"
| "wire_code ReadOnly = ''read_only''"
| "wire_code (Unauthorized _) = ''unauthorized''"
| "wire_code (InvalidRequest _) = ''invalid_request''"
| "wire_code (ProviderUnavailable _) = ''provider_unavailable''"
| "wire_code (ProviderRejected _) = ''provider_rejected''"
| "wire_code RateLimited = ''rate_limited''"
| "wire_code Unsupported = ''unsupported''"
| "wire_code (Internal _) = ''internal_error''"

datatype secret_name = SecretName (name_str: string)

definition name_char :: "char \<Rightarrow> bool" where
  "name_char c \<longleftrightarrow>
     is_ascii_alphanumeric c \<or> c = CHR ''.'' \<or> c = CHR ''_'' \<or> c = CHR ''-''"

definition secret_name_new :: "string \<Rightarrow> (secret_error, secret_name) result" where
  "secret_name_new name =
     (if name = [] then Err (InvalidRequest ''secret name cannot be empty'')
      else if list_ex (\<lambda>p. p = []) (split_on (CHR ''.'') name)
      then Err (InvalidRequest (''secret name `'' @ name @ ''` is not allowed''))
      else if \<not> list_all name_char name
      then Err (InvalidRequest (''secret name `'' @ name @ ''` may only contain ASCII letters, ''
                  @ ''numbers, dots, underscores, and dashes''))
      else Ok (SecretName name))"

datatype machine_scope_id = MachineScopeId (scope_str: string)

definition lower_hex_char :: "char \<Rightarrow> bool" where
  "lower_hex_char c \<longleftrightarrow> is_ascii_digit c \<or> (code (CHR ''a'') \<le> code c \<and> code c \<le> code (CHR ''f''))"

definition machine_scope_id_new :: "string \<Rightarrow> (secret_error, machine_scope_id) result" where
  "machine_scope_id_new s =
     (if length s \<noteq> 32 \<or> \<not> list_all lower_hex_char s
      then Err (InvalidRequest ''machine scope id must be 32 lowercase hex characters'')
      else Ok (MachineScopeId s))"

datatype secret_scope = HomeScope | MachineScope machine_scope_id

section \<open>Secrets\<close>

text \<open>Timestamps are instants, in nanoseconds since the epoch.\<close>

record oauth_secret =
  oa_provider :: "string option"
  oa_access_token :: string
  oa_refresh_token :: string
  oa_expires_at :: int
  oa_account_id :: "string option"
  oa_created_at :: "int option"
  oa_updated_at :: "int option"

datatype secret = PlainSecret string | OAuthSecret oauth_secret

datatype secret_field = FieldValue | OAuthAccessToken | OAuthExpiresAt | OAuthAccountId

datatype secret_kind = KindPlain | KindOAuth

definition secret_bytes_as_str :: "string \<Rightarrow> (secret_error, string) result" where
  "secret_bytes_as_str b =
     (if valid_utf8 b then Ok b
      else Err (InvalidRequest ''file store secrets must be UTF-8''))"

fun project :: "(int \<Rightarrow> string) \<Rightarrow> secret \<Rightarrow> secret_field \<Rightarrow> string option" where
  "project rfc3339 (PlainSecret value) FieldValue = Some value"
| "project rfc3339 (OAuthSecret oa) OAuthAccessToken = Some (oa_access_token oa)"
| "project rfc3339 (OAuthSecret oa) OAuthExpiresAt = Some (rfc3339 (oa_expires_at oa))"
| "project rfc3339 (OAuthSecret oa) OAuthAccountId = oa_account_id oa"
| "project rfc3339 _ _ = None"

fun secret_expires_at :: "secret \<Rightarrow> int option" where
  "secret_expires_at (PlainSecret _) = None"
| "secret_expires_at (OAuthSecret oa) = Some (oa_expires_at oa)"

fun secret_kind_of :: "secret \<Rightarrow> secret_kind" where
  "secret_kind_of (PlainSecret _) = KindPlain"
| "secret_kind_of (OAuthSecret _) = KindOAuth"

fun secret_type :: "secret \<Rightarrow> string" where
  "secret_type (PlainSecret _) = ''plain''"
| "secret_type (OAuthSecret _) = ''oauth''"

record secret_entry =
  se_name :: secret_name
  se_kind :: secret_kind
  se_expires_at :: "int option"

section \<open>Disk format\<close>

text \<open>
  A record on disk has the fields of the secret it holds. \<open>sd_to_value\<close> and
  \<open>sd_from_value\<close> are \<open>serde_json::to_value\<close> and \<open>from_value\<close> at \<open>DiskSecret\<close>, \<open>sd_to_vec\<close>
  and \<open>sd_from_slice\<close> are \<open>to_vec_pretty\<close> and \<open>from_slice\<close> at the record map; errors are their
  texts.
\<close>

datatype disk_secret = DiskPlain string | DiskOAuth oauth_secret

type_synonym 'v records = "(string, 'v) btree"

record 'v serde =
  sd_to_value :: "disk_secret \<Rightarrow> (string, 'v) result"
  sd_from_value :: "'v \<Rightarrow> (string, disk_secret) result"
  sd_to_vec :: "'v records \<Rightarrow> (string, string) result"
  sd_from_slice :: "string \<Rightarrow> (string, 'v records) result"

definition newline :: char where "newline = char_of (10 :: nat)"

definition ascii_whitespace :: "char \<Rightarrow> bool" where
  "ascii_whitespace c \<longleftrightarrow> code c \<in> {9, 10, 12, 13, 32}"

definition serde_ok :: "'v serde \<Rightarrow> bool" where
  "serde_ok sd \<longleftrightarrow>
     (\<forall>d v. sd_to_value sd d = Ok v \<longrightarrow> sd_from_value sd v = Ok d) \<and>
     (\<forall>r b. bt_wf r \<and> sd_to_vec sd r = Ok b \<longrightarrow>
        sd_from_slice sd (b @ [newline]) = Ok r \<and> \<not> list_all ascii_whitespace b) \<and>
     (\<forall>b r. sd_from_slice sd b = Ok r \<longrightarrow> bt_wf r)"

definition disk_decode :: "'v serde \<Rightarrow> 'v \<Rightarrow> (secret_error, secret) result" where
  "disk_decode sd v =
     rbind (map_err InvalidRequest (sd_from_value sd v)) (\<lambda>d.
       case d of DiskPlain value \<Rightarrow> Ok (PlainSecret value) | DiskOAuth oa \<Rightarrow> Ok (OAuthSecret oa))"

definition disk_encode :: "'v serde \<Rightarrow> secret \<Rightarrow> (secret_error, 'v) result" where
  "disk_encode sd s =
     rbind (case s of
              PlainSecret value \<Rightarrow> rbind (secret_bytes_as_str value) (\<lambda>v. Ok (DiskPlain v))
            | OAuthSecret oa \<Rightarrow>
                rbind (secret_bytes_as_str (oa_access_token oa)) (\<lambda>access.
                rbind (secret_bytes_as_str (oa_refresh_token oa)) (\<lambda>refresh.
                  Ok (DiskOAuth (oa\<lparr>oa_access_token := access, oa_refresh_token := refresh\<rparr>)))))
       (\<lambda>disk. map_err InvalidRequest (sd_to_value sd disk))"

section \<open>The file system\<close>

type_synonym path = "string list"

text \<open>
  The files, with the calls that can fail: \<open>dk_read\<close> the error of reading a file,
  \<open>dk_create\<close>, \<open>dk_write\<close> (with the number of bytes written before it), \<open>dk_sync\<close>,
  \<open>dk_rename\<close>, \<open>dk_dir_sync\<close> the errors of the steps of replacing one, \<open>dk_remove\<close> that
  removing one fails. \<open>dk_pid\<close> is the process id. The locking of a scope goes through the
  metadata of its directory.
\<close>

datatype metadata_error = MetaNotFound | MetaOther string

record disk =
  dk_files :: "(path, string) btree"
  dk_read :: "string option"
  dk_create :: "string option"
  dk_write :: "(string \<times> nat) option"
  dk_sync :: "string option"
  dk_rename :: "string option"
  dk_dir_sync :: "string option"
  dk_remove :: "string option"
  dk_pid :: nat
  dk_secure_directory :: "path \<Rightarrow> (string, unit) result"
  dk_metadata :: "path \<Rightarrow> (metadata_error, bool) result"
  dk_permissions :: "path \<Rightarrow> (string, unit) result"
  dk_open_lock :: "path \<Rightarrow> (string, unit) result"
  dk_machine_dirs :: "(metadata_error, (string \<times> bool) list) result"

record file_store =
  fst_home :: path
  fst_home_file :: path

definition file_store_new :: "path \<Rightarrow> file_store" where
  "file_store_new home = \<lparr>fst_home = home, fst_home_file = home @ [''secrets.json'']\<rparr>"

definition scope_path :: "file_store \<Rightarrow> secret_scope \<Rightarrow> path" where
  "scope_path store scope =
     (case scope of
        HomeScope \<Rightarrow> fst_home_file store
      | MachineScope mid \<Rightarrow> fst_home store @ [''machines'', scope_str mid, ''secrets.json''])"

definition fail_with :: "string option \<Rightarrow> (string, unit) result" where
  "fail_with f = (case f of None \<Rightarrow> Ok () | Some e \<Rightarrow> Err e)"

definition secret_lock ::
  "disk \<Rightarrow> file_store \<Rightarrow> secret_scope \<Rightarrow> (secret_error, path) result" where
  "secret_lock dk store scope =
     (let path = scope_path store scope in
      if path = [] then Err (InvalidRequest ''invalid secret store path'')
      else rbind
        (case scope of
           HomeScope \<Rightarrow> map_err Internal (dk_secure_directory dk (butlast path))
         | MachineScope _ \<Rightarrow>
             rbind (map_err (\<lambda>e. case e of MetaNotFound \<Rightarrow> NotFound | MetaOther m \<Rightarrow> Internal m)
                      (dk_metadata dk (butlast path))) (\<lambda>is_dir.
               if \<not> is_dir
               then Err (InvalidRequest (''machine secret scope path ''
                      @ concat (map (\<lambda>c. CHR ''/'' # c) (butlast path)) @ '' is not a directory''))
               else map_err Internal (dk_permissions dk (butlast path))))
        (\<lambda>_. rbind (map_err Internal
                (dk_open_lock dk (butlast path @ [last path @ ''.lock'']))) (\<lambda>_. Ok path)))"

definition read_records ::
  "'v serde \<Rightarrow> disk \<Rightarrow> path \<Rightarrow> (secret_error, 'v records) result" where
  "read_records sd dk path =
     (case bt_get path (dk_files dk) of
        None \<Rightarrow> Ok []
      | Some raw \<Rightarrow>
          rbind (map_err Internal (fail_with (dk_read dk))) (\<lambda>_.
            if list_all ascii_whitespace raw then Ok []
            else map_err InvalidRequest (sd_from_slice sd raw)))"

definition temp_path :: "disk \<Rightarrow> path \<Rightarrow> nat \<Rightarrow> path" where
  "temp_path dk path n =
     butlast path @ [CHR ''.'' # last path @ ''.tmp.'' @ show_nat (dk_pid dk) @ ''.'' @ show_nat n]"

text \<open>
  The search for an unused sequence number: among the first \<open>Suc (length files)\<close> candidates
  one is free, so the open range of the code is never searched further.
\<close>

definition temp_sequence :: "disk \<Rightarrow> path \<Rightarrow> nat option" where
  "temp_sequence dk path =
     List.find (\<lambda>n. bt_get (temp_path dk path n) (dk_files dk) = None)
       [0..<Suc (length (dk_files dk))]"

definition replace_steps ::
  "disk \<Rightarrow> path \<Rightarrow> path \<Rightarrow> string \<Rightarrow> disk \<times> (string, unit) result" where
  "replace_steps dk temp path body =
     (case dk_write dk of
        Some (e, k) \<Rightarrow> (dk\<lparr>dk_files := bt_insert temp (take k body) (dk_files dk)\<rparr>, Err e)
      | None \<Rightarrow>
          let dk1 = dk\<lparr>dk_files := bt_insert temp body (dk_files dk)\<rparr> in
          case dk_sync dk of
            Some e \<Rightarrow> (dk1, Err e)
          | None \<Rightarrow>
              case dk_rename dk of
                Some e \<Rightarrow> (dk1, Err e)
              | None \<Rightarrow>
                  let dk2 = dk1\<lparr>dk_files := bt_insert path body (bt_remove temp (dk_files dk1))\<rparr> in
                  (dk2, fail_with (dk_dir_sync dk)))"

definition write_records ::
  "'v serde \<Rightarrow> disk \<Rightarrow> path \<Rightarrow> 'v records \<Rightarrow> disk \<times> (secret_error, unit) result" where
  "write_records sd dk path records =
     (if path = [] then (dk, Err NotFound)
      else case sd_to_vec sd records of
        Inl e \<Rightarrow> (dk, Err (InvalidRequest e))
      | Inr json \<Rightarrow>
          (case temp_sequence dk path of
             None \<Rightarrow> (dk, Err (Internal ''temporary file namespace exhausted''))
           | Some n \<Rightarrow>
               (case dk_create dk of
                  Some e \<Rightarrow> (dk, Err (Internal e))
                | None \<Rightarrow>
                    let temp = temp_path dk path n;
                        (dk', result) = replace_steps dk temp path (json @ [newline])
                    in (if is_ok result \<or> dk_remove dk \<noteq> None then dk'
                        else dk'\<lparr>dk_files := bt_remove temp (dk_files dk')\<rparr>,
                        map_err Internal result))))"

section \<open>Transactions\<close>

record 'v scope_tx =
  tx_records :: "'v records"
  tx_dirty :: bool
  tx_path :: path

definition begin_transaction ::
  "'v serde \<Rightarrow> disk \<Rightarrow> file_store \<Rightarrow> secret_scope \<Rightarrow> (secret_error, 'v scope_tx) result" where
  "begin_transaction sd dk store scope =
     rbind (secret_lock dk store scope) (\<lambda>path.
     rbind (read_records sd dk path) (\<lambda>records.
       Ok \<lparr>tx_records = records, tx_dirty = False, tx_path = path\<rparr>))"

definition tx_persist ::
  "'v serde \<Rightarrow> disk \<Rightarrow> 'v scope_tx \<Rightarrow> disk \<times> 'v scope_tx \<times> (secret_error, unit) result" where
  "tx_persist sd dk tx =
     (if tx_dirty tx
      then (case write_records sd dk (tx_path tx) (tx_records tx) of
              (dk', Inr _) \<Rightarrow> (dk', tx\<lparr>tx_dirty := False\<rparr>, Ok ())
            | (dk', Inl e) \<Rightarrow> (dk', tx, Err e))
      else (dk, tx, Ok ()))"

definition tx_get :: "'v serde \<Rightarrow> 'v scope_tx \<Rightarrow> secret_name \<Rightarrow> (secret_error, secret option) result"
where
  "tx_get sd tx name =
     (case bt_get (name_str name) (tx_records tx) of
        None \<Rightarrow> Ok None
      | Some v \<Rightarrow> rbind (disk_decode sd v) (\<lambda>s. Ok (Some s)))"

definition tx_put ::
  "'v serde \<Rightarrow> secret_name \<Rightarrow> secret \<Rightarrow> 'v scope_tx \<Rightarrow> 'v scope_tx \<times> (secret_error, unit) result"
where
  "tx_put sd name s tx =
     (case secret_name_new (name_str name) of
        Inl e \<Rightarrow> (tx, Err e)
      | Inr _ \<Rightarrow>
          if tx_get sd tx name = Ok (Some s) then (tx, Ok ())
          else (case disk_encode sd s of
                  Inl e \<Rightarrow> (tx, Err e)
                | Inr v \<Rightarrow>
                    (tx\<lparr>tx_records := bt_insert (name_str name) v (tx_records tx),
                        tx_dirty := True\<rparr>, Ok ())))"

definition tx_delete :: "secret_name \<Rightarrow> 'v scope_tx \<Rightarrow> 'v scope_tx \<times> bool" where
  "tx_delete name tx =
     (let removed = bt_get (name_str name) (tx_records tx) \<noteq> None
      in (tx\<lparr>tx_records := bt_remove (name_str name) (tx_records tx),
             tx_dirty := tx_dirty tx \<or> removed\<rparr>, removed))"

definition tx_list :: "'v serde \<Rightarrow> 'v scope_tx \<Rightarrow> (secret_error, secret_entry list) result" where
  "tx_list sd tx =
     collect_results (\<lambda>(name, v). rbind (disk_decode sd v) (\<lambda>s.
       Ok \<lparr>se_name = SecretName name, se_kind = secret_kind_of s,
           se_expires_at = secret_expires_at s\<rparr>)) (tx_records tx)"

definition transaction ::
  "'v serde \<Rightarrow> disk \<Rightarrow> file_store \<Rightarrow> secret_scope
     \<Rightarrow> ('v scope_tx \<Rightarrow> 'v scope_tx \<times> (secret_error, 'a) result)
     \<Rightarrow> disk \<times> (secret_error, 'a) result" where
  "transaction sd dk store scope operation =
     (case begin_transaction sd dk store scope of
        Inl e \<Rightarrow> (dk, Err e)
      | Inr tx \<Rightarrow>
          (case operation tx of
             (tx', Inl e) \<Rightarrow> (dk, Err e)
           | (tx', Inr a) \<Rightarrow>
               (case tx_persist sd dk tx' of
                  (dk', _, Inl e) \<Rightarrow> (dk', Err e)
                | (dk', _, Inr _) \<Rightarrow> (dk', Ok a))))"

section \<open>The file store\<close>

definition file_get ::
  "'v serde \<Rightarrow> file_store \<Rightarrow> secret_scope \<Rightarrow> secret_name \<Rightarrow> disk
     \<Rightarrow> disk \<times> (secret_error, secret option) result" where
  "file_get sd store scope name dk = transaction sd dk store scope (\<lambda>tx. (tx, tx_get sd tx name))"

definition file_put ::
  "'v serde \<Rightarrow> file_store \<Rightarrow> secret_scope \<Rightarrow> secret_name \<Rightarrow> secret \<Rightarrow> disk
     \<Rightarrow> disk \<times> (secret_error, unit) result" where
  "file_put sd store scope name s dk = transaction sd dk store scope (tx_put sd name s)"

definition file_delete ::
  "'v serde \<Rightarrow> file_store \<Rightarrow> secret_scope \<Rightarrow> secret_name \<Rightarrow> disk
     \<Rightarrow> disk \<times> (secret_error, bool) result" where
  "file_delete sd store scope name dk =
     transaction sd dk store scope (\<lambda>tx. let (tx', r) = tx_delete name tx in (tx', Ok r))"

definition file_list ::
  "'v serde \<Rightarrow> file_store \<Rightarrow> secret_scope \<Rightarrow> disk
     \<Rightarrow> disk \<times> (secret_error, secret_entry list) result" where
  "file_list sd store scope dk = transaction sd dk store scope (\<lambda>tx. (tx, tx_list sd tx))"

definition file_delete_scope ::
  "file_store \<Rightarrow> secret_scope \<Rightarrow> disk \<Rightarrow> disk \<times> (secret_error, unit) result" where
  "file_delete_scope store scope dk =
     (case secret_lock dk store scope of
        Inl e \<Rightarrow> (dk, Err e)
      | Inr path \<Rightarrow>
          if bt_get path (dk_files dk) = None then (dk, Ok ())
          else (case dk_remove dk of
                  Some e \<Rightarrow> (dk, Err (Internal e))
                | None \<Rightarrow> (dk\<lparr>dk_files := bt_remove path (dk_files dk)\<rparr>,
                           map_err Internal (fail_with (dk_dir_sync dk)))))"

definition file_list_scopes ::
  "file_store \<Rightarrow> disk \<Rightarrow> (secret_error, secret_scope list) result" where
  "file_list_scopes store dk =
     (let home = (if bt_get (fst_home_file store) (dk_files dk) \<noteq> None then [HomeScope] else [])
      in case dk_machine_dirs dk of
           Inl MetaNotFound \<Rightarrow> Ok home
         | Inl (MetaOther e) \<Rightarrow> Err (Internal e)
         | Inr entries \<Rightarrow>
             Ok (sort_key (scope_path store)
               (home @ concat (map (\<lambda>(name, is_dir).
                  if is_dir \<and>
                     bt_get (fst_home store @ [''machines'', name, ''secrets.json'']) (dk_files dk) \<noteq> None
                  then (case machine_scope_id_new name of
                          Inr mid \<Rightarrow> [MachineScope mid] | Inl _ \<Rightarrow> [])
                  else []) entries))))"

section \<open>Replacing the record file\<close>

lemma show_nat_inject [simp]: "show_nat m = show_nat n \<longleftrightarrow> m = n"
  by (metis dec_value_show_nat)

lemma temp_path_inject: "temp_path dk path m = temp_path dk path n \<longleftrightarrow> m = n"
  by (simp add: temp_path_def)

lemma temp_sequence_free:
  "\<exists>n. temp_sequence dk path = Some n \<and> bt_get (temp_path dk path n) (dk_files dk) = None"
proof (cases "temp_sequence dk path")
  case (Some n)
  then show ?thesis by (auto simp: temp_sequence_def find_Some_iff)
next
  case None
  let ?N = "{0..<Suc (length (dk_files dk))}"
  from None have "\<forall>n \<in> ?N. bt_get (temp_path dk path n) (dk_files dk) \<noteq> None"
    unfolding temp_sequence_def find_None_iff by (auto simp del: upt_Suc)
  then have "temp_path dk path ` ?N \<subseteq> bt_keys (dk_files dk)"
    by (auto simp: bt_get_None_iff)
  then have "card (temp_path dk path ` ?N) \<le> card (bt_keys (dk_files dk))"
    by (intro card_mono) (simp_all add: bt_keys_def)
  also have "\<dots> \<le> length (dk_files dk)"
    unfolding bt_keys_def using card_image_le [of "set (dk_files dk)" fst] card_length order_trans by auto
  finally have "card (temp_path dk path ` ?N) \<le> length (dk_files dk)" .
  moreover have "card (temp_path dk path ` ?N) = card ?N"
    by (intro card_image inj_onI) (simp add: temp_path_inject)
  ultimately show ?thesis by simp
qed

definition is_temp :: "path \<Rightarrow> bool" where
  "is_temp q \<longleftrightarrow> q \<noteq> [] \<and> prefix ''.'' (last q)"

lemma is_temp_temp_path [simp]: "is_temp (temp_path dk path n)"
  by (simp add: is_temp_def temp_path_def prefix_def)

lemma replace_steps_files:
  assumes "replace_steps dk temp path body = (dk', result)" and "temp \<noteq> path"
    and "bt_wf (dk_files dk)" and "bt_get temp (dk_files dk) = None"
  shows "\<exists>f. dk' = dk\<lparr>dk_files := f\<rparr> \<and> bt_wf f \<and>
    (\<forall>q. q \<noteq> path \<longrightarrow> q \<noteq> temp \<longrightarrow> bt_get q f = bt_get q (dk_files dk)) \<and>
    bt_get path f \<in> {bt_get path (dk_files dk), Some body} \<and>
    (is_ok result \<longrightarrow>
       bt_get path f = Some body \<and> bt_get temp f = None)"
  using assms
  by (auto simp: replace_steps_def Let_def fail_with_def is_ok_iff split: option.splits)

lemma write_records_files:
  assumes "write_records sd dk path records = (dk', result)" and "bt_wf (dk_files dk)"
    and "\<not> is_temp path"
  shows "\<exists>f. dk' = dk\<lparr>dk_files := f\<rparr> \<and> bt_wf f \<and>
    (\<forall>q. q \<noteq> path \<longrightarrow> \<not> is_temp q \<longrightarrow> bt_get q f = bt_get q (dk_files dk)) \<and>
    (bt_get path f = bt_get path (dk_files dk) \<or>
     (\<exists>json. sd_to_vec sd records = Ok json \<and> bt_get path f = Some (json @ [newline]))) \<and>
    (result = Ok () \<longrightarrow>
     (\<exists>json. sd_to_vec sd records = Ok json \<and> bt_get path f = Some (json @ [newline])))"
proof (cases "path = [] \<or> (\<exists>e. sd_to_vec sd records = Inl e) \<or> dk_create dk \<noteq> None")
  case True
  with assms(1) temp_sequence_free [of dk path] have "dk' = dk \<and> result \<noteq> Ok ()"
    by (auto simp: write_records_def split: sum.splits option.splits if_splits)
  with assms(2) show ?thesis by (intro exI [of _ "dk_files dk"]) simp
next
  case False
  then obtain json where json: "sd_to_vec sd records = Ok json"
    by (cases "sd_to_vec sd records") auto
  obtain n where n: "temp_sequence dk path = Some n"
      "bt_get (temp_path dk path n) (dk_files dk) = None"
    using temp_sequence_free by blast
  let ?temp = "temp_path dk path n"
  obtain dk1 res where steps: "replace_steps dk ?temp path (json @ [newline]) = (dk1, res)"
    by fastforce
  have ne: "?temp \<noteq> path" using assms(3) is_temp_temp_path by metis
  from replace_steps_files [OF steps ne assms(2) n(2)] obtain f where
    f: "dk1 = dk\<lparr>dk_files := f\<rparr>" "bt_wf f"
      "\<forall>q. q \<noteq> path \<longrightarrow> q \<noteq> ?temp \<longrightarrow> bt_get q f = bt_get q (dk_files dk)"
      "bt_get path f \<in> {bt_get path (dk_files dk), Some (json @ [newline])}"
      "is_ok res \<longrightarrow> bt_get path f = Some (json @ [newline])"
    by blast
  have dk': "dk' = (if is_ok res \<or> dk_remove dk \<noteq> None then dk1
       else dk1\<lparr>dk_files := bt_remove ?temp (dk_files dk1)\<rparr>)" "result = map_err Internal res"
    using assms(1) False json n(1) steps by (auto simp: write_records_def Let_def)
  let ?f = "if is_ok res \<or> dk_remove dk \<noteq> None then f else bt_remove ?temp f"
  have files: "dk' = dk\<lparr>dk_files := ?f\<rparr>" "bt_wf ?f" using dk'(1) f(1,2) by auto
  have off: "bt_get q ?f = bt_get q f" if "\<not> is_temp q" for q
    using f(2) that is_temp_temp_path [of dk path n] by auto
  have ok: "result = Ok () \<longleftrightarrow> is_ok res" using dk'(2) by (cases res) auto
  show ?thesis
  proof (intro exI [of _ ?f] conjI allI impI)
    fix q assume "q \<noteq> path" "\<not> is_temp q"
    moreover have "q \<noteq> ?temp" using \<open>\<not> is_temp q\<close> is_temp_temp_path by metis
    ultimately show "bt_get q ?f = bt_get q (dk_files dk)" using off f(3) by simp
  next
    show "bt_get path ?f = bt_get path (dk_files dk) \<or>
      (\<exists>json. sd_to_vec sd records = Ok json \<and> bt_get path ?f = Some (json @ [newline]))"
      using off [OF assms(3)] f(4) json by auto
  next
    assume "result = Ok ()"
    then show "\<exists>json. sd_to_vec sd records = Ok json \<and> bt_get path ?f = Some (json @ [newline])"
      using off [OF assms(3)] f(5) json ok by auto
  qed (use files in simp_all)
qed

section \<open>Transactions and scopes\<close>

lemma scope_path_not_temp [simp]: "\<not> is_temp (scope_path (file_store_new home) scope)"
  by (cases scope) (auto simp: is_temp_def scope_path_def file_store_new_def)

lemma scope_path_not_Nil [simp]: "scope_path (file_store_new home) scope \<noteq> []"
  by (cases scope) (auto simp: scope_path_def file_store_new_def)

lemma scope_path_inject:
  "scope_path (file_store_new home) a = scope_path (file_store_new home) b \<longleftrightarrow> a = b"
  by (cases a; cases b) (auto simp: scope_path_def file_store_new_def machine_scope_id.expand)

lemma secret_lock_path: "secret_lock dk store scope = Ok path \<Longrightarrow> path = scope_path store scope"
  by (auto simp: secret_lock_def Let_def split: if_splits)

lemma secret_lock_files: "secret_lock (dk\<lparr>dk_files := f\<rparr>) store scope = secret_lock dk store scope"
  by (cases scope) (simp_all add: secret_lock_def Let_def cong: if_cong)

lemma read_records_files:
  assumes "bt_get path f = bt_get path (dk_files dk)"
  shows "read_records sd (dk\<lparr>dk_files := f\<rparr>) path = read_records sd dk path"
  using assms by (simp add: read_records_def cong: option.case_cong)

lemma read_records_wf: "serde_ok sd \<Longrightarrow> read_records sd dk path = Ok r \<Longrightarrow> bt_wf r"
  by (auto simp: read_records_def serde_ok_def split: option.splits if_splits)

lemma begin_transaction_Ok:
  "begin_transaction sd dk store scope = Ok tx \<longleftrightarrow>
     secret_lock dk store scope = Ok (scope_path store scope) \<and>
     read_records sd dk (scope_path store scope) = Ok (tx_records tx) \<and>
     \<not> tx_dirty tx \<and> tx_path tx = scope_path store scope"
  by (cases tx) (auto simp: begin_transaction_def dest: secret_lock_path)

lemma transaction_read:
  "transaction sd dk store scope (\<lambda>tx. (tx, f tx)) =
     (dk, rbind (begin_transaction sd dk store scope) f)"
proof (cases "begin_transaction sd dk store scope")
  case (Inr tx)
  then have "\<not> tx_dirty tx" by (simp add: begin_transaction_Ok)
  with Inr show ?thesis by (cases "f tx") (simp_all add: transaction_def tx_persist_def)
qed (simp add: transaction_def)

lemma transaction_files:
  assumes "transaction sd dk (file_store_new home) scope op = (dk', result)"
    and "bt_wf (dk_files dk)" and "\<And>tx tx' r. op tx = (tx', r) \<Longrightarrow> tx_path tx' = tx_path tx"
  shows "\<exists>f. dk' = dk\<lparr>dk_files := f\<rparr> \<and> bt_wf f \<and>
    (\<forall>q. q \<noteq> scope_path (file_store_new home) scope \<longrightarrow> \<not> is_temp q \<longrightarrow>
       bt_get q f = bt_get q (dk_files dk))"
proof (cases "begin_transaction sd dk (file_store_new home) scope")
  case (Inl e)
  with assms(1,2) show ?thesis
    by (intro exI [of _ "dk_files dk"]) (auto simp: transaction_def)
next
  case (Inr tx)
  obtain tx' r where op: "op tx = (tx', r)" by fastforce
  obtain dk1 tx1 r1 where p: "tx_persist sd dk tx' = (dk1, tx1, r1)" by (metis prod_cases3)
  have path: "tx_path tx' = scope_path (file_store_new home) scope"
    using assms(3) [OF op] Inr by (simp add: begin_transaction_Ok)
  have "dk' = dk \<or> dk' = dk1"
    using assms(1) Inr op p by (auto simp: transaction_def split: sum.splits)
  moreover have "dk1 = dk \<or> (\<exists>res. write_records sd dk (tx_path tx') (tx_records tx') = (dk1, res))"
    using p by (auto simp: tx_persist_def split: if_splits prod.splits sum.splits)
  ultimately consider "dk' = dk" |
      res where "write_records sd dk (scope_path (file_store_new home) scope) (tx_records tx') = (dk', res)"
    using path by auto
  then show ?thesis
  proof cases
    case 1
    with assms(2) show ?thesis by (intro exI [of _ "dk_files dk"]) simp
  next
    case 2
    from write_records_files [OF this assms(2)] show ?thesis by auto
  qed
qed

lemma tx_put_path: "tx_put sd name s tx = (tx', r) \<Longrightarrow> tx_path tx' = tx_path tx"
  by (auto simp: tx_put_def split: sum.splits if_splits)

lemma tx_delete_path: "tx_delete name tx = (tx', r) \<Longrightarrow> tx_path tx' = tx_path tx"
  by (auto simp: tx_delete_def Let_def)

lemma encode_decode: "serde_ok sd \<Longrightarrow> disk_encode sd s = Ok v \<Longrightarrow> disk_decode sd v = Ok s"
  by (cases s) (auto simp: serde_ok_def disk_encode_def disk_decode_def secret_bytes_as_str_def
      split: if_splits)

lemma file_get_eq:
  "file_get sd store scope name dk =
     (dk, rbind (begin_transaction sd dk store scope) (\<lambda>tx. tx_get sd tx name))"
  by (simp add: file_get_def transaction_read)

lemma file_get_files:
  assumes "bt_get (scope_path store scope) f = bt_get (scope_path store scope) (dk_files dk)"
  shows "snd (file_get sd store scope name (dk\<lparr>dk_files := f\<rparr>)) = snd (file_get sd store scope name dk)"
proof -
  have "begin_transaction sd (dk\<lparr>dk_files := f\<rparr>) store scope = begin_transaction sd dk store scope"
  proof (cases "secret_lock dk store scope")
    case (Inr path)
    then have "path = scope_path store scope" by (rule secret_lock_path)
    with Inr show ?thesis
      by (simp add: begin_transaction_def secret_lock_files read_records_files [OF assms])
  qed (simp add: begin_transaction_def secret_lock_files)
  then show ?thesis by (simp add: file_get_eq)
qed

lemma read_back:
  assumes "serde_ok sd" and "bt_wf r" and "sd_to_vec sd r = Ok json"
    and "bt_get path (dk_files dk) = Some (json @ [newline])" and "dk_read dk = None"
  shows "read_records sd dk path = Ok r"
  using assms by (auto simp: serde_ok_def read_records_def fail_with_def)

lemma put_cases:
  assumes "file_put sd store scope name s dk = (dk', Ok ())"
  obtains r where "begin_transaction sd dk store scope =
      Ok \<lparr>tx_records = r, tx_dirty = False, tx_path = scope_path store scope\<rparr>"
    and "dk' = dk \<and> (\<exists>v. bt_get (name_str name) r = Some v \<and> disk_decode sd v = Ok s) \<or>
      (\<exists>v. disk_encode sd s = Ok v \<and>
         write_records sd dk (scope_path store scope) (bt_insert (name_str name) v r) = (dk', Ok ()))"
proof -
  obtain tx where tx: "begin_transaction sd dk store scope = Ok tx"
    using assms by (auto simp: file_put_def transaction_def split: sum.splits)
  obtain r where r: "tx = \<lparr>tx_records = r, tx_dirty = False, tx_path = scope_path store scope\<rparr>"
    using tx by (cases tx) (simp add: begin_transaction_Ok)
  have "dk' = dk \<and> tx_get sd tx name = Ok (Some s) \<or>
      (\<exists>v. disk_encode sd s = Ok v \<and>
         write_records sd dk (scope_path store scope) (bt_insert (name_str name) v r) = (dk', Ok ()))"
    using assms
    by (auto simp: file_put_def transaction_def tx tx_put_def tx_persist_def r
        split: sum.splits if_splits prod.splits)
  with that [OF tx [unfolded r]] show thesis by (auto simp: tx_get_def r split: option.splits)
qed

lemma put_stores:
  assumes "serde_ok sd" and "bt_wf (dk_files dk)" and "dk_read dk = None"
    and "file_put sd (file_store_new home) scope name s dk = (dk', Ok ())"
  obtains r r' where
    "begin_transaction sd dk (file_store_new home) scope =
       Ok \<lparr>tx_records = r, tx_dirty = False, tx_path = scope_path (file_store_new home) scope\<rparr>"
    and "begin_transaction sd dk' (file_store_new home) scope =
       Ok \<lparr>tx_records = r', tx_dirty = False, tx_path = scope_path (file_store_new home) scope\<rparr>"
    and "\<exists>v. bt_get (name_str name) r' = Some v \<and> disk_decode sd v = Ok s"
    and "\<forall>n. n \<noteq> name_str name \<longrightarrow> bt_get n r' = bt_get n r"
proof (rule put_cases [OF assms(4)])
  let ?st = "file_store_new home" let ?p = "scope_path ?st scope"
  fix r
  assume tx: "begin_transaction sd dk ?st scope =
      Ok \<lparr>tx_records = r, tx_dirty = False, tx_path = ?p\<rparr>"
    and "dk' = dk \<and> (\<exists>v. bt_get (name_str name) r = Some v \<and> disk_decode sd v = Ok s) \<or>
      (\<exists>v. disk_encode sd s = Ok v \<and>
         write_records sd dk ?p (bt_insert (name_str name) v r) = (dk', Ok ()))"
  then consider "dk' = dk" "\<exists>v. bt_get (name_str name) r = Some v \<and> disk_decode sd v = Ok s"
    | v where "disk_encode sd s = Ok v"
        "write_records sd dk ?p (bt_insert (name_str name) v r) = (dk', Ok ())"
    by blast
  then show thesis
  proof cases
    case 1
    with that tx show thesis by blast
  next
    case 2
    have lock: "secret_lock dk ?st scope = Ok ?p" and wf: "bt_wf r"
      using tx read_records_wf [OF assms(1)] by (auto simp: begin_transaction_Ok)
    obtain f json where f: "dk' = dk\<lparr>dk_files := f\<rparr>"
      and json: "sd_to_vec sd (bt_insert (name_str name) v r) = Ok json"
        "bt_get ?p f = Some (json @ [newline])"
      using write_records_files [OF 2(2) assms(2)] by auto
    have "read_records sd dk' ?p = Ok (bt_insert (name_str name) v r)"
      using f json assms(1,3) wf by (intro read_back) simp_all
    moreover have "secret_lock dk' ?st scope = Ok ?p" using lock f by (simp add: secret_lock_files)
    ultimately show thesis
      using that [OF tx, of "bt_insert (name_str name) v r"] wf encode_decode [OF assms(1) 2(1)]
      by (simp add: begin_transaction_def)
  qed
qed

section \<open>Grants\<close>

definition MAX_BODY :: nat where "MAX_BODY = 2 ^ 20"
definition MAX_HEADER :: nat where "MAX_HEADER = 128"

record allowed_secret =
  al_slot :: secret_name
  al_key :: secret_name
  al_field :: secret_field
  al_backing_scope :: secret_scope

record secret_grant =
  gr_version :: nat
  gr_store :: string
  gr_machine :: machine_scope_id
  gr_run :: string
  gr_issued_at :: int
  gr_allowed :: "allowed_secret list"

record provider_request =
  rq_version :: nat
  rq_operation :: string
  rq_grant :: string
  rq_machine :: machine_scope_id
  rq_run :: string
  rq_names :: "secret_name list"
  rq_reason :: string

text \<open>The path of a store file is its byte string; it is absolute when it starts with a slash.\<close>

definition file_identity :: "string \<Rightarrow> (secret_error, string) result" where
  "file_identity path =
     (if \<not> prefix ''/'' path then Err (InvalidRequest ''provider store path must be absolute'')
      else if \<not> valid_utf8 path then Err (InvalidRequest ''store path must be UTF-8'')
      else Ok (''file:'' @ path))"

definition grant_issue ::
  "string \<Rightarrow> machine_scope_id \<Rightarrow> string \<Rightarrow> allowed_secret list \<Rightarrow> int
     \<Rightarrow> (secret_error, secret_grant) result" where
  "grant_issue store machine run allowed now =
     rbind (file_identity store) (\<lambda>identity.
       Ok \<lparr>gr_version = 2, gr_store = identity, gr_machine = machine, gr_run = run,
           gr_issued_at = now, gr_allowed = allowed\<rparr>)"

definition denied :: secret_error where
  "denied = Unauthorized ''provider grant does not authorize this request''"

definition forbidden_entry :: "machine_scope_id \<Rightarrow> allowed_secret \<Rightarrow> bool" where
  "forbidden_entry machine a \<longleftrightarrow>
     prefix ''silo.'' (name_str (al_slot a)) \<or> prefix ''silo.'' (name_str (al_key a)) \<or>
     al_field a = FieldValue \<or>
     (case al_backing_scope a of MachineScope mid \<Rightarrow> mid \<noteq> machine | HomeScope \<Rightarrow> False)"

fun check_allowed ::
  "machine_scope_id \<Rightarrow> string set \<Rightarrow> allowed_secret list \<Rightarrow> (secret_error, unit) result" where
  "check_allowed machine slots [] = Ok ()"
| "check_allowed machine slots (a # as) =
     (if name_str (al_slot a) \<in> slots \<or> forbidden_entry machine a then Err denied
      else check_allowed machine (insert (name_str (al_slot a)) slots) as)"

fun select_names ::
  "allowed_secret list \<Rightarrow> string set \<Rightarrow> secret_name list \<Rightarrow> (secret_error, allowed_secret list) result"
where
  "select_names allowed names [] = Ok []"
| "select_names allowed names (n # ns) =
     (if name_str n \<in> names then Err denied
      else rbind (ok_or (List.find (\<lambda>a. al_slot a = n) allowed) denied) (\<lambda>a.
           rbind (select_names allowed (insert (name_str n) names) ns) (\<lambda>rest. Ok (a # rest))))"

definition authorize ::
  "secret_grant \<Rightarrow> string \<Rightarrow> provider_request \<Rightarrow> (secret_error, allowed_secret list) result" where
  "authorize g store request =
     (if gr_version g \<noteq> 2 then Err denied
      else rbind (file_identity store) (\<lambda>identity.
        if gr_store g \<noteq> identity \<or> gr_run g = [] \<or> gr_machine g \<noteq> rq_machine request \<or>
           gr_run g \<noteq> rq_run request
        then Err denied
        else rbind (check_allowed (gr_machine g) {} (gr_allowed g)) (\<lambda>_.
          if rq_names request = [] then Err denied
          else select_names (gr_allowed g) {} (rq_names request))))"

section \<open>Frames\<close>

text \<open>
  A reader is the bytes it still holds. \<open>from_slice\<close> and the chunks \<open>to_writer\<close> emits are
  those of the JSON library for the message type.
\<close>

definition content_length :: string where "content_length = ''Content-Length: ''"

definition crlf2 :: string where
  "crlf2 = map char_of [13 :: nat, 10, 13, 10]"

definition frame_invalid :: secret_error where
  "frame_invalid = InvalidRequest ''invalid Content-Length frame''"

definition eof_error :: secret_error where
  "eof_error = Internal ''failed to fill whole buffer''"

function read_header ::
  "string \<Rightarrow> string \<Rightarrow> (secret_error, string \<times> string) result" where
  "read_header header reader =
     (if suffix crlf2 header then Ok (header, reader)
      else if length header = MAX_HEADER then Err frame_invalid
      else (case reader of
              [] \<Rightarrow> Err eof_error
            | b # rest \<Rightarrow> read_header (header @ [b]) rest))"
  by pat_completeness auto
termination
  by (relation "measure (\<lambda>(h, r). length r)") auto

declare read_header.simps [simp del]

definition usize_max :: nat where "usize_max = 2 ^ 64 - 1"

definition read_json_frame ::
  "(string \<Rightarrow> (string, 'a) result) \<Rightarrow> string \<Rightarrow> (secret_error, 'a) result" where
  "read_json_frame from_slice reader =
     rbind (read_header [] reader) (\<lambda>(header, rest).
     rbind (ok_or (Option.bind (strip_prefix content_length header) (strip_suffix crlf2))
              frame_invalid) (\<lambda>digits.
       if digits = [] \<or> \<not> list_all is_ascii_digit digits then Err frame_invalid
       else rbind (ok_or (parse_uint usize_max digits) frame_invalid) (\<lambda>len.
         if len > MAX_BODY then Err frame_invalid
         else if length rest < len then Err eof_error
         else if drop len rest \<noteq> [] then Err frame_invalid
         else map_err InvalidRequest (from_slice (take len rest)))))"

fun bounded_write :: "string \<Rightarrow> string list \<Rightarrow> (string, string) result" where
  "bounded_write body [] = Ok body"
| "bounded_write body (bytes # chunks) =
     (if length bytes > MAX_BODY - length body then Err ''provider body exceeds 1 MiB''
      else bounded_write (body @ bytes) chunks)"

definition write_json_frame ::
  "('a \<Rightarrow> string list) \<Rightarrow> 'a \<Rightarrow> (secret_error, string) result" where
  "write_json_frame to_chunks value =
     rbind (map_err InvalidRequest (bounded_write [] (to_chunks value))) (\<lambda>body.
       Ok (content_length @ show_nat (length body) @ crlf2 @ body))"


lemma check_allowed_Ok:
  "check_allowed machine slots as = Ok () \<longleftrightarrow>
     distinct (map (\<lambda>a. name_str (al_slot a)) as) \<and>
     (\<forall>a \<in> set as. name_str (al_slot a) \<notin> slots \<and> \<not> forbidden_entry machine a)"
  by (induction machine slots as rule: check_allowed.induct) (auto intro: rev_image_eqI)

lemma select_names_Ok:
  "select_names allowed names ns = Ok l \<longleftrightarrow>
     distinct ns \<and> (\<forall>n \<in> set ns. name_str n \<notin> names) \<and>
     list_all2 (\<lambda>n a. List.find (\<lambda>x. al_slot x = n) allowed = Some a) ns l"
proof (induction allowed names ns arbitrary: l rule: select_names.induct)
  case (2 allowed names n ns)
  show ?case
  proof (cases "name_str n \<in> names")
    case False
    have IH: "select_names allowed (insert (name_str n) names) ns = Ok l' \<longleftrightarrow>
        distinct ns \<and> (\<forall>x \<in> set ns. name_str x \<notin> insert (name_str n) names) \<and>
        list_all2 (\<lambda>n a. List.find (\<lambda>x. al_slot x = n) allowed = Some a) ns l'" for l'
      using 2 [OF False] by blast
    have "x = n" if "name_str x = name_str n" for x using that by (rule secret_name.expand)
    with False show ?thesis
      by (auto simp: IH list_all2_Cons1)
  qed simp
qed auto

lemma find_slot:
  assumes "distinct (map al_slot allowed)"
  shows "List.find (\<lambda>x. al_slot x = n) allowed = Some a \<longleftrightarrow> a \<in> set allowed \<and> al_slot a = n"
  using assms by (induction allowed) auto

lemma distinct_slots: "distinct (map (\<lambda>a. name_str (al_slot a)) as) \<longleftrightarrow> distinct (map al_slot as)"
  by (simp add: distinct_map inj_on_def secret_name.expand) (metis secret_name.expand)

lemma read_header_reads:
  assumes "length h + length t \<le> MAX_HEADER" and "suffix crlf2 (h @ t)"
    and "\<And>t'. strict_prefix t' t \<Longrightarrow> \<not> suffix crlf2 (h @ t')"
  shows "read_header h (t @ rest) = Ok (h @ t, rest)"
  using assms
proof (induction t arbitrary: h)
  case Nil
  then show ?case by (subst read_header.simps) simp
next
  case (Cons b t)
  have "\<not> suffix crlf2 h" using Cons.prems(3) [of "[]"] by simp
  moreover have "length h \<noteq> MAX_HEADER" using Cons.prems(1) by simp
  moreover have "read_header (h @ [b]) (t @ rest) = Ok ((h @ [b]) @ t, rest)"
  proof (rule Cons.IH)
    fix t' assume "strict_prefix t' t"
    then show "\<not> suffix crlf2 ((h @ [b]) @ t')" using Cons.prems(3) [of "b # t'"] by simp
  qed (use Cons.prems(1,2) in simp_all)
  ultimately show ?case by (subst read_header.simps) simp
qed

lemma bounded_write_Ok:
  "length body \<le> MAX_BODY \<Longrightarrow>
     bounded_write body chunks = Ok r \<longleftrightarrow>
       r = body @ concat chunks \<and> length r \<le> MAX_BODY"
  by (induction body chunks rule: bounded_write.induct) auto

lemma show_nat_length: "n < 10 ^ k \<Longrightarrow> 0 < k \<Longrightarrow> length (show_nat n) \<le> k"
proof (induction n arbitrary: k rule: show_nat.induct)
  case (1 n)
  show ?case
  proof (cases "n < 10")
    case True
    then show ?thesis using 1(3) by (subst show_nat.simps) simp
  next
    case False
    then have "k \<noteq> 1" using 1(2) by auto
    then obtain j where j: "k = Suc j" "0 < j" using 1(3) by (cases k) auto
    then have "n div 10 < 10 ^ j" using 1(2) by (simp add: less_mult_imp_div_less mult.commute)
    then show ?thesis using 1(1) [OF False] False j by (subst show_nat.simps) simp
  qed
qed

lemma header_ends_once:
  assumes "char_of (13 :: nat) \<notin> set p" and "strict_prefix t (p @ crlf2)"
  shows "\<not> suffix crlf2 t"
proof
  assume "suffix crlf2 t"
  then obtain u where u: "t = u @ crlf2" by (auto simp: suffix_def)
  from assms(2) obtain w where w: "p @ crlf2 = t @ w" "w \<noteq> []"
    by (auto simp: strict_prefix_def prefix_def)
  have less: "length u < length p"
    using arg_cong [OF w(1), of length] w(2) u by (cases w) (auto simp: crlf2_def)
  have "(p @ crlf2) ! length u = char_of (13 :: nat)"
    unfolding w(1) by (simp add: u nth_append crlf2_def)
  then have "p ! length u = char_of (13 :: nat)" using less by (simp add: nth_append)
  with less assms(1) nth_mem show False by metis
qed

lemma no_cr_in_header: "char_of (13 :: nat) \<notin> set (content_length @ show_nat n)"
proof -
  have "char_of (13 :: nat) \<notin> set (show_nat n)"
    using show_nat_digits [of n] by (auto simp: list_all_iff is_ascii_digit_def code_def)
  then show ?thesis by (simp add: content_length_def char_of_def)
qed

lemma strip_frame_header:
  "Option.bind (strip_prefix content_length (content_length @ d @ crlf2))
     (strip_suffix crlf2) = Some d"
  by (simp add: strip_prefix_def)


lemma read_written_frame:
  assumes "length body \<le> MAX_BODY"
  shows "read_header [] (content_length @ show_nat (length body) @ crlf2 @ body) =
    Ok (content_length @ show_nat (length body) @ crlf2, body)"
proof -
  let ?h = "content_length @ show_nat (length body)"
  have "length body < 10 ^ 7" using assms by (simp add: MAX_BODY_def)
  then have "length (show_nat (length body)) \<le> 7" by (rule show_nat_length) simp
  then have "length (?h @ crlf2) \<le> MAX_HEADER" by (simp add: content_length_def crlf2_def MAX_HEADER_def)
  then have "read_header [] ((?h @ crlf2) @ body) = Ok ([] @ (?h @ crlf2), body)"
    using header_ends_once [OF no_cr_in_header]
    by (intro read_header_reads) (simp_all add: suffix_def)
  then show ?thesis by simp
qed

section \<open>Concrete instances\<close>

text \<open>A one-record JSON library: enough of one to run the store.\<close>

definition demo_serde :: "string serde" where
  "demo_serde =
     \<lparr>sd_to_value = (\<lambda>d. case d of DiskPlain v \<Rightarrow> Ok v | DiskOAuth _ \<Rightarrow> Err ''unsupported''),
      sd_from_value = (\<lambda>v. Ok (DiskPlain v)),
      sd_to_vec = (\<lambda>r. case r of
          [(k, v)] \<Rightarrow> if CHR ''='' \<in> set k then Err ''unsupported'' else Ok (CHR ''{'' # k @ CHR ''='' # v)
        | _ \<Rightarrow> Err ''unsupported''),
      sd_from_slice = (\<lambda>b. case find_char (CHR ''='') (tl b) of
          None \<Rightarrow> Err ''syntax''
        | Some i \<Rightarrow> Ok [(take i (tl b), butlast (drop (Suc i) (tl b)))])\<rparr>"

lemma demo_serde_ok: "serde_ok demo_serde"
  by (auto simp: serde_ok_def demo_serde_def find_char_append ascii_whitespace_def code_def
      split: disk_secret.splits list.splits if_splits option.splits)

definition empty_disk :: disk where
  "empty_disk = \<lparr>dk_files = [], dk_read = None, dk_create = None, dk_write = None, dk_sync = None,
     dk_rename = None, dk_dir_sync = None, dk_remove = None, dk_pid = 7,
     dk_secure_directory = (\<lambda>_. Ok ()), dk_metadata = (\<lambda>_. Ok True),
     dk_permissions = (\<lambda>_. Ok ()), dk_open_lock = (\<lambda>_. Ok ()), dk_machine_dirs = Ok []\<rparr>"

definition demo_file :: "(path, string) btree" where
  "demo_file = [([''h'', ''secrets.json''], ''{k=v'' @ [newline])]"

lemma demo_put:
  "file_put demo_serde (file_store_new [''h'']) HomeScope (SecretName ''k'') (PlainSecret ''v'') empty_disk =
     (empty_disk\<lparr>dk_files := demo_file\<rparr>, Ok ())"
  by (simp add: file_put_def transaction_def begin_transaction_def secret_lock_def scope_path_def
      file_store_new_def empty_disk_def read_records_def tx_put_def secret_name_new_def name_char_def
      byte_class_defs tx_get_def disk_encode_def secret_bytes_as_str_def demo_serde_def
      tx_persist_def write_records_def temp_sequence_def replace_steps_def fail_with_def Let_def
      demo_file_def)

section \<open>Properties\<close>

text \<open>
  Claim C9. A stored secret is read back: after a successful \<open>put\<close> the same store returns
  exactly that secret under that name, and every other name of the scope reads as before,
  decoding errors of foreign records included.
\<close>

theorem put_then_get:
  assumes "serde_ok sd" and "bt_wf (dk_files dk)" and "dk_read dk = None"
    and "file_put sd (file_store_new home) scope name s dk = (dk', Ok ())"
  shows "file_get sd (file_store_new home) scope name dk' = (dk', Ok (Some s)) \<and>
    (\<forall>other. other \<noteq> name \<longrightarrow>
       snd (file_get sd (file_store_new home) scope other dk') =
       snd (file_get sd (file_store_new home) scope other dk))"
proof (rule put_stores [OF assms])
  fix r r'
  assume "begin_transaction sd dk (file_store_new home) scope =
       Ok \<lparr>tx_records = r, tx_dirty = False, tx_path = scope_path (file_store_new home) scope\<rparr>"
    and "begin_transaction sd dk' (file_store_new home) scope =
       Ok \<lparr>tx_records = r', tx_dirty = False, tx_path = scope_path (file_store_new home) scope\<rparr>"
    and "\<exists>v. bt_get (name_str name) r' = Some v \<and> disk_decode sd v = Ok s"
    and others: "\<forall>n. n \<noteq> name_str name \<longrightarrow> bt_get n r' = bt_get n r"
  moreover have "bt_get (name_str other) r' = bt_get (name_str other) r" if "other \<noteq> name" for other
    using others that secret_name.expand by blast
  ultimately show ?thesis by (auto simp: file_get_eq tx_get_def)
qed

theorem put_then_get_witness:
  "file_get demo_serde (file_store_new [''h'']) HomeScope (SecretName ''k'')
     (empty_disk\<lparr>dk_files := demo_file\<rparr>) =
   (empty_disk\<lparr>dk_files := demo_file\<rparr>, Ok (Some (PlainSecret ''v'')))"
  using put_then_get [OF demo_serde_ok _ _ demo_put] by (simp add: empty_disk_def)

text \<open>
  Claim C23. Scopes are isolated: whatever a \<open>put\<close> or \<open>delete\<close> in one scope does, succeeding
  or failing at any step of the write, every read of another scope gives the result it gave
  before.
\<close>

theorem scopes_isolated:
  assumes "bt_wf (dk_files dk)" and "scope' \<noteq> scope"
    and "file_put sd (file_store_new home) scope name s dk = (dk', r) \<or>
         file_delete sd (file_store_new home) scope name dk = (dk', r')"
  shows "snd (file_get sd (file_store_new home) scope' other dk') =
         snd (file_get sd (file_store_new home) scope' other dk)"
proof -
  have "\<exists>f. dk' = dk\<lparr>dk_files := f\<rparr> \<and> bt_wf f \<and>
    (\<forall>q. q \<noteq> scope_path (file_store_new home) scope \<longrightarrow> \<not> is_temp q \<longrightarrow>
       bt_get q f = bt_get q (dk_files dk))"
    using assms(3)
  proof
    assume "file_put sd (file_store_new home) scope name s dk = (dk', r)"
    moreover have "tx_put sd name s tx = (tx', r) \<Longrightarrow> tx_path tx' = tx_path tx" for tx tx' r
      by (rule tx_put_path)
    ultimately show ?thesis
      using transaction_files [OF _ assms(1)] unfolding file_put_def by blast
  next
    assume "file_delete sd (file_store_new home) scope name dk = (dk', r')"
    from transaction_files [OF this [unfolded file_delete_def] assms(1)] show ?thesis
      by (auto simp: tx_delete_def Let_def split: prod.splits)
  qed
  then obtain f where "dk' = dk\<lparr>dk_files := f\<rparr>" "bt_get (scope_path (file_store_new home) scope') f =
      bt_get (scope_path (file_store_new home) scope') (dk_files dk)"
    using assms(2) by (auto simp: scope_path_inject)
  then show ?thesis using file_get_files by blast
qed

theorem scopes_isolated_witness:
  "snd (file_get demo_serde (file_store_new [''h'']) (MachineScope (MachineScopeId ''a'')) (SecretName ''k'')
     (empty_disk\<lparr>dk_files := demo_file\<rparr>)) =
   snd (file_get demo_serde (file_store_new [''h'']) (MachineScope (MachineScopeId ''a'')) (SecretName ''k'')
     empty_disk)"
  using scopes_isolated [OF _ _ disjI1 [OF demo_put]] by (simp add: empty_disk_def)




text \<open>
  Claim C25. Frames round trip: whatever the writer emits for a value, the reader accepts and
  decodes to that value, provided the JSON library reads back what it printed; the writer
  refuses exactly the bodies over the limit of 1 MiB.
\<close>

theorem frame_roundtrip:
  assumes "from_slice (concat (to_chunks value)) = Ok value"
  shows "case write_json_frame to_chunks value of
           Inr frame \<Rightarrow> read_json_frame from_slice frame = Ok value \<and>
                        length (concat (to_chunks value)) \<le> MAX_BODY
         | Inl _ \<Rightarrow> MAX_BODY < length (concat (to_chunks value))"
proof (cases "bounded_write [] (to_chunks value)")
  case (Inl e)
  then have "\<not> length (concat (to_chunks value)) \<le> MAX_BODY"
    using bounded_write_Ok [of "[]" "to_chunks value" "concat (to_chunks value)"] by auto
  with Inl show ?thesis by (simp add: write_json_frame_def)
next
  case (Inr body)
  then have body: "body = concat (to_chunks value)" "length body \<le> MAX_BODY"
    using bounded_write_Ok [of "[]" "to_chunks value" body] by auto
  then have "length body \<le> usize_max" by (simp add: MAX_BODY_def usize_max_def)
  with body assms Inr show ?thesis
    by (simp add: write_json_frame_def read_json_frame_def read_written_frame
        strip_frame_header show_nat_digits parse_uint_show_nat)
qed

theorem frame_roundtrip_witness:
  "case write_json_frame (\<lambda>b. [if b then ''true'' else ''false'']) True of
     Inr frame \<Rightarrow> read_json_frame (\<lambda>s. if s = ''true'' then Ok True else Err ''syntax'') frame = Ok True
   | Inl _ \<Rightarrow> False"
  using frame_roundtrip [of "\<lambda>s. if s = ''true'' then Ok True else Err ''syntax''"
      "\<lambda>b. [if b then ''true'' else ''false'']" True]
  by (auto simp: MAX_BODY_def split: sum.splits)

end
