(* ===== verification/Canonical.thy ===== *)
theory Canonical
  imports Policy_Model Secrets
begin

text \<open>
  The canonical network policy (\<open>common/policy/src/canonical.rs\<close>): its data, the lowering of a
  parsed policy document, normalisation, the secret slots it derives and its validation. A
  validation pass of the code pushes diagnostics; here it returns the list it pushes, together
  with the maps the later passes use.
\<close>

section \<open>Data\<close>

datatype json_number = PosInt nat | NegInt int | FloatNum "64 word"

datatype json =
    JNull
  | JBool bool
  | JNumber json_number
  | JString string
  | JArray "json list"
  | JObject "(string \<times> json) list"

fun json_as_array :: "json \<Rightarrow> json list option" where
  "json_as_array (JArray xs) = Some xs"
| "json_as_array _ = None"

fun json_as_str :: "json \<Rightarrow> string option" where
  "json_as_str (JString s) = Some s"
| "json_as_str _ = None"

fun json_as_u64 :: "json \<Rightarrow> nat option" where
  "json_as_u64 (JNumber (PosInt n)) = Some n"
| "json_as_u64 _ = None"

type_synonym json_map = "(string, json) btree"

record network_egress =
  eg_host :: string
  eg_port :: nat
  eg_tls :: bool

datatype ip_protocol = IpAny | IpTcp | IpUdp

record network_endpoint =
  ne_name :: string
  ne_kind :: string
  ne_family :: string
  ne_transport :: string
  ne_tls_mode :: string
  ne_config :: json_map
  ne_egress :: "network_egress list"
  ne_capabilities :: "string list"
  ne_source_cidrs :: "string list"
  ne_destination_cidrs :: "string list"
  ne_protocol :: ip_protocol
  ne_ports :: "port_range list"
  ne_hosts :: "string list"

record network_credential =
  nc_name :: string
  nc_kind :: string
  nc_endpoint :: string
  nc_username :: "string option"
  nc_header :: "string option"
  nc_prefix :: "string option"
  nc_idempotency_key :: bool
  nc_condition :: "string option"

record network_rule =
  nr_name :: "string option"
  nr_endpoints :: "string list"
  nr_credential :: "string option"
  nr_condition :: "string option"
  nr_tunnel :: "string option"
  nr_verdict :: action
  nr_priority :: int
  nr_disabled :: bool
  nr_reason :: string

record tailscale_tunnel =
  tt_name :: string
  tt_ephemeral :: bool
  tt_tags :: "string list"
  tt_hostname :: "string option"
  tt_control_url :: "string option"

record network_forward =
  nf_name :: string
  nf_kind :: string
  nf_target :: string
  nf_target_port :: nat
  nf_listen :: string
  nf_tunnel :: "string option"
  nf_protocol :: forward_protocol
  nf_tls :: "forward_tls option"

record network_audit_settings =
  na_body_buffer_bytes :: nat
  na_body_storage_bytes :: nat

record network_policy_settings =
  ns_default_action :: action
  ns_audit :: network_audit_settings

record network_policy =
  np_version :: nat
  np_metadata :: json_map
  np_settings :: network_policy_settings
  np_endpoints :: "network_endpoint list"
  np_credentials :: "network_credential list"
  np_rules :: "network_rule list"
  np_tailscale :: "tailscale_tunnel list"
  np_forwards :: "network_forward list"

definition POLICY_VERSION :: nat where "POLICY_VERSION = 1"
definition DEFAULT_BODY_BUFFER_BYTES :: nat where "DEFAULT_BODY_BUFFER_BYTES = 1048576"
definition DEFAULT_BODY_STORAGE_BYTES :: nat where "DEFAULT_BODY_STORAGE_BYTES = 4096"

definition audit_default :: network_audit_settings where
  "audit_default = \<lparr>na_body_buffer_bytes = DEFAULT_BODY_BUFFER_BYTES,
                    na_body_storage_bytes = DEFAULT_BODY_STORAGE_BYTES\<rparr>"

definition settings_default :: network_policy_settings where
  "settings_default = \<lparr>ns_default_action = Allow, ns_audit = audit_default\<rparr>"

definition policy_empty :: network_policy where
  "policy_empty = \<lparr>np_version = POLICY_VERSION, np_metadata = [], np_settings = settings_default,
     np_endpoints = [], np_credentials = [], np_rules = [], np_tailscale = [], np_forwards = []\<rparr>"

definition has_https_interception :: "network_policy \<Rightarrow> bool" where
  "has_https_interception p = list_ex (\<lambda>e. ne_tls_mode e = ''terminate'') (np_endpoints p)"

definition with_default_tailscale_hostname :: "string \<Rightarrow> network_policy \<Rightarrow> network_policy" where
  "with_default_tailscale_hostname hostname p =
     p\<lparr>np_tailscale := map (\<lambda>t.
        case tt_hostname t of
          None \<Rightarrow> t\<lparr>tt_hostname := Some hostname\<rparr>
        | Some h \<Rightarrow> if h = [] then t\<lparr>tt_hostname := Some hostname\<rparr> else t) (np_tailscale p)\<rparr>"

section \<open>Lowering a policy document\<close>

definition as_u64 :: "int \<Rightarrow> nat" where "as_u64 i = nat (i mod 2 ^ 64)"

definition lower_settings :: "settings_decl \<Rightarrow> network_policy_settings" where
  "lower_settings s =
     \<lparr>ns_default_action = sd_default_action s,
      ns_audit = (case sd_audit s of
                    None \<Rightarrow> audit_default
                  | Some a \<Rightarrow> \<lparr>na_body_buffer_bytes = as_u64 (as_body_buffer a),
                              na_body_storage_bytes = as_u64 (as_body_storage a)\<rparr>)\<rparr>"

definition lower_ip_protocol :: "string \<Rightarrow> ip_protocol" where
  "lower_ip_protocol s = (if s = ''tcp'' then IpTcp else if s = ''udp'' then IpUdp else IpAny)"

definition non_empty_string :: "string \<Rightarrow> string option" where
  "non_empty_string s = (if s = [] then None else Some s)"

definition lower_config :: "endpoint_decl \<Rightarrow> json_map" where
  "lower_config e =
     (let c1 = (if en_registries e \<noteq> []
                then bt_insert ''registries'' (JArray (map JString (en_registries e))) [] else []);
          c2 = (if en_malware_feed e \<noteq> []
                then bt_insert ''malware_feed'' (JString (en_malware_feed e)) c1 else c1)
      in case en_filter_package_age e of
           Some hours \<Rightarrow> bt_insert ''filter_package_age'' (JNumber (PosInt hours)) c2
         | None \<Rightarrow> c2)"

definition lower_egress :: "endpoint_decl \<Rightarrow> network_egress list" where
  "lower_egress e =
     (if en_malware_feed e \<noteq> []
      then (case parse_https_origin (en_malware_feed e) of
              Some (host, port) \<Rightarrow> [\<lparr>eg_host = host, eg_port = port, eg_tls = True\<rparr>]
            | None \<Rightarrow> [])
      else [])"

definition lower_endpoint :: "endpoint_decl \<Rightarrow> network_endpoint" where
  "lower_endpoint e =
     \<lparr>ne_name = en_name e, ne_kind = en_kind e, ne_family = family_as_str (en_family e),
      ne_transport = transport_as_str (en_transport e),
      ne_tls_mode = (if en_terminates_tls e then ''terminate'' else ''none''),
      ne_config = lower_config e, ne_egress = lower_egress e,
      ne_capabilities = (if en_supports_credentials e then [''credential-injection''] else []),
      ne_source_cidrs = en_source e, ne_destination_cidrs = en_destination e,
      ne_protocol = lower_ip_protocol (en_protocol e), ne_ports = en_ports e,
      ne_hosts = en_hosts e\<rparr>"

definition lower_credential :: "credential_decl \<Rightarrow> network_credential" where
  "lower_credential c =
     \<lparr>nc_name = cr_name c, nc_kind = cr_kind c, nc_endpoint = ref_name (cr_endpoint c),
      nc_username = non_empty_string (cr_username c), nc_header = non_empty_string (cr_header c),
      nc_prefix = non_empty_string (cr_prefix c), nc_idempotency_key = cr_idempotency_key c,
      nc_condition = map_option cd_source (cr_condition c)\<rparr>"

definition lower_rule :: "rule_decl \<Rightarrow> network_rule" where
  "lower_rule r =
     \<lparr>nr_name = non_empty_string (ru_name r), nr_endpoints = map ref_name (ru_endpoints r),
      nr_credential = map_option ref_name (ru_credential r),
      nr_condition = map_option cd_source (ru_condition r),
      nr_tunnel = map_option ref_name (ru_tunnel r), nr_verdict = ru_verdict r,
      nr_priority = ru_priority r, nr_disabled = ru_disabled r, nr_reason = ru_reason r\<rparr>"

definition lower_tailscale :: "tailscale_decl \<Rightarrow> tailscale_tunnel" where
  "lower_tailscale t =
     \<lparr>tt_name = ts_name t, tt_ephemeral = ts_ephemeral t, tt_tags = ts_tags t,
      tt_hostname = non_empty_string (ts_hostname t),
      tt_control_url = non_empty_string (ts_control_url t)\<rparr>"

definition lower_forward :: "forward_decl \<Rightarrow> network_forward" where
  "lower_forward f =
     \<lparr>nf_name = fw_name f, nf_kind = fw_kind f, nf_target = fw_target f,
      nf_target_port = fw_target_port f, nf_listen = fw_listen f,
      nf_tunnel = map_option ref_name (fw_tunnel f), nf_protocol = fw_protocol f,
      nf_tls = fw_tls f\<rparr>"

definition lower_document :: "policy_document \<Rightarrow> network_policy \<Rightarrow> network_policy" where
  "lower_document d p =
     p\<lparr>np_settings := lower_settings (pd_settings d),
       np_endpoints := np_endpoints p @ map lower_endpoint (pd_endpoints d),
       np_credentials := np_credentials p @ map lower_credential (pd_credentials d),
       np_rules := np_rules p @ map lower_rule (pd_rules d),
       np_tailscale := np_tailscale p @ map lower_tailscale (pd_tailscale d),
       np_forwards := np_forwards p @ map lower_forward (pd_forwards d)\<rparr>"

section \<open>Normalisation\<close>

definition normalize_host :: "string \<Rightarrow> string" where
  "normalize_host host = to_ascii_lowercase (trim_end_matches (CHR ''.'') (trim host))"

definition normalize_endpoint :: "network_endpoint \<Rightarrow> network_endpoint" where
  "normalize_endpoint e =
     (case registry_endpoint builtins (ne_kind e) of
        Some d \<Rightarrow> if ed_schema d = SchemaHosts
                  then e\<lparr>ne_hosts := map normalize_host (ne_hosts e)\<rparr> else e
      | None \<Rightarrow> e)"

definition validate_forward_transport ::
  "string \<Rightarrow> string \<Rightarrow> forward_protocol \<Rightarrow> forward_tls option \<Rightarrow> string
     \<Rightarrow> (string, nat option) result" where
  "validate_forward_transport kind target protocol tls listen =
     rbind (case protocol of
              ForwardTcp \<Rightarrow> if tls \<noteq> None then Err ''TCP forwards cannot configure TLS'' else Ok ()
            | ForwardHttps \<Rightarrow>
                if kind \<noteq> ''tailscale'' \<or> target \<noteq> ''self''
                then Err ''HTTPS forwards require Tailscale target self''
                else if tls = None then Err ''HTTPS forwards require tls.provider = tailscale''
                else Ok ()) (\<lambda>_.
       if kind \<noteq> ''tailscale'' \<or> target \<noteq> ''self'' then Ok None
       else case strip_prefix '':'' listen of
              None \<Rightarrow> Err ''Tailscale/self listen must be :<decimal port>''
            | Some digits \<Rightarrow>
                if digits = [] \<or> \<not> list_all is_ascii_digit digits
                then Err ''Tailscale/self listen must be :<decimal port>''
                else case parse_uint u16_max digits of
                       None \<Rightarrow> Err ''forward listen port must be between 1 and 65535''
                     | Some port \<Rightarrow>
                         if port = 0 \<or> port = 22
                         then Err (''forward listen port must be between 1 and 65535, ''
                                   @ ''excluding reserved SSH port 22'')
                         else Ok (Some port))"

definition normalize_forward :: "network_forward \<Rightarrow> network_forward" where
  "normalize_forward f =
     (if nf_kind f = ''tailscale'' \<and> nf_target f = ''self''
      then (case validate_forward_transport (nf_kind f) (nf_target f) (nf_protocol f) (nf_tls f)
                   (nf_listen f) of
              Inr (Some port) \<Rightarrow> f\<lparr>nf_listen := '':'' @ show_nat port\<rparr>
            | _ \<Rightarrow> f)
      else f)"

definition normalize :: "network_policy \<Rightarrow> network_policy" where
  "normalize p =
     p\<lparr>np_endpoints := map normalize_endpoint (np_endpoints p),
       np_forwards := map normalize_forward (np_forwards p)\<rparr>"

section \<open>Derived secrets\<close>

datatype network_secret_kind = SecretPlain | SecretOAuth

record network_secret_slot =
  nss_name :: string
  nss_required :: bool
  nss_kind :: network_secret_kind
  nss_key :: secret_name
  nss_field :: secret_field

record network_secret_requirement =
  nsr_owner :: string
  nsr_alternatives :: "string list list"

definition credential_fields :: "string \<Rightarrow> (string \<times> bool \<times> secret_field) list" where
  "credential_fields kind =
     (if kind = ''basic_auth'' then [(''password'', True, FieldValue)]
      else if kind = ''bearer_token'' \<or> kind = ''header_token'' then [(''token'', True, FieldValue)]
      else if kind = ''github_oauth'' \<or> kind = ''openai_codex_oauth''
      then [(''oauth.access_token'', True, OAuthAccessToken),
            (''oauth.expires_at'', True, OAuthExpiresAt),
            (''oauth.account_id'', False, OAuthAccountId)]
      else if kind = ''aws_credential''
      then [(''access_key_id'', True, FieldValue), (''secret_access_key'', True, FieldValue),
            (''session_token'', False, FieldValue), (''profile'', False, FieldValue)]
      else [])"

definition credential_secret_slot_of ::
  "network_credential \<Rightarrow> string \<times> bool \<times> secret_field \<Rightarrow> network_secret_slot list" where
  "credential_secret_slot_of c entry =
     (case entry of (sfx, required, field) \<Rightarrow>
        let oauth = (field \<noteq> FieldValue) in
        case secret_name_new (nc_kind c @ ''.'' @ nc_name c @ ''.''
               @ (if oauth then ''oauth'' else sfx)) of
          Inl _ \<Rightarrow> []
        | Inr key \<Rightarrow> [\<lparr>nss_name = nc_name c @ ''.'' @ sfx, nss_required = required,
                       nss_kind = (if oauth then SecretOAuth else SecretPlain),
                       nss_key = key, nss_field = field\<rparr>])"

definition credential_secret_slots :: "network_credential \<Rightarrow> network_secret_slot list" where
  "credential_secret_slots c =
     concat (map (credential_secret_slot_of c) (credential_fields (nc_kind c)))"

definition tunnel_secret_slots :: "tailscale_tunnel \<Rightarrow> network_secret_slot list" where
  "tunnel_secret_slots t =
     concat (map (\<lambda>field.
       case secret_name_new (''tailscale.'' @ tt_name t @ ''.'' @ field) of
         Inl _ \<Rightarrow> []
       | Inr key \<Rightarrow> [\<lparr>nss_name = tt_name t @ ''.tailscale.'' @ field, nss_required = False,
                      nss_kind = SecretPlain, nss_key = key, nss_field = FieldValue\<rparr>])
       [''auth_key'', ''client_secret'', ''api_token''])"

definition secret_slots :: "network_policy \<Rightarrow> network_secret_slot list" where
  "secret_slots p =
     concat (map credential_secret_slots (np_credentials p))
     @ concat (map tunnel_secret_slots (np_tailscale p))"

definition credential_secret_requirements ::
  "network_credential \<Rightarrow> network_secret_requirement list" where
  "credential_secret_requirements c =
     (let slot = (\<lambda>name. nc_name c @ ''.'' @ name);
          one = (\<lambda>alternatives. [\<lparr>nsr_owner = ''credential '' @ nc_kind c @ ''.'' @ nc_name c,
                                   nsr_alternatives = alternatives\<rparr>])
      in if nc_kind c = ''basic_auth'' then one [[slot ''password'']]
         else if nc_kind c = ''bearer_token'' \<or> nc_kind c = ''header_token'' then one [[slot ''token'']]
         else if nc_kind c = ''github_oauth'' \<or> nc_kind c = ''openai_codex_oauth''
         then one [[slot ''oauth.access_token'', slot ''oauth.expires_at'']]
         else if nc_kind c = ''aws_credential''
         then one [[slot ''profile''], [slot ''access_key_id'', slot ''secret_access_key'']]
         else [])"

definition network_secret_requirements :: "network_policy \<Rightarrow> network_secret_requirement list" where
  "network_secret_requirements p =
     concat (map credential_secret_requirements (np_credentials p))"

section \<open>Name grammars\<close>

definition is_supported_credential_kind :: "string \<Rightarrow> bool" where
  "is_supported_credential_kind kind \<longleftrightarrow>
     kind \<in> {''basic_auth'', ''bearer_token'', ''header_token'', ''github_oauth'',
             ''openai_codex_oauth'', ''aws_credential''}"

definition identifier_char :: "char \<Rightarrow> bool" where
  "identifier_char c \<longleftrightarrow> is_ascii_alphanumeric c \<or> c = CHR ''_'' \<or> c = CHR ''-''"

definition valid_identifier :: "string \<Rightarrow> bool" where
  "valid_identifier value \<longleftrightarrow> value \<noteq> [] \<and> list_all identifier_char value"

definition slot_head_char :: "char \<Rightarrow> bool" where
  "slot_head_char c \<longleftrightarrow> is_ascii_lowercase c \<or> is_ascii_digit c \<or> c = CHR ''_''"

definition valid_slot_segment :: "string \<Rightarrow> bool" where
  "valid_slot_segment segment \<longleftrightarrow>
     (case segment of
        [] \<Rightarrow> False
      | c # cs \<Rightarrow> slot_head_char c \<and> list_all (\<lambda>x. slot_head_char x \<or> x = CHR ''-'') cs)"

definition valid_secret_slot :: "string \<Rightarrow> bool" where
  "valid_secret_slot value \<longleftrightarrow>
     value \<noteq> [] \<and> list_all valid_slot_segment (split_on (CHR ''.'') value)"

definition valid_target_selector :: "string \<Rightarrow> bool" where
  "valid_target_selector value \<longleftrightarrow>
     list_ex (\<lambda>p. prefix p value \<and> length p < length value) [''name:'', ''id:'', ''label:'']"

end
