(* ===== verification/Validator.thy ===== *)
theory Validator
  imports Canonical
begin

text \<open>
  Validation and loading of a network policy (\<open>common/policy/src/canonical.rs\<close>,
  \<open>PolicyValidator\<close> and the loaders of \<open>NetworkPolicy\<close>). A pass of the validator appends to its
  list of diagnostics; here each pass returns the diagnostics it appends, in order, and the tables
  it builds. The lower-casing of \<open>str\<close> and the CEL engine are parameters, as in \<open>Condition\<close>.
\<close>

section \<open>Validation\<close>

definition perror :: "string \<Rightarrow> string \<Rightarrow> diagnostic list" where
  "perror summary detail = [diagnostic_error ''<policy>'' 0 0 summary detail]"

definition pwarning :: "string \<Rightarrow> string \<Rightarrow> diagnostic list" where
  "pwarning summary detail = [diagnostic_warning ''<policy>'' 0 0 summary detail]"

definition pcheck :: "bool \<Rightarrow> string \<Rightarrow> string \<Rightarrow> diagnostic list" where
  "pcheck bad summary detail = (if bad then perror summary detail else [])"

record endpoint_info =
  ei_kind :: string
  ei_family :: endpoint_family
  ei_supports_credentials :: bool

definition validate_version :: "nat \<Rightarrow> diagnostic list" where
  "validate_version version =
     pcheck (version \<noteq> POLICY_VERSION) ''unsupported policy version''
       (''expected version '' @ show_nat POLICY_VERSION @ '', got '' @ show_nat version)"

definition validate_audit_settings :: "network_audit_settings \<Rightarrow> diagnostic list" where
  "validate_audit_settings s =
     (if na_body_buffer_bytes s < na_body_storage_bytes s
      then pwarning ''audit body buffer is smaller than body storage''
             (''body_buffer_bytes < body_storage_bytes makes the effective ''
              @ ''storage limit unreachable'')
      else [])"

definition validate_name :: "string \<Rightarrow> string \<Rightarrow> diagnostic list" where
  "validate_name kind name =
     pcheck (name = ''silo'' \<and> (kind = ''credential'' \<or> kind = ''tailscale tunnel''))
       ''reserved policy object name'' (kind @ '' name silo is reserved for generated secrets'')
     @ pcheck (\<not> valid_identifier name) ''invalid policy object name''
         (kind @ '' name '' @ debug_str name @ '' must use the policy identifier grammar'')"

definition validate_endpoint_descriptor ::
  "network_endpoint \<Rightarrow> endpoint_definition \<Rightarrow> diagnostic list" where
  "validate_endpoint_descriptor e d =
     (let about = ''endpoint '' @ ne_name e @ '' type '' @ ne_kind e;
          expected_tls = (if ed_terminates_tls d then ''terminate'' else ''none'');
          expected_capabilities = (if ed_supports_credentials d then [''credential-injection''] else [])
      in pcheck (ne_family e \<noteq> family_as_str (ed_family d)) ''endpoint family mismatch''
           (about @ '' requires family '' @ family_as_str (ed_family d))
         @ pcheck (ne_transport e \<noteq> transport_as_str (ed_transport d)) ''endpoint transport mismatch''
             (about @ '' requires transport '' @ transport_as_str (ed_transport d))
         @ pcheck (ne_tls_mode e \<noteq> expected_tls) ''endpoint TLS mode mismatch''
             (about @ '' requires TLS mode '' @ expected_tls)
         @ pcheck (ne_capabilities e \<noteq> expected_capabilities) ''endpoint capability mismatch''
             (about @ '' has unexpected capabilities''))"

definition bad_port_range :: "port_range \<Rightarrow> bool" where
  "bad_port_range r \<longleftrightarrow> pt_start r = 0 \<or> pt_end r = 0 \<or> pt_start r > pt_end r"

definition validate_ip_endpoint :: "network_endpoint \<Rightarrow> diagnostic list" where
  "validate_ip_endpoint e =
     pcheck (ne_hosts e \<noteq> []) ''ip endpoint cannot declare hosts''
       (''endpoint '' @ ne_name e @ '' has hosts'')
     @ concat (map (\<lambda>r. pcheck (bad_port_range r) ''invalid port range''
         (''endpoint '' @ ne_name e @ '' has port range '' @ show_nat (pt_start r) @ ''-''
          @ show_nat (pt_end r))) (ne_ports e))"

fun validate_hosts :: "string \<Rightarrow> string list \<Rightarrow> string set \<Rightarrow> diagnostic list \<times> string set" where
  "validate_hosts name [] exact_hosts = ([], exact_hosts)"
| "validate_hosts name (host # hosts) exact_hosts =
     (let exact = (\<not> prefix ''*.'' host);
          (ds, exact_hosts') =
            validate_hosts name hosts (if exact then insert host exact_hosts else exact_hosts)
      in (pcheck (trim host = []) ''empty host binding''
            (''endpoint '' @ name @ '' has an empty host binding'')
          @ pcheck (exact \<and> host \<in> exact_hosts) ''duplicate exact host binding''
              (''host '' @ host @ '' is declared more than once'')
          @ ds, exact_hosts'))"

definition validate_http_endpoint ::
  "network_endpoint \<Rightarrow> string set \<Rightarrow> diagnostic list \<times> string set" where
  "validate_http_endpoint e exact_hosts =
     (let (ds, exact_hosts') = validate_hosts (ne_name e) (ne_hosts e) exact_hosts
      in (pcheck (ne_source_cidrs e \<noteq> [] \<or> ne_destination_cidrs e \<noteq> [] \<or>
                  ne_protocol e \<noteq> IpAny \<or> ne_ports e \<noteq> []) ''http endpoint has ip-only fields''
            (''endpoint '' @ ne_name e @ '' has fields only valid for ip endpoints'')
          @ pcheck (ne_hosts e = []) ''http endpoint requires hosts''
              (''endpoint '' @ ne_name e @ '' has no hosts'')
          @ ds, exact_hosts'))"

definition config_array :: "network_endpoint \<Rightarrow> string \<Rightarrow> json list option" where
  "config_array e key = Option.bind (bt_get key (ne_config e)) json_as_array"

definition config_str :: "network_endpoint \<Rightarrow> string \<Rightarrow> string option" where
  "config_str e key = Option.bind (bt_get key (ne_config e)) json_as_str"

definition bad_registry_names :: "json list \<Rightarrow> string list \<Rightarrow> bool" where
  "bad_registry_names registries names \<longleftrightarrow>
     length names \<noteq> length registries \<or> \<not> distinct names \<or>
     list_ex (\<lambda>r. package_repository_parse r = None) names"

definition bad_package_age :: "network_endpoint \<Rightarrow> bool" where
  "bad_package_age e \<longleftrightarrow>
     (case bt_get ''filter_package_age'' (ne_config e) of
        None \<Rightarrow> False
      | Some v \<Rightarrow> (case json_as_u64 v of None \<Rightarrow> True | Some hours \<Rightarrow> hours = 0 \<or> hours > 2 ^ 32 - 1))"

definition validate_registry_config :: "network_endpoint \<Rightarrow> diagnostic list" where
  "validate_registry_config e =
     (let about = ''endpoint '' @ ne_name e in
      case config_array e ''registries'' of
        None \<Rightarrow> perror ''registry endpoint requires registries'' (about @ '' has no canonical registries'')
      | Some registries \<Rightarrow>
          let names = List.map_filter json_as_str registries in
          pcheck (bad_registry_names registries names) ''invalid canonical registries''
            (about @ '' has invalid registry names'')
          @ pcheck (ne_hosts e \<noteq> registry_hosts names) ''registry endpoint bindings mismatch''
              (about @ '' has unexpected registry host bindings'')
          @ (case config_str e ''malware_feed'' of
               None \<Rightarrow> perror ''registry endpoint requires malware feed'' (about @ '' has no malware_feed'')
             | Some base_url \<Rightarrow>
                 (case parse_https_origin base_url of
                    None \<Rightarrow> perror ''invalid registry malware feed''
                              (about @ '' malware_feed must use HTTPS'')
                  | Some (host, port) \<Rightarrow>
                      pcheck (ne_egress e \<noteq> [\<lparr>eg_host = host, eg_port = port, eg_tls = True\<rparr>])
                        ''registry endpoint egress mismatch''
                        (about @ '' has unexpected intelligence egress'')
                      @ pcheck (bad_package_age e) ''invalid package age filter''
                          (about @ '' filter_package_age must be a positive integer'')
                      @ pcheck (length (ne_config e) \<noteq>
                            (if bt_get ''filter_package_age'' (ne_config e) \<noteq> None then 3 else 2))
                          ''registry endpoint has unknown config''
                          (about @ '' canonical config is not recognized''))))"

definition validate_registry_endpoint ::
  "network_endpoint \<Rightarrow> string set \<Rightarrow> diagnostic list \<times> string set" where
  "validate_registry_endpoint e exact_hosts =
     (let (ds, exact_hosts') = validate_http_endpoint e exact_hosts
      in (ds @ validate_registry_config e, exact_hosts'))"

definition validate_schema ::
  "endpoint_schema \<Rightarrow> network_endpoint \<Rightarrow> string set \<Rightarrow> diagnostic list \<times> string set" where
  "validate_schema schema e exact_hosts =
     (case schema of
        SchemaIp \<Rightarrow> (validate_ip_endpoint e, exact_hosts)
      | SchemaHosts \<Rightarrow> validate_http_endpoint e exact_hosts
      | SchemaRegistries \<Rightarrow> validate_registry_endpoint e exact_hosts)"

definition endpoint_info_of :: "network_endpoint \<Rightarrow> endpoint_definition \<Rightarrow> endpoint_info" where
  "endpoint_info_of e d = \<lparr>ei_kind = ne_kind e, ei_family = ed_family d,
                          ei_supports_credentials = ed_supports_credentials d\<rparr>"

fun validate_endpoints ::
  "plugin_registry \<Rightarrow> network_endpoint list \<Rightarrow> (string, endpoint_info) btree \<Rightarrow> string set
     \<Rightarrow> diagnostic list \<times> (string, endpoint_info) btree" where
  "validate_endpoints plugins [] by_name exact_hosts = ([], by_name)"
| "validate_endpoints plugins (e # es) by_name exact_hosts =
     (case registry_endpoint plugins (ne_kind e) of
        None \<Rightarrow>
          let (ds, result) = validate_endpoints plugins es by_name exact_hosts
          in (validate_name ''endpoint'' (ne_name e)
              @ perror ''unsupported endpoint kind''
                  (''endpoint '' @ ne_name e @ '' uses unsupported kind '' @ ne_kind e)
              @ ds, result)
      | Some d \<Rightarrow>
          let (sds, exact_hosts') = validate_schema (ed_schema d) e exact_hosts;
              (ds, result) = validate_endpoints plugins es
                 (bt_insert (ne_name e) (endpoint_info_of e d) by_name) exact_hosts'
          in (validate_name ''endpoint'' (ne_name e)
              @ validate_endpoint_descriptor e d
              @ pcheck (bt_get (ne_name e) by_name \<noteq> None) ''duplicate endpoint name''
                  (''endpoint name '' @ ne_name e @ '' is declared more than once'')
              @ sds @ ds, result))"

definition validate_http_condition ::
  "(string \<Rightarrow> string) \<Rightarrow> ('p, 'v) cel \<Rightarrow> string \<Rightarrow> string \<Rightarrow> diagnostic list" where
  "validate_http_condition lower engine source summary =
     (case http_condition_compile lower engine source of
        Inl err \<Rightarrow> perror summary err
      | Inr _ \<Rightarrow> [])"

definition validate_credential ::
  "(string \<Rightarrow> string) \<Rightarrow> ('p, 'v) cel \<Rightarrow> (string, endpoint_info) btree \<Rightarrow> network_credential
     \<Rightarrow> diagnostic list" where
  "validate_credential lower engine endpoints c =
     pcheck (\<not> is_supported_credential_kind (nc_kind c)) ''unsupported credential kind''
       (''credential '' @ nc_name c @ '' uses unsupported kind '' @ nc_kind c)
     @ (case bt_get (nc_endpoint c) endpoints of
          None \<Rightarrow> perror ''credential references unknown endpoint''
                    (''credential '' @ nc_name c @ '' references endpoint '' @ nc_endpoint c)
        | Some e \<Rightarrow>
            pcheck (\<not> ei_supports_credentials e) ''credential endpoint must be https''
              (''credential '' @ nc_name c @ '' references '' @ ei_kind e @ '' endpoint ''
               @ nc_endpoint c)
            @ (case nc_condition c of
                 None \<Rightarrow> []
               | Some condition \<Rightarrow>
                   validate_http_condition lower engine condition ''credential condition''))"

fun validate_credentials ::
  "(string \<Rightarrow> string) \<Rightarrow> ('p, 'v) cel \<Rightarrow> (string, endpoint_info) btree \<Rightarrow> network_credential list
     \<Rightarrow> (string, string) btree \<Rightarrow> diagnostic list \<times> (string, string) btree" where
  "validate_credentials lower engine endpoints [] by_name = ([], by_name)"
| "validate_credentials lower engine endpoints (c # cs) by_name =
     (let (ds, result) = validate_credentials lower engine endpoints cs
                           (bt_insert (nc_name c) (nc_endpoint c) by_name)
      in (validate_name ''credential'' (nc_name c)
          @ pcheck (bt_get (nc_name c) by_name \<noteq> None) ''duplicate credential name''
              (''credential name '' @ nc_name c @ '' is declared more than once'')
          @ validate_credential lower engine endpoints c
          @ ds, result))"

fun validate_tunnel_names :: "tailscale_tunnel list \<Rightarrow> string set \<Rightarrow> diagnostic list \<times> string set" where
  "validate_tunnel_names [] names = ([], names)"
| "validate_tunnel_names (t # ts) names =
     (let (ds, result) = validate_tunnel_names ts (insert (tt_name t) names)
      in (validate_name ''tailscale tunnel'' (tt_name t)
          @ pcheck (tt_name t \<in> names) ''duplicate tailscale tunnel name''
              (''tailscale tunnel name '' @ tt_name t @ '' is declared more than once'')
          @ ds, result))"

definition validate_tunnels :: "tailscale_tunnel list \<Rightarrow> diagnostic list \<times> string set" where
  "validate_tunnels tunnels =
     (let (ds, names) = validate_tunnel_names tunnels {}
      in ((case tunnels of
             first # second # _ \<Rightarrow>
               perror ''multiple tailscale tunnels''
                 (''at most one tailscale declaration is allowed: '' @ debug_str (tt_name first)
                  @ '' and '' @ debug_str (tt_name second))
           | _ \<Rightarrow> [])
          @ ds, names))"

record rule_scope =
  rs_family :: "endpoint_family option"
  rs_names :: "string set"

fun resolve_endpoints ::
  "(string, endpoint_info) btree \<Rightarrow> string list \<Rightarrow> rule_scope \<Rightarrow> diagnostic list \<times> rule_scope" where
  "resolve_endpoints endpoints [] scope = ([], scope)"
| "resolve_endpoints endpoints (name # names) scope =
     (case bt_get name endpoints of
        None \<Rightarrow>
          let (ds, result) = resolve_endpoints endpoints names scope
          in (perror ''rule references unknown endpoint'' (''rule references endpoint '' @ name) @ ds,
              result)
      | Some e \<Rightarrow>
          let mismatch = (case rs_family scope of None \<Rightarrow> False | Some f \<Rightarrow> f \<noteq> ei_family e);
              family = (case rs_family scope of None \<Rightarrow> Some (ei_family e) | Some f \<Rightarrow> Some f);
              (ds, result) = resolve_endpoints endpoints names
                 \<lparr>rs_family = family, rs_names = insert name (rs_names scope)\<rparr>
          in (pcheck mismatch ''rule endpoints must share a family''
                ''all endpoints on one rule must resolve to the same family'' @ ds, result))"

definition validate_rule_condition ::
  "(string \<Rightarrow> string) \<Rightarrow> ('p, 'v) cel \<Rightarrow> plugin_registry \<Rightarrow> endpoint_family option \<Rightarrow> string
     \<Rightarrow> diagnostic list" where
  "validate_rule_condition lower engine plugins family condition =
     (case family of
        None \<Rightarrow> []
      | Some f \<Rightarrow>
          (case map_option fam_condition (registry_family plugins f) of
             Some CondHttp \<Rightarrow> validate_http_condition lower engine condition ''rule condition''
           | Some CondFacet \<Rightarrow>
               (case facet_condition_compile lower engine condition f plugins of
                  Inl err \<Rightarrow> perror ''rule condition'' err
                | Inr _ \<Rightarrow> [])
           | Some CondNone \<Rightarrow> perror ''condition requires condition-capable endpoints''
                               ''conditions are not valid on this endpoint family''
           | None \<Rightarrow> []))"

definition validate_rule_tunnel :: "string set \<Rightarrow> network_rule \<Rightarrow> diagnostic list" where
  "validate_rule_tunnel tunnels r =
     (case nr_tunnel r of
        None \<Rightarrow> []
      | Some t \<Rightarrow>
          pcheck (t \<notin> tunnels) ''rule references unknown tunnel'' (''rule references tunnel '' @ t)
          @ pcheck (nr_verdict r \<noteq> Allow) ''tunnel requires allow verdict''
              ''rules with tunnel references must be explicit allow rules'')"

definition validate_rule_credential ::
  "(string, string) btree \<Rightarrow> string set \<Rightarrow> rule_scope \<Rightarrow> network_rule \<Rightarrow> diagnostic list" where
  "validate_rule_credential credentials tunnels scope r =
     (case nr_credential r of
        None \<Rightarrow> validate_rule_tunnel tunnels r
      | Some c \<Rightarrow>
          (case bt_get c credentials of
             None \<Rightarrow> perror ''rule references unknown credential''
                       (''rule references credential '' @ c)
           | Some bound \<Rightarrow>
               pcheck (rs_family scope \<noteq> Some FamilyHttp)
                 ''credential predicate requires http-family endpoints''
                 ''rule.credential is only valid on http-family rules''
               @ pcheck (bound \<notin> rs_names scope)
                   ''credential predicate is not compatible with rule endpoints''
                   (''credential '' @ c @ '' is bound to endpoint '' @ bound)
               @ validate_rule_tunnel tunnels r))"

definition validate_rule ::
  "(string \<Rightarrow> string) \<Rightarrow> ('p, 'v) cel \<Rightarrow> plugin_registry \<Rightarrow> (string, endpoint_info) btree
     \<Rightarrow> (string, string) btree \<Rightarrow> string set \<Rightarrow> network_rule \<Rightarrow> diagnostic list" where
  "validate_rule lower engine plugins endpoints credentials tunnels r =
     (case nr_name r of None \<Rightarrow> [] | Some name \<Rightarrow> validate_name ''rule'' name)
     @ (if nr_endpoints r = []
        then perror ''rule requires endpoints'' ''rule endpoints must not be empty''
        else
          let (ds, scope) = resolve_endpoints endpoints (nr_endpoints r)
                              \<lparr>rs_family = None, rs_names = {}\<rparr>
          in ds
             @ (case nr_condition r of
                  None \<Rightarrow> []
                | Some condition \<Rightarrow>
                    validate_rule_condition lower engine plugins (rs_family scope) condition)
             @ validate_rule_credential credentials tunnels scope r)"

definition validate_rules ::
  "(string \<Rightarrow> string) \<Rightarrow> ('p, 'v) cel \<Rightarrow> plugin_registry \<Rightarrow> network_rule list
     \<Rightarrow> (string, endpoint_info) btree \<Rightarrow> (string, string) btree \<Rightarrow> string set \<Rightarrow> diagnostic list" where
  "validate_rules lower engine plugins rules endpoints credentials tunnels =
     concat (map (validate_rule lower engine plugins endpoints credentials tunnels) rules)"

definition validate_forward_kind :: "string set \<Rightarrow> network_forward \<Rightarrow> diagnostic list" where
  "validate_forward_kind tunnels f =
     (if nf_kind f = ''host''
      then pcheck (nf_tunnel f \<noteq> None) ''host forward cannot reference a tunnel''
             (''forward '' @ nf_name f @ '' is a host forward'')
      else if nf_kind f = ''tailscale''
      then (case nf_tunnel f of
              Some t \<Rightarrow> pcheck (t \<notin> tunnels) ''forward references unknown tunnel''
                          (''forward '' @ nf_name f @ '' references tunnel '' @ t)
            | None \<Rightarrow> pcheck (nf_target f \<noteq> ''self'') ''missing forward tunnel''
                        (''forward '' @ nf_name f @ '' requires a tunnel unless its target is self''))
      else perror ''unsupported forward kind''
             (''forward '' @ nf_name f @ '' uses unsupported kind '' @ nf_kind f))"

definition forward_transport :: "network_forward \<Rightarrow> (string, nat option) result" where
  "forward_transport f =
     validate_forward_transport (nf_kind f) (nf_target f) (nf_protocol f) (nf_tls f) (nf_listen f)"

definition validate_listener :: "nat set \<Rightarrow> network_forward \<Rightarrow> diagnostic list \<times> nat set" where
  "validate_listener listeners f =
     (case forward_transport f of
        Inl detail \<Rightarrow> (perror ''invalid forward transport''
                         (''forward '' @ nf_name f @ '': '' @ detail), listeners)
      | Inr None \<Rightarrow> ([], listeners)
      | Inr (Some port) \<Rightarrow>
          (pcheck (port \<in> listeners) ''duplicate forward listener''
             (''forward '' @ nf_name f @ '' duplicates Tailscale listener :'' @ show_nat port),
           insert port listeners))"

fun validate_forwards ::
  "string set \<Rightarrow> network_forward list \<Rightarrow> string set \<Rightarrow> nat set \<Rightarrow> diagnostic list" where
  "validate_forwards tunnels [] names listeners = []"
| "validate_forwards tunnels (f # fs) names listeners =
     (let (lds, listeners') = validate_listener listeners f
      in validate_name ''forward'' (nf_name f)
         @ pcheck (nf_name f \<in> names) ''duplicate forward name''
             (''forward name '' @ nf_name f @ '' is declared more than once'')
         @ validate_forward_kind tunnels f
         @ pcheck (nf_target_port f = 0) ''invalid forward target port''
             (''forward '' @ nf_name f @ '' target_port must be greater than 0'')
         @ pcheck (\<not> (valid_target_selector (nf_target f) \<or>
                      (nf_kind f = ''tailscale'' \<and> nf_target f = ''self'')))
             ''invalid forward target selector''
             (''forward '' @ nf_name f @ '' target must start with name:, id:, or label:, ''
              @ ''or be self for Tailscale'')
         @ lds
         @ validate_forwards tunnels fs (insert (nf_name f) names) listeners')"

definition validate_secret_slots :: "network_policy \<Rightarrow> diagnostic list" where
  "validate_secret_slots p =
     concat (map (\<lambda>slot. pcheck (\<not> valid_secret_slot (nss_name slot)) ''invalid network secret slot''
       (''derived slot '' @ nss_name slot @ '' is not a valid lowercase slot path'')) (secret_slots p))"

definition validate :: "(string \<Rightarrow> string) \<Rightarrow> ('p, 'v) cel \<Rightarrow> network_policy \<Rightarrow> diagnostic list" where
  "validate lower engine p =
     (let plugins = builtins;
          (eds, endpoints) = validate_endpoints plugins (np_endpoints p) [] {};
          (cds, credentials) = validate_credentials lower engine endpoints (np_credentials p) [];
          (tds, tunnels) = validate_tunnels (np_tailscale p)
      in validate_version (np_version p)
         @ validate_audit_settings (ns_audit (np_settings p))
         @ eds @ cds @ tds
         @ validate_rules lower engine plugins (np_rules p) endpoints credentials tunnels
         @ validate_forwards tunnels (np_forwards p) {} {}
         @ validate_secret_slots p)"

section \<open>Loading\<close>

record policy_load_error =
  pe_filename :: string
  pe_diagnostics :: "diagnostic list"

definition policy_load_error_text :: "policy_load_error \<Rightarrow> string" where
  "policy_load_error_text e =
     (let errors = error_diagnostics (pe_diagnostics e)
      in ''load network policy '' @ pe_filename e @ '' failed with '' @ show_nat (length errors)
           @ '' error(s)'' @ concat (map diagnostic_text errors))"

text \<open>\<open>impl From<LoadError> for PolicyLoadError\<close>.\<close>

definition from_load_error :: "load_error \<Rightarrow> policy_load_error" where
  "from_load_error e = \<lparr>pe_filename = le_filename e, pe_diagnostics = le_diagnostics e\<rparr>"

definition load_failure :: "string \<Rightarrow> diagnostic \<Rightarrow> policy_load_error" where
  "load_failure filename d = \<lparr>pe_filename = filename, pe_diagnostics = [d]\<rparr>"

text \<open>The tail both loaders share: normalise, validate, refuse on an error diagnostic.\<close>

definition accept_policy ::
  "(string \<Rightarrow> string) \<Rightarrow> ('p, 'v) cel \<Rightarrow> string \<Rightarrow> network_policy
     \<Rightarrow> (policy_load_error, network_policy) result" where
  "accept_policy lower engine filename p =
     (let policy = normalize p; diagnostics = validate lower engine policy
      in if error_diagnostics diagnostics \<noteq> []
         then Err \<lparr>pe_filename = filename, pe_diagnostics = diagnostics\<rparr>
         else Ok policy)"

text \<open>
  \<open>serde_json::from_str\<close> on the canonical format is the parameter \<open>parse\<close>: it returns the value, or
  the line, column and message of the error. Reading a file is the parameter \<open>content\<close>.
\<close>

type_synonym json_parser = "string \<Rightarrow> (nat \<times> nat \<times> string, network_policy) result"

definition from_json_source ::
  "(string \<Rightarrow> string) \<Rightarrow> ('p, 'v) cel \<Rightarrow> json_parser \<Rightarrow> string \<Rightarrow> string
     \<Rightarrow> (policy_load_error, network_policy) result" where
  "from_json_source lower engine parse filename source =
     rbind (map_err (\<lambda>(line, column, message).
              load_failure filename
                (diagnostic_error filename line column ''failed to parse policy JSON'' message))
            (parse source))
       (accept_policy lower engine filename)"

definition from_json_file ::
  "(string \<Rightarrow> string) \<Rightarrow> ('p, 'v) cel \<Rightarrow> json_parser \<Rightarrow> string \<Rightarrow> (string, string) result
     \<Rightarrow> (policy_load_error, network_policy) result" where
  "from_json_file lower engine parse path content =
     rbind (map_err (\<lambda>err. load_failure path
              (diagnostic_error path 0 0 ''failed to read policy JSON'' err)) content)
       (from_json_source lower engine parse path)"

definition from_json_str ::
  "(string \<Rightarrow> string) \<Rightarrow> ('p, 'v) cel \<Rightarrow> json_parser \<Rightarrow> string
     \<Rightarrow> (policy_load_error, network_policy) result" where
  "from_json_str lower engine parse source = from_json_source lower engine parse ''<json>'' source"

definition from_json_slice ::
  "(string \<Rightarrow> string) \<Rightarrow> ('p, 'v) cel \<Rightarrow> json_parser \<Rightarrow> (string \<Rightarrow> string) \<Rightarrow> string
     \<Rightarrow> (policy_load_error, network_policy) result" where
  "from_json_slice lower engine parse utf8_error source =
     (if valid_utf8 source then from_json_source lower engine parse ''<json>'' source
      else Err (load_failure ''<json>''
             (diagnostic_error ''<json>'' 0 0 ''policy JSON is not UTF-8'' (utf8_error source))))"

text \<open>The policy a parsed HCL policy lowers to, before it is normalised.\<close>

definition hcl_network_policy :: "'p policy \<Rightarrow> network_policy" where
  "hcl_network_policy policy =
     fold lower_document (po_documents policy)
       (policy_empty\<lparr>np_metadata :=
          [(''hcl'', JObject [(''source_hash'', JString (po_hash policy))])]\<rparr>)"

definition from_hcl_policy ::
  "(string \<Rightarrow> string) \<Rightarrow> ('p, 'v) cel \<Rightarrow> string \<Rightarrow> 'p policy
     \<Rightarrow> (policy_load_error, network_policy) result" where
  "from_hcl_policy lower engine filename policy =
     accept_policy lower engine filename (hcl_network_policy policy)"

section \<open>Validity, declaratively\<close>

text \<open>What a valid policy is, with no order of passes and no tables.\<close>

definition descriptor_ok :: "network_endpoint \<Rightarrow> endpoint_definition \<Rightarrow> bool" where
  "descriptor_ok e d \<longleftrightarrow>
     ne_family e = family_as_str (ed_family d) \<and>
     ne_transport e = transport_as_str (ed_transport d) \<and>
     ne_tls_mode e = (if ed_terminates_tls d then ''terminate'' else ''none'') \<and>
     ne_capabilities e = (if ed_supports_credentials d then [''credential-injection''] else [])"

definition registry_config_ok :: "network_endpoint \<Rightarrow> bool" where
  "registry_config_ok e \<longleftrightarrow>
     (\<exists>registries names base_url host port.
        bt_get ''registries'' (ne_config e) = Some (JArray registries) \<and>
        registries = map JString names \<and> distinct names \<and>
        (\<forall>r\<in>set names. package_repository_parse r \<noteq> None) \<and>
        ne_hosts e = registry_hosts names \<and>
        bt_get ''malware_feed'' (ne_config e) = Some (JString base_url) \<and>
        parse_https_origin base_url = Some (host, port) \<and>
        ne_egress e = [\<lparr>eg_host = host, eg_port = port, eg_tls = True\<rparr>] \<and>
        (case bt_get ''filter_package_age'' (ne_config e) of
           None \<Rightarrow> length (ne_config e) = 2
         | Some v \<Rightarrow> length (ne_config e) = 3 \<and>
             (\<exists>hours. v = JNumber (PosInt hours) \<and> 1 \<le> hours \<and> hours \<le> 2 ^ 32 - 1)))"

definition http_fields_ok :: "network_endpoint \<Rightarrow> bool" where
  "http_fields_ok e \<longleftrightarrow>
     ne_source_cidrs e = [] \<and> ne_destination_cidrs e = [] \<and> ne_protocol e = IpAny \<and>
     ne_ports e = [] \<and> ne_hosts e \<noteq> [] \<and> (\<forall>h\<in>set (ne_hosts e). trim h \<noteq> [])"

fun schema_ok :: "endpoint_schema \<Rightarrow> network_endpoint \<Rightarrow> bool" where
  "schema_ok SchemaIp e \<longleftrightarrow>
     ne_hosts e = [] \<and> (\<forall>r\<in>set (ne_ports e). 1 \<le> pt_start r \<and> pt_start r \<le> pt_end r)"
| "schema_ok SchemaHosts e \<longleftrightarrow> http_fields_ok e"
| "schema_ok SchemaRegistries e \<longleftrightarrow> http_fields_ok e \<and> registry_config_ok e"

definition endpoint_ok :: "plugin_registry \<Rightarrow> network_endpoint \<Rightarrow> bool" where
  "endpoint_ok plugins e \<longleftrightarrow>
     valid_identifier (ne_name e) \<and>
     (case registry_endpoint plugins (ne_kind e) of
        None \<Rightarrow> False
      | Some d \<Rightarrow> descriptor_ok e d \<and> schema_ok (ed_schema d) e)"

definition exact_hosts_of :: "plugin_registry \<Rightarrow> network_endpoint \<Rightarrow> string list" where
  "exact_hosts_of plugins e =
     (case registry_endpoint plugins (ne_kind e) of
        None \<Rightarrow> []
      | Some d \<Rightarrow> if ed_schema d = SchemaIp then []
                  else filter (\<lambda>h. \<not> prefix ''*.'' h) (ne_hosts e))"

definition info_of :: "plugin_registry \<Rightarrow> network_endpoint \<Rightarrow> endpoint_info option" where
  "info_of plugins e = map_option (endpoint_info_of e) (registry_endpoint plugins (ne_kind e))"

definition endpoint_named ::
  "plugin_registry \<Rightarrow> network_endpoint list \<Rightarrow> string \<Rightarrow> endpoint_info \<Rightarrow> bool" where
  "endpoint_named plugins es name i \<longleftrightarrow>
     (\<exists>e\<in>set es. ne_name e = name \<and> info_of plugins e = Some i)"

section \<open>Clean passes\<close>

definition clean :: "diagnostic list \<Rightarrow> bool" where
  "clean ds \<longleftrightarrow> error_diagnostics ds = []"

lemma clean_simps [simp]:
  "clean []"
  "clean (a @ b) \<longleftrightarrow> clean a \<and> clean b"
  "clean (perror s d) \<longleftrightarrow> False"
  "clean (pwarning s d)"
  "clean (pcheck bad s d) \<longleftrightarrow> \<not> bad"
  "clean (concat dss) \<longleftrightarrow> (\<forall>ds\<in>set dss. clean ds)"
  by (auto simp: clean_def error_diagnostics_def perror_def pwarning_def pcheck_def
      diagnostic_error_def diagnostic_warning_def filter_concat)

lemma clean_name [simp]:
  "clean (validate_name kind name) \<longleftrightarrow>
     valid_identifier name \<and> \<not> (name = ''silo'' \<and> (kind = ''credential'' \<or> kind = ''tailscale tunnel''))"
  by (auto simp: validate_name_def)

lemma clean_descriptor: "clean (validate_endpoint_descriptor e d) \<longleftrightarrow> descriptor_ok e d"
  by (auto simp: validate_endpoint_descriptor_def descriptor_ok_def Let_def)

lemma clean_hosts:
  "clean (fst (validate_hosts name hosts H)) \<longleftrightarrow>
     (\<forall>h\<in>set hosts. trim h \<noteq> []) \<and>
     distinct (filter (\<lambda>h. \<not> prefix ''*.'' h) hosts) \<and>
     (\<forall>h\<in>set (filter (\<lambda>h. \<not> prefix ''*.'' h) hosts). h \<notin> H)"
  by (induction name hosts H rule: validate_hosts.induct) (auto simp: Let_def split: prod.splits)

lemma hosts_table:
  "snd (validate_hosts name hosts H) = H \<union> set (filter (\<lambda>h. \<not> prefix ''*.'' h) hosts)"
  by (induction name hosts H rule: validate_hosts.induct) (auto simp: Let_def split: prod.splits)

lemma clean_http:
  "clean (fst (validate_http_endpoint e H)) \<longleftrightarrow>
     http_fields_ok e \<and> distinct (filter (\<lambda>h. \<not> prefix ''*.'' h) (ne_hosts e)) \<and>
     (\<forall>h\<in>set (filter (\<lambda>h. \<not> prefix ''*.'' h) (ne_hosts e)). h \<notin> H)"
  using clean_hosts [of "ne_name e" "ne_hosts e" H]
  by (auto simp: validate_http_endpoint_def http_fields_ok_def split: prod.splits)

lemma http_table:
  "snd (validate_http_endpoint e H) = H \<union> set (filter (\<lambda>h. \<not> prefix ''*.'' h) (ne_hosts e))"
  using hosts_table [of "ne_name e" "ne_hosts e" H]
  by (simp add: validate_http_endpoint_def case_prod_beta Let_def)

lemma map_filter_strings:
  "length (List.map_filter json_as_str js) = length js \<longleftrightarrow> js = map JString (List.map_filter json_as_str js)"
proof (induction js)
  case (Cons j js)
  have "length (List.map_filter json_as_str js) \<le> length js"
    by (simp add: List.map_filter_def)
  with Cons show ?case by (cases j) (auto simp: List.map_filter_simps)
qed (simp add: List.map_filter_simps)

lemma map_filter_JString [simp]: "List.map_filter json_as_str (map JString names) = names"
  by (induction names) (auto simp: List.map_filter_simps)

lemma bad_registry_names_iff:
  "\<not> bad_registry_names js (List.map_filter json_as_str js) \<longleftrightarrow>
     (\<exists>names. js = map JString names \<and> distinct names \<and>
       (\<forall>r\<in>set names. package_repository_parse r \<noteq> None))"
  using map_filter_strings [of js] by (auto simp: bad_registry_names_def list_ex_iff)

lemma json_array_iff [simp]: "json_as_array j = Some js \<longleftrightarrow> j = JArray js"
  by (cases j) auto

lemma json_str_iff [simp]: "json_as_str j = Some s \<longleftrightarrow> j = JString s"
  by (cases j) auto

lemma json_u64_iff [simp]: "json_as_u64 j = Some n \<longleftrightarrow> j = JNumber (PosInt n)"
  by (cases j rule: json_as_u64.cases) auto

lemma config_array_iff:
  "config_array e k = Some js \<longleftrightarrow> bt_get k (ne_config e) = Some (JArray js)"
  by (auto simp: config_array_def bind_eq_Some_conv)

lemma config_str_iff:
  "config_str e k = Some s \<longleftrightarrow> bt_get k (ne_config e) = Some (JString s)"
  by (auto simp: config_str_def bind_eq_Some_conv)

lemma package_age_iff:
  "\<not> bad_package_age e \<longleftrightarrow>
     (case bt_get ''filter_package_age'' (ne_config e) of
        None \<Rightarrow> True
      | Some v \<Rightarrow> \<exists>hours. v = JNumber (PosInt hours) \<and> 1 \<le> hours \<and> hours \<le> 2 ^ 32 - 1)"
  by (auto simp: bad_package_age_def split: option.splits)

lemma clean_registry_branches:
  "clean (validate_registry_config e) \<longleftrightarrow>
     (\<exists>js base_url host port. config_array e ''registries'' = Some js \<and>
        \<not> bad_registry_names js (List.map_filter json_as_str js) \<and>
        ne_hosts e = registry_hosts (List.map_filter json_as_str js) \<and>
        config_str e ''malware_feed'' = Some base_url \<and>
        parse_https_origin base_url = Some (host, port) \<and>
        ne_egress e = [\<lparr>eg_host = host, eg_port = port, eg_tls = True\<rparr>] \<and>
        \<not> bad_package_age e \<and>
        length (ne_config e) = (if bt_get ''filter_package_age'' (ne_config e) \<noteq> None then 3 else 2))"
  by (cases "config_array e ''registries''"; cases "config_str e ''malware_feed''")
    (auto simp: validate_registry_config_def Let_def split: option.splits)

lemma clean_registry: "clean (validate_registry_config e) \<longleftrightarrow> registry_config_ok e"
proof -
  have age: "\<not> bad_package_age e \<and>
      length (ne_config e) = (if bt_get ''filter_package_age'' (ne_config e) \<noteq> None then 3 else 2) \<longleftrightarrow>
      (case bt_get ''filter_package_age'' (ne_config e) of
         None \<Rightarrow> length (ne_config e) = 2
       | Some v \<Rightarrow> length (ne_config e) = 3 \<and>
           (\<exists>hours. v = JNumber (PosInt hours) \<and> 1 \<le> hours \<and> hours \<le> 2 ^ 32 - 1))"
    by (cases "bt_get ''filter_package_age'' (ne_config e)") (auto simp: package_age_iff)
  show ?thesis
    unfolding clean_registry_branches registry_config_ok_def age config_array_iff config_str_iff
      bad_registry_names_iff
    by (intro iffI; elim exE conjE; clarsimp; blast)
qed

lemma clean_ip: "clean (validate_ip_endpoint e) \<longleftrightarrow> schema_ok SchemaIp e"
  by (auto simp: validate_ip_endpoint_def bad_port_range_def Suc_le_eq)

lemma clean_schema:
  assumes "registry_endpoint plugins (ne_kind e) = Some d"
  shows "clean (fst (validate_schema (ed_schema d) e H)) \<longleftrightarrow>
     schema_ok (ed_schema d) e \<and> distinct (exact_hosts_of plugins e) \<and>
     (\<forall>h\<in>set (exact_hosts_of plugins e). h \<notin> H)"
  using assms
  by (cases "ed_schema d")
    (auto simp: validate_schema_def clean_ip clean_http clean_registry exact_hosts_of_def
      validate_registry_endpoint_def case_prod_beta Let_def simp del: schema_ok.simps(1))

lemma schema_table:
  assumes "registry_endpoint plugins (ne_kind e) = Some d"
  shows "snd (validate_schema (ed_schema d) e H) = H \<union> set (exact_hosts_of plugins e)"
  using assms
  by (cases "ed_schema d")
    (simp_all add: validate_schema_def http_table exact_hosts_of_def validate_registry_endpoint_def
      case_prod_beta Let_def)

definition endpoints_ok :: "plugin_registry \<Rightarrow> network_endpoint list \<Rightarrow> bool" where
  "endpoints_ok plugins es \<longleftrightarrow>
     (\<forall>e\<in>set es. endpoint_ok plugins e) \<and> distinct (map ne_name es) \<and>
     distinct (concat (map (exact_hosts_of plugins) es))"

lemma clean_endpoints:
  assumes "bt_wf m"
  shows "clean (fst (validate_endpoints plugins es m H)) \<longleftrightarrow>
     endpoints_ok plugins es \<and> (\<forall>e\<in>set es. bt_get (ne_name e) m = None) \<and>
     (\<forall>h\<in>set (concat (map (exact_hosts_of plugins) es)). h \<notin> H)"
  using assms
proof (induction es arbitrary: m H)
  case (Cons e es)
  show ?case
  proof (cases "registry_endpoint plugins (ne_kind e)")
    case (Some d)
    then show ?thesis
      using Cons.prems
      by (auto simp: Cons.IH case_prod_beta Let_def clean_descriptor clean_schema [OF Some]
          schema_table [OF Some] endpoints_ok_def endpoint_ok_def [of plugins e]) (metis rev_image_eqI)
  qed (simp add: endpoints_ok_def endpoint_ok_def case_prod_beta Let_def)
qed (simp add: endpoints_ok_def)

lemma endpoint_table:
  assumes "bt_wf m" and "clean (fst (validate_endpoints plugins es m H))"
  shows "bt_get n (snd (validate_endpoints plugins es m H)) = Some i \<longleftrightarrow>
     endpoint_named plugins es n i \<or> bt_get n m = Some i"
  using assms
proof (induction es arbitrary: m H)
  case (Cons e es)
  obtain d where d: "registry_endpoint plugins (ne_kind e) = Some d"
    using Cons.prems by (cases "registry_endpoint plugins (ne_kind e)")
      (auto simp: case_prod_beta Let_def)
  let ?H = "snd (validate_schema (ed_schema d) e H)"
  let ?m = "bt_insert (ne_name e) (endpoint_info_of e d) m"
  have clean: "clean (fst (validate_endpoints plugins es ?m ?H))" and "bt_get (ne_name e) m = None"
    using Cons.prems d by (auto simp: case_prod_beta Let_def)
  moreover from Cons.IH [OF _ clean] Cons.prems(1)
  have "bt_get n (snd (validate_endpoints plugins es ?m ?H)) = Some i \<longleftrightarrow>
      endpoint_named plugins es n i \<or> bt_get n ?m = Some i" by simp
  moreover have "\<forall>x\<in>set es. bt_get (ne_name x) ?m = None"
    using clean clean_endpoints Cons.prems(1) by (metis bt.wf_ins)
  ultimately show ?case
    using Cons.prems(1) d
    by (auto simp: case_prod_beta Let_def endpoint_named_def info_of_def split: if_splits)
qed (simp add: endpoint_named_def)

definition credential_ok ::
  "(string \<Rightarrow> string) \<Rightarrow> ('p, 'v) cel \<Rightarrow> (string \<Rightarrow> endpoint_info \<Rightarrow> bool) \<Rightarrow> network_credential
     \<Rightarrow> bool" where
  "credential_ok lower engine named c \<longleftrightarrow>
     valid_identifier (nc_name c) \<and> nc_name c \<noteq> ''silo'' \<and>
     is_supported_credential_kind (nc_kind c) \<and>
     (\<exists>i. named (nc_endpoint c) i \<and> ei_supports_credentials i) \<and>
     (\<forall>condition. nc_condition c = Some condition \<longrightarrow> is_ok (http_condition_compile lower engine condition))"

lemma clean_http_condition [simp]:
  "clean (validate_http_condition lower engine source summary) \<longleftrightarrow>
     is_ok (http_condition_compile lower engine source)"
  by (auto simp: validate_http_condition_def split: sum.splits)

lemma clean_credential:
  assumes "\<And>n i. bt_get n endpoints = Some i \<longleftrightarrow> named n i"
  shows "valid_identifier (nc_name c) \<and> nc_name c \<noteq> ''silo'' \<and>
    clean (validate_credential lower engine endpoints c) \<longleftrightarrow> credential_ok lower engine named c"
  by (cases "bt_get (nc_endpoint c) endpoints"; cases "nc_condition c")
    (auto simp: validate_credential_def credential_ok_def simp flip: assms)

lemma clean_credentials:
  assumes "bt_wf m" and "\<And>n i. bt_get n endpoints = Some i \<longleftrightarrow> named n i"
  shows "clean (fst (validate_credentials lower engine endpoints cs m)) \<longleftrightarrow>
     (\<forall>c\<in>set cs. credential_ok lower engine named c) \<and> distinct (map nc_name cs) \<and>
     (\<forall>c\<in>set cs. bt_get (nc_name c) m = None)"
  using assms(1)
proof (induction cs arbitrary: m)
  case (Cons c cs)
  then show ?case
    by (auto simp: case_prod_beta Let_def clean_credential [OF assms(2), symmetric, of _ _ c])
      (metis rev_image_eqI)
qed simp

lemma credential_table:
  assumes "bt_wf m" and "distinct (map nc_name cs)" and "\<forall>c\<in>set cs. bt_get (nc_name c) m = None"
  shows "bt_get n (snd (validate_credentials lower engine endpoints cs m)) = Some x \<longleftrightarrow>
     (\<exists>c\<in>set cs. nc_name c = n \<and> nc_endpoint c = x) \<or> bt_get n m = Some x"
  using assms
proof (induction cs arbitrary: m)
  case (Cons c cs)
  then have "bt_get n (snd (validate_credentials lower engine endpoints cs
      (bt_insert (nc_name c) (nc_endpoint c) m))) = Some x \<longleftrightarrow>
     (\<exists>c\<in>set cs. nc_name c = n \<and> nc_endpoint c = x) \<or>
     bt_get n (bt_insert (nc_name c) (nc_endpoint c) m) = Some x"
    by (intro Cons.IH) (auto simp: rev_image_eqI)
  with Cons.prems show ?case by (auto simp: case_prod_beta Let_def)
qed simp

lemma tunnel_names_table: "snd (validate_tunnel_names ts N) = N \<union> tt_name ` set ts"
  by (induction ts N rule: validate_tunnel_names.induct) (auto simp: case_prod_beta Let_def)

lemma tunnels_table: "snd (validate_tunnels ts) = tt_name ` set ts"
  by (simp add: validate_tunnels_def case_prod_beta Let_def tunnel_names_table)

definition tunnels_ok :: "tailscale_tunnel list \<Rightarrow> bool" where
  "tunnels_ok ts \<longleftrightarrow>
     length ts \<le> 1 \<and> (\<forall>t\<in>set ts. valid_identifier (tt_name t) \<and> tt_name t \<noteq> ''silo'')"

lemma clean_tunnels: "clean (fst (validate_tunnels ts)) \<longleftrightarrow> tunnels_ok ts"
proof (cases ts)
  case (Cons t us)
  then show ?thesis
    by (cases us) (auto simp: validate_tunnels_def case_prod_beta Let_def tunnels_ok_def)
qed (simp add: validate_tunnels_def tunnels_ok_def)

definition condition_ok ::
  "(string \<Rightarrow> string) \<Rightarrow> ('p, 'v) cel \<Rightarrow> plugin_registry \<Rightarrow> endpoint_family \<Rightarrow> string \<Rightarrow> bool" where
  "condition_ok lower engine plugins family source \<longleftrightarrow>
     (case registry_family plugins family of
        None \<Rightarrow> True
      | Some d \<Rightarrow>
          (case fam_condition d of
             CondHttp \<Rightarrow> is_ok (http_condition_compile lower engine source)
           | CondFacet \<Rightarrow> is_ok (facet_condition_compile lower engine source family plugins)
           | CondNone \<Rightarrow> False))"

definition rule_ok ::
  "(string \<Rightarrow> string) \<Rightarrow> ('p, 'v) cel \<Rightarrow> plugin_registry \<Rightarrow> (string \<Rightarrow> endpoint_info \<Rightarrow> bool)
     \<Rightarrow> network_credential list \<Rightarrow> tailscale_tunnel list \<Rightarrow> network_rule \<Rightarrow> bool" where
  "rule_ok lower engine plugins named cs ts r \<longleftrightarrow>
     (\<forall>name. nr_name r = Some name \<longrightarrow> valid_identifier name) \<and>
     nr_endpoints r \<noteq> [] \<and>
     (\<exists>family.
        (\<forall>name\<in>set (nr_endpoints r). \<exists>i. named name i \<and> ei_family i = family) \<and>
        (\<forall>source. nr_condition r = Some source \<longrightarrow> condition_ok lower engine plugins family source) \<and>
        (\<forall>name. nr_credential r = Some name \<longrightarrow>
           family = FamilyHttp \<and>
           (\<exists>c\<in>set cs. nc_name c = name \<and> nc_endpoint c \<in> set (nr_endpoints r)))) \<and>
     (\<forall>t. nr_tunnel r = Some t \<longrightarrow> t \<in> tt_name ` set ts \<and> nr_verdict r = Allow)"

lemma resolve_names:
  "clean (fst (resolve_endpoints endpoints names scope)) \<Longrightarrow>
    rs_names (snd (resolve_endpoints endpoints names scope)) = rs_names scope \<union> set names"
  by (induction names arbitrary: scope) (auto simp: case_prod_beta Let_def split: option.splits)

lemma clean_resolve_Some:
  "clean (fst (resolve_endpoints endpoints names \<lparr>rs_family = Some f, rs_names = N\<rparr>)) \<longleftrightarrow>
     (\<forall>n\<in>set names. \<exists>i. bt_get n endpoints = Some i \<and> ei_family i = f)"
  by (induction names arbitrary: N) (auto simp: case_prod_beta Let_def split: option.splits)

lemma resolve_family_Some [simp]:
  "rs_family (snd (resolve_endpoints endpoints names \<lparr>rs_family = Some f, rs_names = N\<rparr>)) = Some f"
  by (induction names arbitrary: N) (auto simp: case_prod_beta Let_def split: option.splits)

lemma clean_resolve:
  assumes "names \<noteq> []"
  shows "clean (fst (resolve_endpoints endpoints names \<lparr>rs_family = None, rs_names = N\<rparr>)) \<longleftrightarrow>
     (\<exists>f. \<forall>n\<in>set names. \<exists>i. bt_get n endpoints = Some i \<and> ei_family i = f)"
  using assms
  by (cases names) (auto simp: case_prod_beta Let_def clean_resolve_Some split: option.splits)

lemma resolve_family:
  assumes "names \<noteq> []" and "\<forall>n\<in>set names. \<exists>i. bt_get n endpoints = Some i \<and> ei_family i = f"
  shows "rs_family (snd (resolve_endpoints endpoints names \<lparr>rs_family = None, rs_names = N\<rparr>)) = Some f"
  using assms by (cases names) (auto simp: case_prod_beta Let_def)

lemma clean_rule_condition [simp]:
  "clean (validate_rule_condition lower engine plugins (Some f) source) \<longleftrightarrow>
     condition_ok lower engine plugins f source"
  by (auto simp: validate_rule_condition_def condition_ok_def
      split: option.splits condition_kind.splits sum.splits)

lemma clean_rule_tunnel [simp]:
  "clean (validate_rule_tunnel T r) \<longleftrightarrow> (\<forall>t. nr_tunnel r = Some t \<longrightarrow> t \<in> T \<and> nr_verdict r = Allow)"
  by (auto simp: validate_rule_tunnel_def split: option.splits)

lemma clean_rule_credential:
  "clean (validate_rule_credential credentials T scope r) \<longleftrightarrow>
     (\<forall>c. nr_credential r = Some c \<longrightarrow>
        rs_family scope = Some FamilyHttp \<and> (\<exists>b\<in>rs_names scope. bt_get c credentials = Some b)) \<and>
     (\<forall>t. nr_tunnel r = Some t \<longrightarrow> t \<in> T \<and> nr_verdict r = Allow)"
  by (auto simp: validate_rule_credential_def split: option.splits)

lemma clean_rule:
  assumes "\<And>n i. bt_get n endpoints = Some i \<longleftrightarrow> named n i"
    and "\<And>n x. bt_get n credentials = Some x \<longleftrightarrow> (\<exists>c\<in>set cs. nc_name c = n \<and> nc_endpoint c = x)"
  shows "clean (validate_rule lower engine plugins endpoints credentials (tt_name ` set ts) r) \<longleftrightarrow>
     rule_ok lower engine plugins named cs ts r"
proof (cases "nr_endpoints r = []")
  case False
  define start where "start = \<lparr>rs_family = None :: endpoint_family option, rs_names = {} :: string set\<rparr>"
  define ds where "ds = fst (resolve_endpoints endpoints (nr_endpoints r) start)"
  define scope where "scope = snd (resolve_endpoints endpoints (nr_endpoints r) start)"
  define resolves where "resolves f \<longleftrightarrow> (\<forall>n\<in>set (nr_endpoints r). \<exists>i. named n i \<and> ei_family i = f)" for f
  have ds: "clean ds \<longleftrightarrow> (\<exists>f. resolves f)"
    using clean_resolve [OF False, of endpoints] by (simp add: ds_def start_def resolves_def assms(1))
  have family: "resolves f \<Longrightarrow> rs_family scope = Some f" for f
    using resolve_family [OF False, of endpoints] by (simp add: scope_def start_def resolves_def assms(1))
  have names: "clean ds \<Longrightarrow> rs_names scope = set (nr_endpoints r)"
    using resolve_names [of endpoints "nr_endpoints r" start]
    by (simp add: ds_def scope_def start_def)
  have "clean (validate_rule lower engine plugins endpoints credentials (tt_name ` set ts) r) \<longleftrightarrow>
      (\<forall>name. nr_name r = Some name \<longrightarrow> valid_identifier name) \<and> clean ds \<and>
      (\<forall>source. nr_condition r = Some source \<longrightarrow>
         clean (validate_rule_condition lower engine plugins (rs_family scope) source)) \<and>
      clean (validate_rule_credential credentials (tt_name ` set ts) scope r)"
    using False
    by (auto simp: validate_rule_def ds_def scope_def start_def case_prod_beta Let_def
        split: option.splits)
  also have "\<dots> \<longleftrightarrow> rule_ok lower engine plugins named cs ts r"
  proof (cases "clean ds")
    case True
    then obtain f where f: "resolves f" using ds by blast
    then have only: "resolves g \<longleftrightarrow> g = f" for g using family by (metis option.inject)
    show ?thesis
      using True names [OF True] family [OF f] False
      by (auto simp: rule_ok_def clean_rule_credential assms(2) only simp flip: resolves_def) blast
  next
    case no: False
    then show ?thesis using ds by (auto simp: rule_ok_def simp flip: resolves_def)
  qed
  finally show ?thesis .
qed (simp add: validate_rule_def rule_ok_def)

definition forward_ok :: "tailscale_tunnel list \<Rightarrow> network_forward \<Rightarrow> bool" where
  "forward_ok ts f \<longleftrightarrow>
     valid_identifier (nf_name f) \<and> nf_target_port f \<noteq> 0 \<and> is_ok (forward_transport f) \<and>
     (nf_kind f = ''host'' \<and> nf_tunnel f = None \<and> valid_target_selector (nf_target f) \<or>
      nf_kind f = ''tailscale'' \<and> (valid_target_selector (nf_target f) \<or> nf_target f = ''self'') \<and>
        (case nf_tunnel f of Some t \<Rightarrow> t \<in> tt_name ` set ts | None \<Rightarrow> nf_target f = ''self''))"

definition listener_of :: "network_forward \<Rightarrow> nat list" where
  "listener_of f = (case forward_transport f of Inr (Some port) \<Rightarrow> [port] | _ \<Rightarrow> [])"

lemma clean_listener:
  "clean (fst (validate_listener L f)) \<longleftrightarrow> is_ok (forward_transport f) \<and> set (listener_of f) \<inter> L = {}"
  by (auto simp: validate_listener_def listener_of_def split: sum.splits option.splits)

lemma listener_table: "snd (validate_listener L f) = L \<union> set (listener_of f)"
  by (auto simp: validate_listener_def listener_of_def split: sum.splits option.splits)

lemma distinct_listener [simp]: "distinct (listener_of f)"
  by (auto simp: listener_of_def split: sum.splits option.splits)

lemma forward_checks:
  "valid_identifier (nf_name f) \<and> clean (validate_forward_kind (tt_name ` set ts) f) \<and>
     nf_target_port f \<noteq> 0 \<and> (valid_target_selector (nf_target f) \<or>
       (nf_kind f = ''tailscale'' \<and> nf_target f = ''self'')) \<and> is_ok (forward_transport f)
   \<longleftrightarrow> forward_ok ts f"
  by (auto simp: validate_forward_kind_def forward_ok_def split: option.splits)

definition forwards_ok :: "tailscale_tunnel list \<Rightarrow> network_forward list \<Rightarrow> bool" where
  "forwards_ok ts fs \<longleftrightarrow>
     (\<forall>f\<in>set fs. forward_ok ts f) \<and> distinct (map nf_name fs) \<and>
     distinct (concat (map listener_of fs))"

lemma clean_forwards:
  "clean (validate_forwards (tt_name ` set ts) fs N L) \<longleftrightarrow>
     forwards_ok ts fs \<and> nf_name ` set fs \<inter> N = {} \<and> set (concat (map listener_of fs)) \<inter> L = {}"
proof (induction fs arbitrary: N L)
  case (Cons f fs)
  show ?case
    by (auto simp: Cons.IH case_prod_beta Let_def clean_listener listener_table forwards_ok_def
        forward_checks [symmetric, of ts f])
qed (simp add: forwards_ok_def)

definition policy_ok :: "(string \<Rightarrow> string) \<Rightarrow> ('p, 'v) cel \<Rightarrow> network_policy \<Rightarrow> bool" where
  "policy_ok lower engine p \<longleftrightarrow>
     np_version p = POLICY_VERSION \<and>
     endpoints_ok builtins (np_endpoints p) \<and>
     (\<forall>c\<in>set (np_credentials p).
        credential_ok lower engine (endpoint_named builtins (np_endpoints p)) c) \<and>
     distinct (map nc_name (np_credentials p)) \<and>
     tunnels_ok (np_tailscale p) \<and>
     (\<forall>r\<in>set (np_rules p).
        rule_ok lower engine builtins (endpoint_named builtins (np_endpoints p)) (np_credentials p)
          (np_tailscale p) r) \<and>
     forwards_ok (np_tailscale p) (np_forwards p) \<and>
     (\<forall>slot\<in>set (secret_slots p). valid_secret_slot (nss_name slot))"

lemma clean_audit [simp]: "clean (validate_audit_settings s)"
  by (simp add: validate_audit_settings_def)

lemma clean_validate_passes:
  "clean (validate lower engine p) \<longleftrightarrow>
     (let es = validate_endpoints builtins (np_endpoints p) [] {};
          cs = validate_credentials lower engine (snd es) (np_credentials p) []
      in np_version p = POLICY_VERSION \<and> clean (fst es) \<and> clean (fst cs) \<and>
         tunnels_ok (np_tailscale p) \<and>
         (\<forall>r\<in>set (np_rules p). clean (validate_rule lower engine builtins (snd es) (snd cs)
            (tt_name ` set (np_tailscale p)) r)) \<and>
         forwards_ok (np_tailscale p) (np_forwards p) \<and>
         (\<forall>slot\<in>set (secret_slots p). valid_secret_slot (nss_name slot)))"
  by (simp add: validate_def validate_version_def case_prod_beta Let_def clean_tunnels tunnels_table
      validate_rules_def clean_forwards validate_secret_slots_def)

lemma clean_validate: "clean (validate lower engine p) \<longleftrightarrow> policy_ok lower engine p"
proof (cases "endpoints_ok builtins (np_endpoints p)")
  case True
  let ?named = "endpoint_named builtins (np_endpoints p)"
  let ?es = "snd (validate_endpoints builtins (np_endpoints p) [] {})"
  let ?cs = "snd (validate_credentials lower engine ?es (np_credentials p) [])"
  have clean: "clean (fst (validate_endpoints builtins (np_endpoints p) [] {}))"
    using True by (simp add: clean_endpoints)
  have named: "bt_get n ?es = Some i \<longleftrightarrow> ?named n i" for n i
    using endpoint_table [OF _ clean] by simp
  have creds: "bt_get n ?cs = Some x \<longleftrightarrow> (\<exists>c\<in>set (np_credentials p). nc_name c = n \<and> nc_endpoint c = x)"
    if "distinct (map nc_name (np_credentials p))" for n x
    using credential_table [of "[]" "np_credentials p"] that by simp
  note rule = clean_rule [OF named creds]
  show ?thesis
    unfolding clean_validate_passes Let_def clean_credentials [of "[]", OF _ named, simplified]
      policy_ok_def
    using True clean rule by (simp cong: conj_cong) blast
qed (simp add: clean_validate_passes policy_ok_def clean_endpoints Let_def)

section \<open>What loading guarantees\<close>

text \<open>
  Claim C13. The validator is exact: it reports no error diagnostic for a policy if and only if the
  policy meets the declarative conditions of \<open>policy_ok\<close> (version, endpoint descriptors and schemas,
  unique names and exact hosts, credentials bound to endpoints that take them, rules over one family
  with compiling conditions, at most one tunnel, transport-valid forwards on distinct listeners).
\<close>

theorem validate_iff_policy_ok:
  "error_diagnostics (validate lower engine p) = [] \<longleftrightarrow> policy_ok lower engine p"
  using clean_validate [of lower engine p] by (simp add: clean_def)

lemma accept_policy_Ok:
  "accept_policy lower engine filename p = Ok q \<longleftrightarrow> q = normalize p \<and> policy_ok lower engine q"
  using clean_validate [of lower engine "normalize p"]
  by (auto simp: accept_policy_def Let_def clean_def)

lemma accept_policy_Err:
  "accept_policy lower engine filename p = Err e \<longleftrightarrow>
     \<not> policy_ok lower engine (normalize p) \<and>
     e = \<lparr>pe_filename = filename, pe_diagnostics = validate lower engine (normalize p)\<rparr>"
  using clean_validate [of lower engine "normalize p"]
  by (auto simp: accept_policy_def Let_def clean_def)


lemma load_failure_error [simp]:
  "error_diagnostics (pe_diagnostics (load_failure f (diagnostic_error f' l c s d))) \<noteq> []"
  by (simp add: load_failure_def error_diagnostics_def diagnostic_error_def)

lemma from_json_source_Err:
  assumes "from_json_source lower engine parse filename source = Err e"
  shows "pe_filename e = filename \<and> error_diagnostics (pe_diagnostics e) \<noteq> []"
proof (cases "parse source")
  case (Inl err)
  then show ?thesis
    using assms by (cases err) (auto simp: from_json_source_def load_failure_def
        error_diagnostics_def diagnostic_error_def)
next
  case (Inr p)
  then show ?thesis
    using assms clean_validate [of lower engine "normalize p"]
    by (auto simp: from_json_source_def accept_policy_Err clean_def)
qed

text \<open>
  Claim C32. A refused JSON policy always says why: whatever the bytes, the error of
  \<open>from_json_slice\<close> carries at least one diagnostic of severity error, so the message never counts
  zero errors.
\<close>

theorem refusal_names_an_error:
  assumes "from_json_slice lower engine parse utf8_error source = Err e"
  shows "pe_filename e = ''<json>'' \<and> error_diagnostics (pe_diagnostics e) \<noteq> []"
  using assms from_json_source_Err [of lower engine parse "''<json>''" source e]
  by (auto simp: from_json_slice_def load_failure_def error_diagnostics_def diagnostic_error_def
      split: if_splits)

theorem refusal_names_an_error_witness:
  "\<exists>e. from_json_slice to_ascii_lowercase method_engine (\<lambda>_. Err (1, 1, ''eof''))
         (\<lambda>_. ''invalid byte'') [char_of (255::nat)] = Err e \<and>
       error_diagnostics (pe_diagnostics e) \<noteq> []"
proof -
  have "\<not> valid_utf8 [char_of (255::nat)]" by code_simp
  then show ?thesis
    using refusal_names_an_error [of to_ascii_lowercase method_engine "\<lambda>_. Err (1, 1, ''eof'')"
        "\<lambda>_. ''invalid byte''" "[char_of (255::nat)]"]
    by (simp add: from_json_slice_def)
qed

section \<open>Derived secrets of a valid policy\<close>

lemma dot_not_alphanumeric [simp]: "\<not> is_ascii_alphanumeric (CHR ''.'')"
  by code_simp

lemma identifier_no_dot: "valid_identifier n \<Longrightarrow> CHR ''.'' \<notin> set n"
  by (auto simp: valid_identifier_def list_all_iff identifier_char_def)

lemma identifier_name_chars: "valid_identifier n \<Longrightarrow> list_all name_char n"
  by (auto simp: valid_identifier_def list_all_iff identifier_char_def name_char_def)

lemma slot_key_ok:
  assumes "valid_identifier k" and "valid_identifier n" and "valid_identifier f"
  shows "secret_name_new (k @ CHR ''.'' # n @ CHR ''.'' # f) =
    Ok (SecretName (k @ CHR ''.'' # n @ CHR ''.'' # f))"
proof -
  have "split_on (CHR ''.'') (k @ CHR ''.'' # n @ CHR ''.'' # f) = [k, n, f]"
    by (simp add: split_on_append split_on_single identifier_no_dot assms)
  moreover have "list_all name_char (k @ CHR ''.'' # n @ CHR ''.'' # f)"
    using assms [THEN identifier_name_chars] by (simp add: name_char_def)
  ultimately show ?thesis
    using assms by (simp add: secret_name_new_def valid_identifier_def)
qed

definition slot_record :: "network_credential \<Rightarrow> string \<times> bool \<times> secret_field \<Rightarrow> network_secret_slot" where
  "slot_record c entry =
     (case entry of (sfx, required, field) \<Rightarrow>
        \<lparr>nss_name = nc_name c @ CHR ''.'' # sfx, nss_required = required,
         nss_kind = (if field \<noteq> FieldValue then SecretOAuth else SecretPlain),
         nss_key = SecretName (nc_kind c @ CHR ''.'' # nc_name c @ CHR ''.''
           # (if field \<noteq> FieldValue then ''oauth'' else sfx)),
         nss_field = field\<rparr>)"

lemma literal_identifiers [simp]:
  "valid_identifier ''basic_auth''" "valid_identifier ''bearer_token''"
  "valid_identifier ''header_token''" "valid_identifier ''github_oauth''"
  "valid_identifier ''openai_codex_oauth''" "valid_identifier ''aws_credential''"
  "valid_identifier ''password''" "valid_identifier ''token''" "valid_identifier ''oauth''"
  "valid_identifier ''access_key_id''" "valid_identifier ''secret_access_key''"
  "valid_identifier ''session_token''" "valid_identifier ''profile''"
  "valid_identifier ''tailscale''" "valid_identifier ''auth_key''"
  "valid_identifier ''client_secret''" "valid_identifier ''api_token''"
  by (simp_all add: valid_identifier_def identifier_char_def byte_class_defs)

lemma credential_fields_ok:
  assumes "(sfx, required, field) \<in> set (credential_fields kind)"
  shows "is_supported_credential_kind kind \<and> valid_identifier kind \<and>
    valid_identifier (if field \<noteq> FieldValue then ''oauth'' else sfx)"
  using assms unfolding credential_fields_def is_supported_credential_kind_def
  by (simp split: if_split_asm; elim disjE conjE; simp)

lemma credential_slots_map:
  assumes "valid_identifier (nc_name c)"
  shows "credential_secret_slots c = map (slot_record c) (credential_fields (nc_kind c))"
proof -
  have "credential_secret_slot_of c entry = [slot_record c entry]"
    if "entry \<in> set (credential_fields (nc_kind c))" for entry
  proof -
    obtain sfx required field where entry: "entry = (sfx, required, field)" by (cases entry)
    then have "valid_identifier (nc_kind c)"
      and "valid_identifier (if field \<noteq> FieldValue then ''oauth'' else sfx)"
      using credential_fields_ok that by auto
    from slot_key_ok [OF this(1) assms this(2)] show ?thesis
      by (simp add: credential_secret_slot_of_def slot_record_def entry Let_def)
  qed
  then have "map (credential_secret_slot_of c) (credential_fields (nc_kind c)) =
    map (\<lambda>entry. [slot_record c entry]) (credential_fields (nc_kind c))"
    by (intro map_cong) auto
  then show ?thesis by (simp only: credential_secret_slots_def concat_map_singleton)
qed

definition tunnel_slot :: "tailscale_tunnel \<Rightarrow> string \<Rightarrow> network_secret_slot" where
  "tunnel_slot t field =
     \<lparr>nss_name = tt_name t @ CHR ''.'' # ''tailscale.'' @ field, nss_required = False,
      nss_kind = SecretPlain,
      nss_key = SecretName (''tailscale'' @ CHR ''.'' # tt_name t @ CHR ''.'' # field),
      nss_field = FieldValue\<rparr>"

lemma tunnel_slots_map:
  assumes "valid_identifier (tt_name t)"
  shows "tunnel_secret_slots t = map (tunnel_slot t) [''auth_key'', ''client_secret'', ''api_token'']"
  using slot_key_ok [OF _ assms, of "''tailscale''"]
  by (simp add: tunnel_secret_slots_def tunnel_slot_def)

lemma credential_fields_distinct:
  "distinct (map fst (credential_fields kind)) \<and>
   distinct (map (\<lambda>(sfx, required, field). (if field \<noteq> FieldValue then ''oauth'' else sfx, field))
     (credential_fields kind))"
  by (simp add: credential_fields_def)

definition slot_address :: "network_secret_slot \<Rightarrow> secret_name \<times> secret_field" where
  "slot_address s = (nss_key s, nss_field s)"

lemma credential_slots_distinct:
  assumes "valid_identifier (nc_name c)"
  shows "distinct (map nss_name (credential_secret_slots c)) \<and>
    distinct (map slot_address (credential_secret_slots c))"
proof -
  let ?fs = "credential_fields (nc_kind c)"
  have "map nss_name (map (slot_record c) ?fs) = map (\<lambda>s. nc_name c @ CHR ''.'' # s) (map fst ?fs)"
    by (auto simp: slot_record_def)
  moreover have "map slot_address (map (slot_record c) ?fs) =
    map (\<lambda>(k, f). (SecretName (nc_kind c @ CHR ''.'' # nc_name c @ CHR ''.'' # k), f))
      (map (\<lambda>(sfx, required, field). (if field \<noteq> FieldValue then ''oauth'' else sfx, field)) ?fs)"
    by (auto simp: slot_record_def slot_address_def)
  ultimately show ?thesis
    unfolding credential_slots_map [OF assms]
    using credential_fields_distinct [of "nc_kind c"]
    by (simp only: distinct_map [of "\<lambda>s. nc_name c @ CHR ''.'' # s"]
        distinct_map [of "\<lambda>(k, f). (SecretName (nc_kind c @ CHR ''.'' # nc_name c @ CHR ''.'' # k), f)"])
      (auto intro!: inj_onI)
qed

lemma credential_slot_name:
  assumes "valid_identifier (nc_name c)" and "x \<in> set (map nss_name (credential_secret_slots c))"
  obtains sfx where "x = nc_name c @ CHR ''.'' # sfx" and "sfx \<in> fst ` set (credential_fields (nc_kind c))"
  using assms by (force simp: credential_slots_map slot_record_def)

lemma credential_slot_address:
  assumes "valid_identifier (nc_name c)" and "x \<in> set (map slot_address (credential_secret_slots c))"
  obtains k f where "x = (SecretName (nc_kind c @ CHR ''.'' # nc_name c @ CHR ''.'' # k), f)"
    and "is_supported_credential_kind (nc_kind c)" and "valid_identifier (nc_kind c)"
proof -
  from assms obtain sfx required field where
    entry: "(sfx, required, field) \<in> set (credential_fields (nc_kind c))"
    and "x = slot_address (slot_record c (sfx, required, field))"
    by (auto simp: credential_slots_map)
  then have "x = (SecretName (nc_kind c @ CHR ''.'' # nc_name c @ CHR ''.''
      # (if field \<noteq> FieldValue then ''oauth'' else sfx)), field)"
    by (simp add: slot_record_def slot_address_def)
  then show thesis using that credential_fields_ok [OF entry] by blast
qed

lemma credentials_slots_distinct:
  assumes names: "distinct (map nc_name cs)" and ok: "\<And>c. c \<in> set cs \<Longrightarrow> valid_identifier (nc_name c)"
  shows "distinct (map nss_name (concat (map credential_secret_slots cs)))"
    and "distinct (map slot_address (concat (map credential_secret_slots cs)))"
proof -
  have "distinct (concat (map (\<lambda>c. map nss_name (credential_secret_slots c)) cs))"
  proof (rule distinct_concat_map [OF names])
    fix c c' x assume "c \<in> set cs" "c' \<in> set cs"
      and x: "x \<in> set (map nss_name (credential_secret_slots c))"
        "x \<in> set (map nss_name (credential_secret_slots c'))"
    note v = ok [OF this(1)] ok [OF this(2)]
    from x show "nc_name c = nc_name c'"
      using dotted_inject [OF v [THEN identifier_no_dot]]
      by (elim credential_slot_name [OF v(1)] credential_slot_name [OF v(2)]) metis
  qed (use ok credential_slots_distinct in blast)
  then show "distinct (map nss_name (concat (map credential_secret_slots cs)))"
    by (simp add: map_concat o_def)
  have "distinct (concat (map (\<lambda>c. map slot_address (credential_secret_slots c)) cs))"
  proof (rule distinct_concat_map [OF names])
    fix c c' x assume "c \<in> set cs" "c' \<in> set cs"
      and x: "x \<in> set (map slot_address (credential_secret_slots c))"
        "x \<in> set (map slot_address (credential_secret_slots c'))"
    note v = ok [OF this(1)] ok [OF this(2)]
    from x show "nc_name c = nc_name c'"
      using dotted_inject [OF v [THEN identifier_no_dot]] dotted_inject identifier_no_dot
      by (elim credential_slot_address [OF v(1)] credential_slot_address [OF v(2)])
        (metis prod.inject secret_name.inject)
  qed (use ok credential_slots_distinct in blast)
  then show "distinct (map slot_address (concat (map credential_secret_slots cs)))"
    by (simp add: map_concat o_def)
qed

lemma tunnels_slots_distinct:
  assumes "tunnels_ok ts"
  shows "distinct (map nss_name (concat (map tunnel_secret_slots ts))) \<and>
    distinct (map slot_address (concat (map tunnel_secret_slots ts)))"
proof (cases ts)
  case (Cons t us)
  then have "us = []" "valid_identifier (tt_name t)" using assms by (auto simp: tunnels_ok_def)
  then show ?thesis by (simp add: Cons tunnel_slots_map tunnel_slot_def slot_address_def)
qed simp

lemma credential_fields_not_tailscale:
  "sfx \<in> fst ` set (credential_fields kind) \<Longrightarrow> \<not> prefix ''tailscale.'' sfx"
proof -
  have "list_all (\<lambda>sfx. \<not> prefix ''tailscale.'' sfx) (map fst (credential_fields kind))"
    by (simp add: credential_fields_def)
  then show "sfx \<in> fst ` set (credential_fields kind) \<Longrightarrow> \<not> prefix ''tailscale.'' sfx"
    by (auto simp: list_all_iff)
qed

lemma slots_of_kinds_disjoint:
  assumes c: "valid_identifier (nc_name c)" and t: "valid_identifier (tt_name t)"
  shows "set (map nss_name (credential_secret_slots c)) \<inter> set (map nss_name (tunnel_secret_slots t)) = {}"
    and "set (map slot_address (credential_secret_slots c)) \<inter>
      set (map slot_address (tunnel_secret_slots t)) = {}"
proof -
  have "False" if y: "x \<in> set (map nss_name (credential_secret_slots c))"
    and x: "x \<in> set (map nss_name (tunnel_secret_slots t))" for x
  proof -
    obtain sfx where sfx: "x = nc_name c @ CHR ''.'' # sfx"
      "sfx \<in> fst ` set (credential_fields (nc_kind c))"
      using credential_slot_name [OF c y] .
    obtain f where "x = tt_name t @ CHR ''.'' # ''tailscale.'' @ f"
      using x by (auto simp: tunnel_slots_map [OF t] tunnel_slot_def)
    with sfx(1) have "sfx = ''tailscale.'' @ f"
      using dotted_inject [OF c [THEN identifier_no_dot] t [THEN identifier_no_dot]] by metis
    then show False using credential_fields_not_tailscale [OF sfx(2)] by (metis prefixI)
  qed
  then show "set (map nss_name (credential_secret_slots c)) \<inter> set (map nss_name (tunnel_secret_slots t)) = {}"
    by blast
  have "False" if y: "x \<in> set (map slot_address (credential_secret_slots c))"
    and x: "x \<in> set (map slot_address (tunnel_secret_slots t))" for x
  proof -
    obtain k f where k: "x = (SecretName (nc_kind c @ CHR ''.'' # nc_name c @ CHR ''.'' # k), f)"
      "is_supported_credential_kind (nc_kind c)" "valid_identifier (nc_kind c)"
      using credential_slot_address [OF c y] .
    obtain y where "x = (SecretName (''tailscale'' @ CHR ''.'' # y), FieldValue)"
      using x by (auto simp: tunnel_slots_map [OF t] tunnel_slot_def slot_address_def)
    with k(1) have "nc_kind c = ''tailscale''"
      using dotted_inject [OF k(3) [THEN identifier_no_dot] identifier_no_dot [of "''tailscale''"]]
      by (metis literal_identifiers(14) prod.inject secret_name.inject)
    then show False using k(2) by (simp add: is_supported_credential_kind_def)
  qed
  then show "set (map slot_address (credential_secret_slots c)) \<inter>
      set (map slot_address (tunnel_secret_slots t)) = {}" by blast
qed

lemma requirement_slots:
  assumes "valid_identifier (nc_name c)" and "r \<in> set (credential_secret_requirements c)"
    and "alternative \<in> set (nsr_alternatives r)"
  shows "set alternative \<subseteq> nss_name ` set (credential_secret_slots c)"
proof -
  let ?names = "map (\<lambda>s. nc_name c @ CHR ''.'' # s) (map fst (credential_fields (nc_kind c)))"
  have "list_all (\<lambda>r. list_all (\<lambda>a. set a \<subseteq> set ?names) (nsr_alternatives r))
      (credential_secret_requirements c)"
    by (simp add: credential_secret_requirements_def credential_fields_def Let_def image_iff) auto
  moreover have "set ?names = nss_name ` set (credential_secret_slots c)"
    by (force simp: credential_slots_map [OF assms(1)] slot_record_def)
  ultimately show ?thesis using assms(2,3) by (metis list_all_iff)
qed

text \<open>
  Claim C31. The secrets derived from a valid policy are unambiguous and complete: no two slots share
  a name, no two read the same field of the same stored secret, and every slot an alternative of a
  credential's requirement asks for is one of the derived slots.
\<close>

theorem valid_policy_secret_slots:
  assumes "policy_ok lower engine p"
  shows "distinct (map nss_name (secret_slots p)) \<and>
    distinct (map (\<lambda>s. (nss_key s, nss_field s)) (secret_slots p)) \<and>
    (\<forall>r\<in>set (network_secret_requirements p). \<forall>alternative\<in>set (nsr_alternatives r).
       set alternative \<subseteq> nss_name ` set (secret_slots p))"
proof -
  have cs: "c \<in> set (np_credentials p) \<Longrightarrow> valid_identifier (nc_name c)" for c
    using assms by (simp add: policy_ok_def credential_ok_def)
  have ts: "t \<in> set (np_tailscale p) \<Longrightarrow> valid_identifier (tt_name t)" for t
    using assms by (simp add: policy_ok_def tunnels_ok_def)
  have names: "distinct (map nc_name (np_credentials p))" and tok: "tunnels_ok (np_tailscale p)"
    using assms by (simp_all add: policy_ok_def)
  have "distinct (map nss_name (secret_slots p)) \<and> distinct (map slot_address (secret_slots p))"
    unfolding secret_slots_def map_append distinct_append
    using credentials_slots_distinct [OF names cs] tunnels_slots_distinct [OF tok]
      slots_of_kinds_disjoint [OF cs ts]
    by (auto simp: map_concat) blast+
  moreover have "set alternative \<subseteq> nss_name ` set (secret_slots p)"
    if "r \<in> set (network_secret_requirements p)" "alternative \<in> set (nsr_alternatives r)" for r alternative
    using that requirement_slots [OF cs]
    by (fastforce simp: network_secret_requirements_def secret_slots_def)
  moreover have "slot_address = (\<lambda>s. (nss_key s, nss_field s))"
    by (simp add: fun_eq_iff slot_address_def)
  ultimately show ?thesis by simp
qed


section \<open>A valid policy\<close>

definition api_endpoint :: network_endpoint where
  "api_endpoint =
     \<lparr>ne_name = ''api'', ne_kind = ''https'', ne_family = ''http'', ne_transport = ''https-mitm'',
      ne_tls_mode = ''terminate'', ne_config = [], ne_egress = [],
      ne_capabilities = [''credential-injection''], ne_source_cidrs = [], ne_destination_cidrs = [],
      ne_protocol = IpAny, ne_ports = [], ne_hosts = [''api.example.com'']\<rparr>"

definition cloud_credential :: network_credential where
  "cloud_credential =
     \<lparr>nc_name = ''cloud'', nc_kind = ''aws_credential'', nc_endpoint = ''api'', nc_username = None,
      nc_header = None, nc_prefix = None, nc_idempotency_key = False, nc_condition = None\<rparr>"

definition api_rule :: network_rule where
  "api_rule =
     \<lparr>nr_name = Some ''allow-api'', nr_endpoints = [''api''], nr_credential = Some ''cloud'',
      nr_condition = None, nr_tunnel = Some ''tail'', nr_verdict = Allow, nr_priority = 0,
      nr_disabled = False, nr_reason = []\<rparr>"

definition tail_tunnel :: tailscale_tunnel where
  "tail_tunnel = \<lparr>tt_name = ''tail'', tt_ephemeral = True, tt_tags = [], tt_hostname = None,
                  tt_control_url = None\<rparr>"

definition web_forward :: network_forward where
  "web_forward = \<lparr>nf_name = ''web'', nf_kind = ''tailscale'', nf_target = ''self'',
                  nf_target_port = 8080, nf_listen = '':8443'', nf_tunnel = Some ''tail'',
                  nf_protocol = ForwardTcp, nf_tls = None\<rparr>"

definition demo_policy :: network_policy where
  "demo_policy = policy_empty\<lparr>np_endpoints := [api_endpoint], np_credentials := [cloud_credential],
     np_rules := [api_rule], np_tailscale := [tail_tunnel], np_forwards := [web_forward]\<rparr>"

lemmas demo_defs = api_endpoint_def cloud_credential_def api_rule_def tail_tunnel_def web_forward_def

lemma demo_identifiers [simp]:
  "valid_identifier ''api''" "valid_identifier ''cloud''" "valid_identifier ''allow-api''"
  "valid_identifier ''tail''" "valid_identifier ''web''"
  by (simp_all add: valid_identifier_def identifier_char_def byte_class_defs)

lemma https_definition:
  "registry_endpoint builtins ''https'' = Some \<lparr>ed_kind = ''https'', ed_family = FamilyHttp,
     ed_transport = HttpsMitm, ed_default_port = 443, ed_schema = SchemaHosts,
     ed_supports_credentials = True, ed_terminates_tls = True\<rparr>"
  by code_simp

lemma demo_endpoint: "endpoints_ok builtins [api_endpoint]"
  by (simp add: endpoints_ok_def endpoint_ok_def https_definition descriptor_ok_def http_fields_ok_def
      api_endpoint_def trim_graphic is_graphic_def code_def exact_hosts_of_def)

lemma demo_named: "endpoint_named builtins [api_endpoint] ''api''
  \<lparr>ei_kind = ''https'', ei_family = FamilyHttp, ei_supports_credentials = True\<rparr>"
  by (simp add: endpoint_named_def info_of_def https_definition endpoint_info_of_def api_endpoint_def)

lemma demo_forward: "forwards_ok [tail_tunnel] [web_forward]"
proof -
  have "forward_transport web_forward = Ok (Some 8443)"
    by (simp add: forward_transport_def validate_forward_transport_def web_forward_def strip_prefix_def
        parse_uint_digits byte_class_defs u16_max_def)
  then show ?thesis by (simp add: forwards_ok_def forward_ok_def listener_of_def demo_defs)
qed

lemma demo_policy_ok: "policy_ok lower engine demo_policy"
proof -
  have "valid_secret_slot (nss_name s)" if "s \<in> set (secret_slots demo_policy)" for s
    using that
    by (auto simp: demo_policy_def policy_empty_def secret_slots_def credential_slots_map
        tunnel_slots_map demo_defs credential_fields_def slot_record_def tunnel_slot_def
        valid_secret_slot_def valid_slot_segment_def slot_head_char_def byte_class_defs)
  moreover have "is_supported_credential_kind ''aws_credential''"
    by (simp add: is_supported_credential_kind_def)
  ultimately show ?thesis
    using demo_endpoint demo_named demo_forward
    by (auto simp: policy_ok_def credential_ok_def rule_ok_def tunnels_ok_def demo_policy_def
        policy_empty_def cloud_credential_def api_rule_def tail_tunnel_def)
qed

theorem valid_policy_secret_slots_witness:
  "distinct (map nss_name (secret_slots demo_policy))"
  using valid_policy_secret_slots [OF demo_policy_ok [of to_ascii_lowercase method_engine]] by blast


section \<open>Normal forms\<close>

lemma strip_colon [simp]: "strip_prefix '':'' (CHR '':'' # s) = Some s"
  by (simp add: strip_prefix_def)

lemma transport_port:
  assumes "validate_forward_transport kind target protocol tls listen = Ok (Some port)"
  shows "kind = ''tailscale'' \<and> target = ''self'' \<and> 1 \<le> port \<and> port \<le> 65535 \<and> port \<noteq> 22"
  using assms parse_uint_bound [of u16_max]
  by (auto simp: validate_forward_transport_def u16_max_def split: if_splits option.splits)

lemma transport_canonical:
  assumes "validate_forward_transport kind target protocol tls listen = Ok (Some port)"
  shows "validate_forward_transport kind target protocol tls ('':'' @ show_nat port) = Ok (Some port)"
  using assms transport_port [OF assms]
  by (auto simp: validate_forward_transport_def show_nat_digits parse_uint_show_nat u16_max_def
      split: if_splits option.splits)

lemma normalize_host_idem:
  assumes "list_all is_graphic h"
  shows "normalize_host (normalize_host h) = normalize_host h"
proof -
  have "set (trim_end_matches (CHR ''.'') h) \<subseteq> set h"
    using trim_end_matches_prefix by (rule set_mono_prefix)
  then have "list_all is_graphic (to_ascii_lowercase (trim_end_matches (CHR ''.'') h))"
    using assms lowercase_graphic by (auto simp: list_all_iff to_ascii_lowercase_def)
  then show ?thesis
    using assms by (simp add: normalize_host_def trim_all_graphic trim_end_matches_lowercase)
qed

lemma normalize_forward_idem: "normalize_forward (normalize_forward f) = normalize_forward f"
proof (cases "\<exists>port. validate_forward_transport (nf_kind f) (nf_target f) (nf_protocol f) (nf_tls f)
    (nf_listen f) = Ok (Some port)")
  case True
  then obtain port where port: "validate_forward_transport (nf_kind f) (nf_target f) (nf_protocol f)
    (nf_tls f) (nf_listen f) = Ok (Some port)" by blast
  then have "normalize_forward f = f\<lparr>nf_listen := '':'' @ show_nat port\<rparr>"
    using transport_port [OF port] by (simp add: normalize_forward_def)
  then show ?thesis
    using transport_canonical [OF port] transport_port [OF port] by (simp add: normalize_forward_def)
next
  case False
  then have "normalize_forward f = f" by (auto simp: normalize_forward_def split: sum.splits option.splits)
  then show ?thesis by simp
qed

lemma normalize_endpoint_idem:
  assumes "\<forall>h\<in>set (ne_hosts e). list_all is_graphic h"
  shows "normalize_endpoint (normalize_endpoint e) = normalize_endpoint e"
  using assms by (auto simp: normalize_endpoint_def normalize_host_idem split: option.splits)

text \<open>
  Claim C33. Normalisation is idempotent on policies whose hosts are written in visible ASCII
  characters: loading a policy that was written back after loading changes nothing.
\<close>

theorem normalize_idempotent:
  assumes "\<forall>e\<in>set (np_endpoints p). \<forall>h\<in>set (ne_hosts e). list_all is_graphic h"
  shows "normalize (normalize p) = normalize p"
  using assms by (simp add: normalize_def normalize_endpoint_idem normalize_forward_idem)

theorem normalize_idempotent_witness:
  "normalize (normalize demo_policy) = normalize demo_policy"
  using normalize_idempotent [of demo_policy]
  by (simp add: demo_policy_def policy_empty_def api_endpoint_def is_graphic_def code_def)

definition spaced_policy :: network_policy where
  "spaced_policy = policy_empty\<lparr>np_endpoints := [api_endpoint\<lparr>ne_hosts := [''example.com .'']\<rparr>]\<rparr>"

definition trailing_space :: network_policy where
  "trailing_space = policy_empty\<lparr>np_endpoints := [api_endpoint\<lparr>ne_hosts := [''example.com '']\<rparr>]\<rparr>"

lemma trim_spaced: "trim ''example.com .'' = ''example.com .''"
  by (rule trim_graphic) (simp_all add: is_graphic_def code_def)

lemma trim_trailing: "trim ''example.com '' = ''example.com''"
  using trim_trailing_space [of "''example.com''"] by (simp add: is_graphic_def code_def)

lemma spaced_normal: "normalize spaced_policy = trailing_space"
  by (simp add: normalize_def spaced_policy_def trailing_space_def policy_empty_def
      normalize_endpoint_def api_endpoint_def https_definition normalize_host_def trim_spaced
      trim_end_matches_def byte_class_defs)

lemma trailing_normal: "normalize trailing_space \<noteq> trailing_space"
  by (simp add: normalize_def trailing_space_def policy_empty_def normalize_endpoint_def
      api_endpoint_def https_definition normalize_host_def trim_trailing trim_end_matches_def
      byte_class_defs)

lemma trailing_ok: "policy_ok lower engine trailing_space"
  by (simp add: policy_ok_def trailing_space_def policy_empty_def endpoints_ok_def endpoint_ok_def
      https_definition descriptor_ok_def http_fields_ok_def api_endpoint_def trim_trailing
      exact_hosts_of_def tunnels_ok_def forwards_ok_def secret_slots_def)


end
