(* ===== verification/Hostmatch.thy ===== *)
theory Hostmatch
  imports Condition
begin

text \<open>
  Host bindings and authorities (\<open>net/netd/internal/policy/hostmatch/hostmatch.go\<close>). Go strings
  are byte strings, \<open>uint16\<close> ports are natural numbers below \<open>2^16\<close>, errors are a datatype with
  one constructor per message. The URL parser, the address parser and the Unicode case mapping of
  Go's standard library and \<open>httpguts.ValidHostHeader\<close> are the fields of a parameter record.
\<close>

section \<open>What the package uses\<close>

record parsed_url =
  pu_scheme :: string
  pu_user :: bool
  pu_host :: string
  pu_path :: string
  pu_raw_query :: string
  pu_fragment :: string

record go_net =
  gn_url_parse :: "string \<Rightarrow> (string, parsed_url) result"
  gn_valid_host_header :: "string \<Rightarrow> bool"
  gn_parse_addr :: "string \<Rightarrow> (bool \<times> string) option"
  gn_to_lower :: "string \<Rightarrow> string"
  gn_to_upper :: "string \<Rightarrow> string"
  gn_parse_query :: "string \<Rightarrow> (string, (string, string list) btree) result"

text \<open>
  \<open>gn_parse_addr\<close> is \<open>netip.ParseAddr\<close>: whether the address is an IPv6 address, and its
  canonical text; \<open>gn_parse_query\<close> is \<open>url.ParseQuery\<close>. \<open>URL.Port\<close> and \<open>URL.Hostname\<close> split
  the host at a final colon that is followed by digits only, and remove brackets.
\<close>

fun valid_optional_port :: "string \<Rightarrow> bool" where
  "valid_optional_port [] = True"
| "valid_optional_port (c # cs) \<longleftrightarrow> c = CHR '':'' \<and> list_all is_ascii_digit cs"

definition split_host_port :: "string \<Rightarrow> string \<times> string" where
  "split_host_port host_port =
     (let (host, port) =
        (case rsplit_once (CHR '':'') host_port of
           Some (h, p) \<Rightarrow> if valid_optional_port (CHR '':'' # p) then (h, p) else (host_port, [])
         | None \<Rightarrow> (host_port, []))
      in (if prefix ''['' host \<and> suffix '']'' host then butlast (tl host) else host, port))"

definition url_hostname :: "parsed_url \<Rightarrow> string" where
  "url_hostname u = fst (split_host_port (pu_host u))"

definition url_port :: "parsed_url \<Rightarrow> string" where
  "url_port u = snd (split_host_port (pu_host u))"

section \<open>Authorities\<close>

record authority =
  au_host :: string
  au_port :: nat

record binding =
  bi_pattern :: string
  bi_host :: string
  bi_port :: nat
  bi_wildcard :: bool

datatype host_error =
    HostEmpty
  | WildcardInvalid string
  | WildcardIp string
  | AuthorityEmpty
  | AuthorityNotAscii string
  | AuthorityScheme string
  | AuthorityInvalid string string
  | AuthorityCredentials string
  | AuthorityPath string
  | AuthorityHeader string
  | AuthorityUnbracketed string
  | AuthorityPortSyntax string
  | AuthorityBracketed string
  | PortOutOfRange string

definition hostmatch_default_port :: "string \<Rightarrow> nat" where
  "hostmatch_default_port kind = (if kind = ''https'' then 443 else 80)"

text \<open>\<open>strconv.Atoi\<close> fails on values over \<open>2^63 - 1\<close>, which are out of range as well.\<close>

definition go_parse_port :: "string \<Rightarrow> (host_error, nat) result" where
  "go_parse_port value =
     (if value = [] then Err (PortOutOfRange value)
      else if \<not> list_all is_ascii_digit value then Err (PortOutOfRange value)
      else let port = dec_value 0 value in
        if port < 1 \<or> port > 65535 then Err (PortOutOfRange value) else Ok port)"

definition has_explicit_port_syntax :: "string \<Rightarrow> bool" where
  "has_explicit_port_syntax host \<longleftrightarrow>
     (if prefix ''['' host
      then (case rsplit_once (CHR '']'') host of
              None \<Rightarrow> False
            | Some (_, after) \<Rightarrow> after \<noteq> [])
      else count_list host (CHR '':'') = 1)"

definition is_ascii :: "string \<Rightarrow> bool" where
  "is_ascii value \<longleftrightarrow> list_all (\<lambda>c. code c \<le> 127) value"

definition authority_host ::
  "go_net \<Rightarrow> string \<Rightarrow> bool \<Rightarrow> string \<Rightarrow> (host_error, string) result" where
  "authority_host net raw raw_bracketed host =
     (if host = [] then Err AuthorityEmpty
      else case gn_parse_addr net host of
        Some (is6, text) \<Rightarrow>
          if is6 then (if \<not> raw_bracketed then Err (AuthorityUnbracketed raw) else Ok text)
          else if raw_bracketed then Err (AuthorityBracketed raw)
          else Ok text
      | None \<Rightarrow> if raw_bracketed then Err (AuthorityBracketed raw) else Ok host)"

definition parse_authority :: "go_net \<Rightarrow> string \<Rightarrow> nat \<Rightarrow> (host_error, authority) result" where
  "parse_authority net input default_port =
     (let raw = trim input; raw_bracketed = prefix ''['' raw in
      if raw = [] then Err AuthorityEmpty
      else if \<not> is_ascii raw then Err (AuthorityNotAscii raw)
      else if contains_str raw ''://'' then Err (AuthorityScheme raw)
      else rbind (map_err (AuthorityInvalid raw) (gn_url_parse net (''http://'' @ raw))) (\<lambda>parsed.
        if pu_user parsed then Err (AuthorityCredentials raw)
        else if pu_path parsed \<noteq> [] \<or> pu_raw_query parsed \<noteq> [] \<or> pu_fragment parsed \<noteq> []
        then Err (AuthorityPath raw)
        else if pu_host parsed = [] then Err AuthorityEmpty
        else if \<not> gn_valid_host_header net (pu_host parsed) then Err (AuthorityHeader raw)
        else if \<not> raw_bracketed \<and> count_list (pu_host parsed) (CHR '':'') > 1
        then Err (AuthorityUnbracketed raw)
        else rbind (if url_port parsed \<noteq> [] then go_parse_port (url_port parsed) else Ok default_port)
          (\<lambda>port.
            if url_port parsed = [] \<and> has_explicit_port_syntax (pu_host parsed)
            then Err (AuthorityPortSyntax raw)
            else
              let lowered = gn_to_lower net (url_hostname parsed);
                  host = (case strip_suffix ''.'' lowered of Some h \<Rightarrow> h | None \<Rightarrow> lowered)
              in rbind (authority_host net raw raw_bracketed host) (\<lambda>h.
                   Ok \<lparr>au_host = h, au_port = port\<rparr>))))"

definition format_authority_host :: "go_net \<Rightarrow> string \<Rightarrow> string" where
  "format_authority_host net host =
     (if CHR '':'' \<in> set host \<and> gn_parse_addr net host \<noteq> None then ''['' @ host @ '']'' else host)"

text \<open>\<open>net.JoinHostPort\<close> puts brackets around a host with a colon.\<close>

definition join_host_port :: "string \<Rightarrow> string \<Rightarrow> string" where
  "join_host_port host port =
     (if CHR '':'' \<in> set host then ''['' @ host @ '']:'' @ port else host @ '':'' @ port)"

definition format_authority :: "go_net \<Rightarrow> authority \<Rightarrow> nat \<Rightarrow> string" where
  "format_authority net a default_port =
     (if au_port a = default_port then format_authority_host net (au_host a)
      else join_host_port (au_host a) (show_nat (au_port a)))"

section \<open>Bindings\<close>

definition wildcard_looks_like_ip :: "go_net \<Rightarrow> string \<Rightarrow> bool" where
  "wildcard_looks_like_ip net host \<longleftrightarrow>
     gn_parse_addr net host \<noteq> None \<or>
     list_all (\<lambda>label. label \<noteq> [] \<and> list_all is_ascii_digit label) (split_on (CHR ''.'') host)"

definition parse_binding :: "go_net \<Rightarrow> string \<Rightarrow> nat \<Rightarrow> (host_error, binding) result" where
  "parse_binding net pattern default_port =
     (let pat = trim pattern in
      if pat = [] then Err HostEmpty
      else if CHR ''*'' \<in> set pat \<and> \<not> prefix ''*.'' pat then Err (WildcardInvalid pat)
      else
        let wildcard = prefix ''*.'' pat; rest = (if wildcard then drop 2 pat else pat) in
        if wildcard \<and> (rest = [] \<or> CHR ''*'' \<in> set rest) then Err (WildcardInvalid (''*.'' @ rest))
        else rbind (parse_authority net rest default_port) (\<lambda>a.
          if wildcard \<and> wildcard_looks_like_ip net (au_host a)
          then Err (WildcardIp (''*.'' @ au_host a))
          else
            let canonical = format_authority net a default_port in
            Ok \<lparr>bi_pattern = (if wildcard then ''*.'' @ canonical else canonical),
                bi_host = au_host a, bi_port = au_port a, bi_wildcard = wildcard\<rparr>))"

definition binding_matches :: "binding \<Rightarrow> authority \<Rightarrow> bool" where
  "binding_matches b a \<longleftrightarrow>
     bi_port b = au_port a \<and>
     (if \<not> bi_wildcard b then bi_host b = au_host a
      else au_host a \<noteq> bi_host b \<and> suffix (''.'' @ bi_host b) (au_host a))"

end
