(* ===== verification/Netd_Policy.thy ===== *)
theory Netd_Policy
  imports Hostmatch Complex_Main
begin

text \<open>
  The policy netd enforces (\<open>net/netd/internal/policy\<close>): the document it decodes
  (\<open>document.go\<close>), the registry of endpoint kinds (\<open>registry.go\<close>), the compiled policy
  (\<open>model.go\<close>), and its compilation (\<open>load.go\<close>, \<open>forward.go\<close>, \<open>condition.go\<close>). Go maps are
  the ordered maps of \<open>Btree\<close>; where the code ranges over a map, the order is a parameter of the
  definition. A nil pointer is \<open>None\<close>. Errors are a datatype; the text of a load error is not
  modelled. The expression engine \<open>cel-go\<close> and the prefix parser are parameters.
\<close>

section \<open>The decoded document\<close>

datatype go_any =
    GoNull
  | GoBool bool
  | GoNumber rat
  | GoString string
  | GoArray "go_any list"
  | GoObject "(string \<times> go_any) list"

record netd_port_range =
  npr_start :: nat
  npr_end :: nat

record netd_egress =
  neg_host :: string
  neg_port :: nat
  neg_tls :: bool

record netd_endpoint_decl =
  ned_kind :: string
  ned_name :: string
  ned_family :: string
  ned_transport :: string
  ned_tls :: string
  ned_config :: "(string, go_any) btree"
  ned_egress :: "netd_egress list"
  ned_capabilities :: "string list"
  ned_source_cidrs :: "string list"
  ned_destination_cidrs :: "string list"
  ned_protocol :: string
  ned_ports :: "netd_port_range list"
  ned_hosts :: "string list"

record netd_credential_decl =
  ncd_kind :: string
  ncd_name :: string
  ncd_endpoint :: string
  ncd_username :: string
  ncd_header :: string
  ncd_prefix :: string
  ncd_idempotency_key :: bool
  ncd_condition :: string

record netd_rule_decl =
  nrd_name :: string
  nrd_endpoints :: "string list"
  nrd_credential :: string
  nrd_condition :: string
  nrd_tunnel :: string
  nrd_verdict :: string
  nrd_priority :: int
  nrd_disabled :: bool
  nrd_reason :: string

record netd_tailscale_decl =
  ntd_ephemeral :: bool
  ntd_name :: string
  ntd_tags :: "string list"
  ntd_hostname :: string
  ntd_control_url :: string

record netd_forward_decl =
  nfd_name :: string
  nfd_kind :: string
  nfd_target :: string
  nfd_target_port :: nat
  nfd_listen :: string
  nfd_tunnel :: string
  nfd_protocol :: string
  nfd_tls :: "string option"

record network_policy_file =
  npf_version :: int
  npf_metadata :: "(string, go_any) btree"
  npf_default_action :: string
  npf_body_buffer_bytes :: int
  npf_body_storage_bytes :: int
  npf_endpoints :: "netd_endpoint_decl list"
  npf_credentials :: "netd_credential_decl list"
  npf_rules :: "netd_rule_decl list"
  npf_tailscale :: "netd_tailscale_decl list"
  npf_forwards :: "netd_forward_decl list"

section \<open>The registry\<close>

datatype netd_schema = NetdIp | NetdHosts | NetdRegistries

record netd_endpoint_definition =
  nd_kind :: string
  nd_family :: string
  nd_transport :: string
  nd_tls_mode :: string
  nd_default_port :: nat
  nd_schema :: netd_schema
  nd_supports_credentials :: bool

record netd_family_definition =
  nfm_family :: string
  nfm_cel :: bool
  nfm_facets :: "string list"

record netd_facet_field =
  nff_name :: string
  nff_kind :: facet_kind
  nff_optional :: bool

record netd_registry =
  ng_endpoints :: "(string, netd_endpoint_definition) btree"
  ng_families :: "(string, netd_family_definition) btree"
  ng_facets :: "(string, netd_facet_field list) btree"

definition netd_builtin_endpoints :: "(string \<times> netd_endpoint_definition) list" where
  "netd_builtin_endpoints =
     [(''ip'', \<lparr>nd_kind = ''ip'', nd_family = ''ip'', nd_transport = ''packet-filter'',
               nd_tls_mode = ''none'', nd_default_port = 0, nd_schema = NetdIp,
               nd_supports_credentials = False\<rparr>),
      (''http'', \<lparr>nd_kind = ''http'', nd_family = ''http'', nd_transport = ''http-proxy'',
                 nd_tls_mode = ''none'', nd_default_port = 80, nd_schema = NetdHosts,
                 nd_supports_credentials = False\<rparr>),
      (''https'', \<lparr>nd_kind = ''https'', nd_family = ''http'', nd_transport = ''https-mitm'',
                  nd_tls_mode = ''terminate'', nd_default_port = 443, nd_schema = NetdHosts,
                  nd_supports_credentials = True\<rparr>),
      (''registries'', \<lparr>nd_kind = ''registries'', nd_family = ''package'',
                       nd_transport = ''tls-terminate'', nd_tls_mode = ''terminate'',
                       nd_default_port = 443, nd_schema = NetdRegistries,
                       nd_supports_credentials = False\<rparr>)]"

definition netd_field :: "string \<Rightarrow> facet_kind \<Rightarrow> netd_facet_field" where
  "netd_field name kind = \<lparr>nff_name = name, nff_kind = kind, nff_optional = False\<rparr>"

definition netd_builtin_facets :: "(string \<times> netd_facet_field list) list" where
  "netd_builtin_facets =
     [(''http'', [netd_field ''method'' FacetString, netd_field ''host'' FacetString,
                 netd_field ''path'' FacetString, netd_field ''query'' FacetStringListMap,
                 netd_field ''headers'' FacetStringListMap]),
      (''package'', [netd_field ''ecosystem'' FacetString, netd_field ''operation'' FacetString,
                    netd_field ''name'' FacetString, netd_field ''version'' FacetString,
                    netd_field ''identity_known'' FacetBool, netd_field ''age_known'' FacetBool,
                    netd_field ''age_hours'' FacetInt, netd_field ''age_source'' FacetString,
                    netd_field ''malware_data_available'' FacetBool,
                    netd_field ''malware'' FacetBool,
                    (netd_field ''malware_reason'' FacetString)\<lparr>nff_optional := True\<rparr>])]"

definition builtin_registry :: netd_registry where
  "builtin_registry =
     \<lparr>ng_endpoints = bt_from netd_builtin_endpoints,
      ng_families = bt_from
        [(''ip'', \<lparr>nfm_family = ''ip'', nfm_cel = False, nfm_facets = []\<rparr>),
         (''http'', \<lparr>nfm_family = ''http'', nfm_cel = True, nfm_facets = [''http'']\<rparr>),
         (''package'', \<lparr>nfm_family = ''package'', nfm_cel = True,
                       nfm_facets = [''http'', ''package'']\<rparr>)],
      ng_facets = bt_from netd_builtin_facets\<rparr>"

section \<open>The compiled policy\<close>

record netd_ref =
  rf_kind :: string
  rf_name :: string

definition ref_string :: "netd_ref \<Rightarrow> string" where
  "ref_string r = rf_kind r @ ''.'' @ rf_name r"

text \<open>
  Addresses of \<open>net/netip\<close> without zones; a prefix contains the addresses of its family that
  agree with it on the leading bits.
\<close>

datatype go_addr = Addr4 "32 word" | Addr6 "128 word"

record go_prefix =
  px_addr :: go_addr
  px_bits :: nat

fun unmap_addr :: "go_addr \<Rightarrow> go_addr" where
  "unmap_addr (Addr4 w) = Addr4 w"
| "unmap_addr (Addr6 w) = (if drop_bit 32 w = 0xFFFF then Addr4 (ucast w) else Addr6 w)"

definition addr_from_ip :: "8 word list \<Rightarrow> go_addr option" where
  "addr_from_ip ip =
     (if length ip = 4 then Some (unmap_addr (Addr4 (word_rcat ip)))
      else if length ip = 16 then Some (unmap_addr (Addr6 (word_rcat ip)))
      else None)"

fun prefix_contains :: "go_prefix \<Rightarrow> go_addr \<Rightarrow> bool" where
  "prefix_contains p (Addr4 a) =
     (case px_addr p of
        Addr4 b \<Rightarrow> drop_bit (32 - px_bits p) a = drop_bit (32 - px_bits p) b
      | Addr6 _ \<Rightarrow> False)"
| "prefix_contains p (Addr6 a) =
     (case px_addr p of
        Addr6 b \<Rightarrow> drop_bit (128 - px_bits p) a = drop_bit (128 - px_bits p) b
      | Addr4 _ \<Rightarrow> False)"

record ip_endpoint =
  ie_name :: string
  ie_source_prefixes :: "go_prefix list"
  ie_destination_prefixes :: "go_prefix list"
  ie_protocol :: string
  ie_ports :: "netd_port_range list"

record http_endpoint =
  he_kind :: string
  he_name :: string
  he_family :: string
  he_transport :: string
  he_default_port :: nat
  he_hosts :: "binding list"

record netd_registry_endpoint =
  re_endpoint :: http_endpoint
  re_registries :: "string list"
  re_malware_feed :: string
  re_filter_package_age :: nat
  re_egress :: netd_egress

definition endpoint_ref :: "http_endpoint \<Rightarrow> netd_ref" where
  "endpoint_ref e = \<lparr>rf_kind = he_kind e, rf_name = he_name e\<rparr>"

record 'p netd_condition =
  co_source :: string
  co_program :: 'p

record 'p netd_credential =
  nk_kind :: string
  nk_name :: string
  nk_endpoint :: netd_ref
  nk_username :: string
  nk_header :: string
  nk_prefix :: string
  nk_idempotency_key :: bool
  nk_condition :: "'p netd_condition option"

definition credential_ref :: "'p netd_credential \<Rightarrow> netd_ref" where
  "credential_ref k = \<lparr>rf_kind = nk_kind k, rf_name = nk_name k\<rparr>"

record 'p netd_rule =
  rl_tunnel :: "netd_ref option"
  rl_name :: string
  rl_family :: string
  rl_endpoints :: "netd_ref list"
  rl_credential :: "netd_ref option"
  rl_verdict :: string
  rl_priority :: int
  rl_disabled :: bool
  rl_reason :: string
  rl_order :: nat
  rl_condition :: "'p netd_condition option"

record netd_forward =
  nw_name :: string
  nw_listen_port :: nat
  nw_guest_port :: nat
  nw_protocol :: string

record 'p netd_policy =
  gp_tailscale :: "netd_tailscale_decl option"
  gp_forwards :: "netd_forward list"
  gp_warnings :: nat
  gp_metadata :: "(string, go_any) btree"
  gp_registry :: netd_registry
  gp_default_action :: string
  gp_ip_endpoints :: "(string, ip_endpoint) btree"
  gp_http_endpoints :: "(string, http_endpoint) btree"
  gp_https_endpoints :: "(string, http_endpoint) btree"
  gp_package_endpoints :: "(string, http_endpoint) btree"
  gp_registry_endpoints :: "(string, netd_registry_endpoint) btree"
  gp_credentials :: "(string, 'p netd_credential) btree"
  gp_endpoint_refs_by_name :: "(string, netd_ref) btree"
  gp_credential_refs_by_name :: "(string, netd_ref) btree"
  gp_credentials_by_endpoint :: "(string, 'p netd_credential list) btree"
  gp_exact_http_bindings :: "(string, netd_ref) btree"
  gp_endpoint_definitions :: "(string, netd_endpoint_definition) btree"
  gp_rules_by_family :: "(string, 'p netd_rule list) btree"

definition new_policy :: "'p netd_policy" where
  "new_policy =
     \<lparr>gp_tailscale = None, gp_forwards = [], gp_warnings = 0, gp_metadata = [],
      gp_registry = builtin_registry, gp_default_action = ''allow'', gp_ip_endpoints = [],
      gp_http_endpoints = [], gp_https_endpoints = [], gp_package_endpoints = [],
      gp_registry_endpoints = [], gp_credentials = [], gp_endpoint_refs_by_name = [],
      gp_credential_refs_by_name = [], gp_credentials_by_endpoint = [],
      gp_exact_http_bindings = [], gp_endpoint_definitions = [], gp_rules_by_family = []\<rparr>"

section \<open>Conditions\<close>

text \<open>
  An error of \<open>fmt.Errorf\<close> is its format with its arguments, unrendered, around the error it wraps. \<open>go_cel\<close> is the
  interface of \<open>cel-go\<close>: an environment with typed variables, compilation in it, the output type
  of an expression, its program, and the evaluation of a program on an activation.
\<close>

datatype go_error =
    GoError string "string list"
  | GoHostError host_error
  | GoWrapped string "string list" go_error

datatype facet_value =
    FvString string
  | FvStringListMap "(string, string list) btree"
  | FvInt int
  | FvBool bool

type_synonym activation = "(string, facet_value) btree"

record ('e, 'a, 'p) go_cel =
  gl_new_env :: "(string \<times> facet_kind) list \<Rightarrow> (string, 'e) result"
  gl_compile :: "'e \<Rightarrow> string \<Rightarrow> (string, 'a) result"
  gl_output_is_bool :: "'a \<Rightarrow> bool"
  gl_output_type :: "'a \<Rightarrow> string"
  gl_program :: "'e \<Rightarrow> 'a \<Rightarrow> (string, 'p) result"
  gl_eval :: "'p \<Rightarrow> activation \<Rightarrow> (string, go_any) result"

function go_quoted_loop :: "string \<Rightarrow> char \<Rightarrow> nat \<Rightarrow> nat" where
  "go_quoted_loop source quote index =
     (if index < length source then
        if source ! index = backslash then go_quoted_loop source quote (index + 2)
        else if source ! index = quote then index + 1
        else go_quoted_loop source quote (index + 1)
      else length source)"
  by pat_completeness auto
termination
  by (relation "measure (\<lambda>(source, quote, index). length source - index)") auto

declare go_quoted_loop.simps [simp del]

definition quoted_cel_literal_end :: "string \<Rightarrow> nat \<Rightarrow> nat" where
  "quoted_cel_literal_end source start = go_quoted_loop source (source ! start) (start + 1)"

definition is_cel_identifier_byte :: "char \<Rightarrow> bool" where
  "is_cel_identifier_byte c \<longleftrightarrow>
     is_ascii_lowercase c \<or> is_ascii_uppercase c \<or> is_ascii_digit c \<or> c = CHR ''_''"

definition cel_identifier_start_boundary :: "string \<Rightarrow> nat \<Rightarrow> bool" where
  "cel_identifier_start_boundary source start \<longleftrightarrow>
     start = 0 \<or> \<not> is_cel_identifier_byte (source ! (start - 1)) \<and> source ! (start - 1) \<noteq> CHR ''.''"

definition cel_identifier_boundary :: "string \<Rightarrow> nat \<Rightarrow> nat \<Rightarrow> bool" where
  "cel_identifier_boundary source start len \<longleftrightarrow>
     cel_identifier_start_boundary source start \<and>
     (start + len = length source \<or> \<not> is_cel_identifier_byte (source ! (start + len)))"

lemma go_quoted_loop_bounds:
  assumes "index \<le> length source"
  shows "index \<le> go_quoted_loop source quote index \<and> go_quoted_loop source quote index \<le> length source"
  using assms
proof (induction source quote index rule: go_quoted_loop.induct)
  case (1 source quote index)
  show ?case
  proof (cases "index + 2 \<le> length source")
    case False
    then have "go_quoted_loop source quote (index + 2) = length source"
      by (subst go_quoted_loop.simps) simp
    with 1 show ?thesis by (subst (1 2) go_quoted_loop.simps) auto
  qed (use 1 in \<open>subst (1 2) go_quoted_loop.simps, auto\<close>)
qed

lemma quoted_cel_literal_end_gt:
  "index < length source \<Longrightarrow> index < quoted_cel_literal_end source index"
  using go_quoted_loop_bounds [of "index + 1" source] by (auto simp: quoted_cel_literal_end_def Suc_le_eq)

text \<open>A path is never empty: the loops of the code would not advance on one.\<close>

function go_rewrite_from :: "string \<Rightarrow> string \<Rightarrow> string \<Rightarrow> nat \<Rightarrow> string" where
  "go_rewrite_from source original replacement index =
     (if index < length source then
        if is_quote (source ! index)
        then slice source index (quoted_cel_literal_end source index) @
             go_rewrite_from source original replacement (quoted_cel_literal_end source index)
        else if original \<noteq> [] \<and> prefix original (drop index source) \<and>
                cel_identifier_boundary source index (length original)
        then replacement @ go_rewrite_from source original replacement (index + length original)
        else source ! index # go_rewrite_from source original replacement (index + 1)
      else [])"
  by pat_completeness auto
termination
  by (relation "measure (\<lambda>(source, original, replacement, index). length source - index)")
    (auto intro: diff_less_mono2 quoted_cel_literal_end_gt)

declare go_rewrite_from.simps [simp del]

definition go_rewrite_cel_identifier :: "string \<Rightarrow> string \<Rightarrow> string \<Rightarrow> string" where
  "go_rewrite_cel_identifier source original replacement =
     go_rewrite_from source original replacement 0"

function go_contains_from :: "string \<Rightarrow> string \<Rightarrow> nat \<Rightarrow> bool" where
  "go_contains_from source p index =
     (if index < length source then
        if is_quote (source ! index)
        then go_contains_from source p (quoted_cel_literal_end source index)
        else if prefix p (drop index source) \<and> cel_identifier_start_boundary source index then True
        else go_contains_from source p (index + 1)
      else False)"
  by pat_completeness auto
termination
  by (relation "measure (\<lambda>(source, p, index). length source - index)")
    (auto intro: diff_less_mono2 quoted_cel_literal_end_gt)

declare go_contains_from.simps [simp del]

definition go_contains_cel_path_prefix :: "string \<Rightarrow> string \<Rightarrow> bool" where
  "go_contains_cel_path_prefix source p = go_contains_from source p 0"

definition cel_variable_name :: "string \<Rightarrow> string \<Rightarrow> string" where
  "cel_variable_name facet field =
     (if facet = ''package'' then ''__silo_package_'' @ field else facet @ ''.'' @ field)"

definition go_rewrite_field :: "string \<Rightarrow> netd_facet_field \<Rightarrow> string \<Rightarrow> string" where
  "go_rewrite_field facet field source =
     (let path = facet @ ''.'' @ nff_name field; variable = cel_variable_name facet (nff_name field)
      in if path \<noteq> variable then go_rewrite_cel_identifier source path variable else source)"

fun prepare_facets ::
  "netd_registry \<Rightarrow> string \<Rightarrow> string list \<Rightarrow> string \<Rightarrow> (go_error, string) result" where
  "prepare_facets registry family [] source = Ok source"
| "prepare_facets registry family (name # names) source =
     (case bt_get name (ng_facets registry) of
        None \<Rightarrow> Err (GoError ''endpoint family %q references unknown facet %q'' [family, name])
      | Some facet_fields \<Rightarrow>
          let prepared = fold (go_rewrite_field name) facet_fields source in
          if name = ''package'' \<and> go_contains_cel_path_prefix prepared ''package.''
          then Err (GoError ''unknown package condition facet'' [])
          else prepare_facets registry family names prepared)"

definition prepare_condition_source ::
  "netd_registry \<Rightarrow> netd_family_definition \<Rightarrow> string \<Rightarrow> (go_error, string) result" where
  "prepare_condition_source registry family source =
     prepare_facets registry (nfm_family family) (nfm_facets family) source"

fun cel_variables ::
  "netd_registry \<Rightarrow> string \<Rightarrow> string list \<Rightarrow> (go_error, (string \<times> facet_kind) list) result" where
  "cel_variables registry family [] = Ok []"
| "cel_variables registry family (name # names) =
     (case bt_get name (ng_facets registry) of
        None \<Rightarrow> Err (GoError ''endpoint family %q references unknown facet %q'' [family, name])
      | Some facet_fields \<Rightarrow>
          rbind (cel_variables registry family names) (\<lambda>rest.
            Ok (map (\<lambda>f. (cel_variable_name name (nff_name f), nff_kind f)) facet_fields @ rest)))"

definition cel_error :: "string \<Rightarrow> go_error" where
  "cel_error e = GoError ''%v'' [e]"

definition compile_condition ::
  "('e, 'a, 'p) go_cel \<Rightarrow> netd_registry \<Rightarrow> string \<Rightarrow> string
     \<Rightarrow> (go_error, 'p netd_condition) result" where
  "compile_condition cel registry family source =
     (if trim source = [] then Err (GoError ''condition is empty'' [])
      else case bt_get family (ng_families registry) of
        None \<Rightarrow> Err (GoError ''unknown endpoint family %q'' [family])
      | Some definition \<Rightarrow>
          if \<not> nfm_cel definition
          then Err (GoError ''conditions are not supported for endpoint family %q'' [family])
          else
            rbind (prepare_condition_source registry definition source) (\<lambda>prepared.
            rbind (cel_variables registry family (nfm_facets definition)) (\<lambda>variables.
            rbind (map_err cel_error (gl_new_env cel variables)) (\<lambda>environment.
            rbind (map_err cel_error (gl_compile cel environment prepared)) (\<lambda>ast.
            if \<not> gl_output_is_bool cel ast
            then Err (GoError ''condition must evaluate to bool, got %s'' [gl_output_type cel ast])
            else rbind (map_err cel_error (gl_program cel environment ast)) (\<lambda>program.
              Ok \<lparr>co_source = source, co_program = program\<rparr>))))))"

section \<open>Forwards\<close>

definition forward_error :: "netd_forward_decl \<Rightarrow> string \<Rightarrow> string list \<Rightarrow> go_error" where
  "forward_error decl message args = GoError (''forward %q: '' @ message) (nfd_name decl # args)"

definition forward_listen_port :: "string \<Rightarrow> (go_error, nat) result" where
  "forward_listen_port listen =
     (let invalid = Err (GoError ''listen must be :<decimal port> with port between 1 and 65535'' []) in
      case listen of
        c # digits \<Rightarrow>
          if digits = [] \<or> c \<noteq> CHR '':'' then invalid
          else if \<not> list_all is_ascii_digit digits then invalid
          else (case parse_uint u16_max digits of
                  None \<Rightarrow> invalid
                | Some port \<Rightarrow> if port = 0 then invalid else Ok port)
      | [] \<Rightarrow> invalid)"

definition forward_tls_check :: "netd_forward_decl \<Rightarrow> string \<Rightarrow> (go_error, unit) result" where
  "forward_tls_check decl protocol =
     (if protocol = ''tcp''
      then (if nfd_tls decl \<noteq> None then Err (forward_error decl ''tcp forbids tls'' []) else Ok ())
      else if protocol = ''https''
      then (if nfd_tls decl \<noteq> Some ''tailscale''
            then Err (forward_error decl ''https requires tls.provider = tailscale'' []) else Ok ())
      else Err (forward_error decl ''unsupported protocol %q'' [protocol]))"

definition forward_name_char :: "char \<Rightarrow> bool" where
  "forward_name_char c \<longleftrightarrow>
     is_ascii_lowercase c \<or> is_ascii_uppercase c \<or> is_ascii_digit c \<or> c = CHR ''_'' \<or> c = CHR ''-''"

definition compile_forward ::
  "netd_tailscale_decl option \<Rightarrow> string set \<Rightarrow> nat set \<Rightarrow> netd_forward_decl
     \<Rightarrow> (go_error, netd_forward) result" where
  "compile_forward tailscale names listeners decl =
     (if nfd_name decl = [] then Err (GoError ''forward name is required'' [])
      else if \<not> list_all forward_name_char (nfd_name decl)
      then Err (forward_error decl ''name must use the policy identifier grammar'' [])
      else if nfd_name decl \<in> names then Err (forward_error decl ''duplicate name'' [])
      else if nfd_kind decl \<noteq> ''tailscale''
      then Err (forward_error decl ''unsupported listener kind %q; only tailscale forwards are implemented''
             [nfd_kind decl])
      else if nfd_target decl \<noteq> ''self''
      then Err (forward_error decl ''unsupported target %q; only self is implemented'' [nfd_target decl])
      else case tailscale of
        None \<Rightarrow> Err (forward_error decl ''requires exactly one tailscale declaration'' [])
      | Some t \<Rightarrow>
          if nfd_tunnel decl \<noteq> [] \<and> nfd_tunnel decl \<noteq> ntd_name t
          then Err (forward_error decl ''tunnel %q does not match tailscale node %q''
                 [nfd_tunnel decl, ntd_name t])
          else
            let protocol = (if nfd_protocol decl = [] then ''tcp'' else nfd_protocol decl) in
            rbind (forward_tls_check decl protocol) (\<lambda>_.
            rbind (map_err (GoWrapped ''forward %q: %w'' [nfd_name decl])
                    (forward_listen_port (nfd_listen decl))) (\<lambda>port.
              if port = 22 then Err (forward_error decl ''listener port 22 is reserved for SSH'' [])
              else if port \<in> listeners
              then Err (forward_error decl ''duplicate listener port %d'' [show_nat port])
              else if nfd_target_port decl = 0
              then Err (forward_error decl ''target_port must be between 1 and 65535'' [])
              else Ok \<lparr>nw_name = nfd_name decl, nw_listen_port = port,
                       nw_guest_port = nfd_target_port decl, nw_protocol = protocol\<rparr>)))"

fun compile_forward_list ::
  "netd_tailscale_decl option \<Rightarrow> string set \<Rightarrow> nat set \<Rightarrow> netd_forward_decl list
     \<Rightarrow> (go_error, netd_forward list) result" where
  "compile_forward_list tailscale names listeners [] = Ok []"
| "compile_forward_list tailscale names listeners (decl # decls) =
     rbind (compile_forward tailscale names listeners decl) (\<lambda>f.
     rbind (compile_forward_list tailscale (insert (nfd_name decl) names)
              (insert (nw_listen_port f) listeners) decls) (\<lambda>fs.
       Ok (f # fs)))"

definition compile_forwards ::
  "'p netd_policy \<Rightarrow> netd_forward_decl list \<Rightarrow> (go_error, 'p netd_policy) result" where
  "compile_forwards p decls =
     rbind (compile_forward_list (gp_tailscale p) {} {} decls) (\<lambda>fs. Ok (p\<lparr>gp_forwards := fs\<rparr>))"

datatype attachment_scope = ScopeUnknown | ScopeDedicatedVm | ScopeSharedNetwork

definition validate_forward_attachment ::
  "attachment_scope \<Rightarrow> netd_forward list \<Rightarrow> (go_error, unit) result" where
  "validate_forward_attachment scope forwards =
     (case forwards of
        [] \<Rightarrow> Ok ()
      | f # _ \<Rightarrow>
          if scope = ScopeDedicatedVm then Ok ()
          else Err (GoError ''forward %q: target %q requires a dedicated 1:1 netd attachment''
                 [nw_name f, ''self'']))"

section \<open>Endpoints\<close>

text \<open>\<open>sort.Slice\<close> by start and then end; ranges that compare equal are equal.\<close>

definition sort_port_ranges :: "netd_port_range list \<Rightarrow> netd_port_range list" where
  "sort_port_ranges rs = sort_key npr_start (sort_key npr_end rs)"

fun merge_port_ranges :: "netd_port_range list \<Rightarrow> netd_port_range list \<Rightarrow> netd_port_range list" where
  "merge_port_ranges merged [] = merged"
| "merge_port_ranges merged (current # rest) =
     (case rev merged of
        [] \<Rightarrow> merge_port_ranges [current] rest
      | final # front \<Rightarrow>
          if npr_start current \<le> npr_end final + 1
          then merge_port_ranges
                 (rev front @ [if npr_end current > npr_end final
                               then final\<lparr>npr_end := npr_end current\<rparr> else final]) rest
          else merge_port_ranges (merged @ [current]) rest)"

definition normalize_port_ranges :: "netd_port_range list \<Rightarrow> netd_port_range list" where
  "normalize_port_ranges ranges = merge_port_ranges [] (sort_port_ranges ranges)"

type_synonym prefix_parser = "string \<Rightarrow> (string, go_prefix) result"

definition parse_prefixes ::
  "prefix_parser \<Rightarrow> string \<Rightarrow> string list \<Rightarrow> (go_error, go_prefix list) result" where
  "parse_prefixes parse_prefix message cidrs =
     collect_results (\<lambda>cidr. map_err (\<lambda>e. GoError message [cidr, e]) (parse_prefix cidr)) cidrs"

definition compile_ip_endpoint ::
  "go_net \<Rightarrow> prefix_parser \<Rightarrow> netd_endpoint_decl \<Rightarrow> (go_error, ip_endpoint) result" where
  "compile_ip_endpoint net parse_prefix decl =
     (if ned_destination_cidrs decl = [] \<and> ned_source_cidrs decl = []
      then Err (GoError ''at least one source or destination entry is required'' [])
      else
        let stated = gn_to_lower net (trim (ned_protocol decl));
            protocol = (if stated = [] then ''any'' else stated)
        in rbind (if protocol = ''any''
                  then (if ned_ports decl \<noteq> []
                        then Err (GoError ''protocol any cannot be combined with ports'' []) else Ok ())
                  else if protocol = ''tcp'' \<or> protocol = ''udp'' then Ok ()
                  else Err (GoError ''unsupported protocol %q'' [protocol])) (\<lambda>_.
           rbind (parse_prefixes parse_prefix ''invalid source entry %q: %w'' (ned_source_cidrs decl))
             (\<lambda>sources.
           rbind (parse_prefixes parse_prefix ''invalid destination entry %q: %w''
                   (ned_destination_cidrs decl)) (\<lambda>destinations.
             Ok \<lparr>ie_name = ned_name decl, ie_source_prefixes = sources,
                 ie_destination_prefixes = destinations, ie_protocol = protocol,
                 ie_ports = normalize_port_ranges (ned_ports decl)\<rparr>))))"

definition host_binding_key :: "string \<Rightarrow> string \<Rightarrow> nat \<Rightarrow> bool \<Rightarrow> string" where
  "host_binding_key transport host port wildcard =
     transport @ ''|'' @ (if wildcard then ''wildcard'' else ''exact'') @ ''|'' @ host @ ''|''
       @ show_nat port"

fun compile_bindings ::
  "go_net \<Rightarrow> netd_endpoint_definition \<Rightarrow> string set \<Rightarrow> string list \<Rightarrow> (host_error, binding list) result"
where
  "compile_bindings net d seen [] = Ok []"
| "compile_bindings net d seen (host # hosts) =
     rbind (parse_binding net host (nd_default_port d)) (\<lambda>b.
       let key = host_binding_key (nd_transport d) (bi_host b) (bi_port b) (bi_wildcard b) in
       if key \<in> seen then compile_bindings net d seen hosts
       else rbind (compile_bindings net d (insert key seen) hosts) (\<lambda>bs. Ok (b # bs)))"

definition compile_http_endpoint_decl ::
  "go_net \<Rightarrow> netd_endpoint_definition \<Rightarrow> string \<Rightarrow> string list \<Rightarrow> (go_error, http_endpoint) result"
where
  "compile_http_endpoint_decl net d name hosts =
     (if hosts = [] then Err (GoError ''Missing hosts: hosts is required'' [])
      else rbind (map_err GoHostError (compile_bindings net d {} hosts)) (\<lambda>bindings.
        Ok \<lparr>he_kind = nd_kind d, he_name = name, he_family = nd_family d,
            he_transport = nd_transport d, he_default_port = nd_default_port d,
            he_hosts = bindings\<rparr>))"

fun add_bindings ::
  "string \<Rightarrow> netd_ref \<Rightarrow> binding list \<Rightarrow> (string, netd_ref) btree
     \<Rightarrow> (go_error, (string, netd_ref) btree) result" where
  "add_bindings transport r [] exact = Ok exact"
| "add_bindings transport r (b # bs) exact =
     (if bi_wildcard b then add_bindings transport r bs exact
      else
        let key = host_binding_key transport (bi_host b) (bi_port b) False in
        case bt_get key exact of
          Some existing \<Rightarrow> Err (GoError ''host %q:%d duplicates exact binding on %q''
                              [bi_host b, show_nat (bi_port b), ref_string existing])
        | None \<Rightarrow> add_bindings transport r bs (bt_insert key r exact))"

definition add_http_endpoint ::
  "http_endpoint \<Rightarrow> 'p netd_policy \<Rightarrow> (go_error, 'p netd_policy) result" where
  "add_http_endpoint e p =
     rbind (add_bindings (he_transport e) (endpoint_ref e) (he_hosts e)
              (gp_exact_http_bindings p)) (\<lambda>exact.
       Ok (p\<lparr>gp_exact_http_bindings := exact\<rparr>))"

fun go_repository_hosts :: "string \<Rightarrow> string list option" where
  "go_repository_hosts name =
     (if name = ''npm'' then Some [''registry.npmjs.org'', ''registry.yarnpkg.com'', ''registry.npmjs.com'']
      else if name = ''pypi''
      then Some [''pypi.org'', ''files.pythonhosted.org'', ''pypi.python.org'', ''pythonhosted.org'']
      else None)"

text \<open>\<open>registryHosts\<close> drops the error of \<open>HostsForNames\<close>, which leaves no hosts.\<close>

definition go_registry_hosts :: "string list \<Rightarrow> string list" where
  "go_registry_hosts names =
     (if list_ex (\<lambda>n. go_repository_hosts n = None) names \<or> \<not> distinct names then []
      else foldl push_new [] (concat (map (the \<circ> go_repository_hosts) names)))"

definition go_parse_https_origin :: "go_net \<Rightarrow> string \<Rightarrow> (string \<times> nat) option" where
  "go_parse_https_origin net value =
     (case gn_url_parse net value of
        Inl _ \<Rightarrow> None
      | Inr u \<Rightarrow>
          if pu_scheme u \<noteq> ''https'' \<or> pu_host u = [] \<or> pu_user u \<or> pu_raw_query u \<noteq> [] \<or>
             pu_fragment u \<noteq> []
          then None
          else
            let host = gn_to_lower net (url_hostname u) in
            if host = [] \<or> list_ex (\<lambda>c. code c \<in> {32, 9, 10, 13}) host then None
            else if url_port u = [] then Some (host, 443)
            else Option.bind (parse_uint u16_max (url_port u)) (\<lambda>port.
                   if port = 0 then None else Some (host, port)))"

fun registry_names :: "string set \<Rightarrow> go_any list \<Rightarrow> (go_error, string list) result" where
  "registry_names seen [] = Ok []"
| "registry_names seen (raw # raws) =
     (case raw of
        GoString name \<Rightarrow>
          if go_repository_hosts name = None
          then Err (GoError ''registry names must be npm or pypi'' [])
          else if name \<in> seen then Err (GoError ''registry %q is declared more than once'' [name])
          else rbind (registry_names (insert name seen) raws) (\<lambda>names. Ok (name # names))
      | _ \<Rightarrow> Err (GoError ''registry names must be npm or pypi'' []))"

definition package_age :: "netd_endpoint_decl \<Rightarrow> (go_error, nat) result" where
  "package_age decl =
     (let bad = Err (GoError ''filter_package_age must be a positive integer'' []) in
      case bt_get ''filter_package_age'' (ned_config decl) of
        None \<Rightarrow> Ok 0
      | Some (GoNumber age) \<Rightarrow>
          if age < 1 \<or> age > 2 ^ 32 - 1 \<or> age \<noteq> of_int (floor age) then bad
          else Ok (nat (floor age))
      | Some _ \<Rightarrow> bad)"

definition compile_registry_endpoint_decl ::
  "go_net \<Rightarrow> netd_endpoint_definition \<Rightarrow> netd_endpoint_decl
     \<Rightarrow> (go_error, netd_registry_endpoint) result" where
  "compile_registry_endpoint_decl net d decl =
     (let config_error = Err (GoError (''canonical config must contain registries, malware_feed, ''
            @ ''and optional filter_package_age'') []) in
      if length (ned_config decl) < 2 \<or> length (ned_config decl) > 3 then config_error
      else case bt_get ''registries'' (ned_config decl) of
        Some (GoArray raws) \<Rightarrow>
          if raws = [] then Err (GoError ''registries must be a non-empty array'' [])
          else rbind (registry_names {} raws) (\<lambda>names.
            if ned_hosts decl \<noteq> go_registry_hosts names
            then Err (GoError ''registry host bindings do not match registries'' [])
            else case bt_get ''malware_feed'' (ned_config decl) of
              Some (GoString base_url) \<Rightarrow>
                (case go_parse_https_origin net base_url of
                   None \<Rightarrow> Err (GoError
                     ''malware_feed must be an HTTPS URL with a valid host and optional port'' [])
                 | Some (host, port) \<Rightarrow>
                     let egress = \<lparr>neg_host = host, neg_port = port, neg_tls = True\<rparr> in
                     if ned_egress decl \<noteq> [egress]
                     then Err (GoError ''registry intelligence egress does not match malware_feed'' [])
                     else rbind (package_age decl) (\<lambda>age.
                       if length (ned_config decl) \<noteq> (if age > 0 then 3 else 2) then config_error
                       else rbind (compile_http_endpoint_decl net d (ned_name decl) (ned_hosts decl))
                         (\<lambda>e. Ok \<lparr>re_endpoint = e, re_registries = names, re_malware_feed = base_url,
                                 re_filter_package_age = age, re_egress = egress\<rparr>)))
            | _ \<Rightarrow> Err (GoError ''malware_feed must be an HTTPS URL'' []))
      | _ \<Rightarrow> Err (GoError ''registries must be a non-empty array'' []))"

definition netd_validate_descriptor ::
  "netd_endpoint_decl \<Rightarrow> netd_endpoint_definition \<Rightarrow> (go_error, unit) result" where
  "netd_validate_descriptor decl d =
     (let about = [ned_name decl, ned_kind decl] in
      if ned_family decl \<noteq> nd_family d
      then Err (GoError ''endpoint %q type %q requires family %q'' (about @ [nd_family d]))
      else if ned_transport decl \<noteq> nd_transport d
      then Err (GoError ''endpoint %q type %q requires transport %q'' (about @ [nd_transport d]))
      else if ned_tls decl \<noteq> nd_tls_mode d
      then Err (GoError ''endpoint %q type %q requires TLS mode %q'' (about @ [nd_tls_mode d]))
      else if ned_capabilities decl \<noteq>
              (if nd_supports_credentials d then [''credential-injection''] else [])
      then Err (GoError ''endpoint %q type %q has unexpected capabilities'' about)
      else Ok ())"

definition already_defined :: "string \<Rightarrow> go_error" where
  "already_defined key = GoError ''Endpoint %q is already defined.'' [key]"

definition decode_error :: "string \<Rightarrow> go_error \<Rightarrow> go_error" where
  "decode_error key e = GoWrapped ''decode endpoint %q: %v'' [key] e"

text \<open>The table of the HTTP frontend a transport uses, as a getter and an updater.\<close>

definition http_endpoints_for_transport ::
  "string \<Rightarrow> 'p netd_policy \<Rightarrow> (go_error, (string, http_endpoint) btree) result" where
  "http_endpoints_for_transport transport p =
     (if transport = ''http-proxy'' then Ok (gp_http_endpoints p)
      else if transport = ''https-mitm'' then Ok (gp_https_endpoints p)
      else if transport = ''tls-terminate'' then Ok (gp_package_endpoints p)
      else Err (GoError ''transport %q does not use the HTTP endpoint frontend'' [transport]))"

definition set_http_endpoint ::
  "string \<Rightarrow> string \<Rightarrow> http_endpoint \<Rightarrow> 'p netd_policy \<Rightarrow> 'p netd_policy" where
  "set_http_endpoint transport key e p =
     (if transport = ''http-proxy''
      then p\<lparr>gp_http_endpoints := bt_insert key e (gp_http_endpoints p)\<rparr>
      else if transport = ''https-mitm''
      then p\<lparr>gp_https_endpoints := bt_insert key e (gp_https_endpoints p)\<rparr>
      else if transport = ''tls-terminate''
      then p\<lparr>gp_package_endpoints := bt_insert key e (gp_package_endpoints p)\<rparr>
      else p)"

definition add_ip_endpoint ::
  "go_net \<Rightarrow> prefix_parser \<Rightarrow> netd_endpoint_decl \<Rightarrow> string \<Rightarrow> 'p netd_policy
     \<Rightarrow> (go_error, 'p netd_policy) result" where
  "add_ip_endpoint net parse_prefix decl key p =
     (if bt_get key (gp_ip_endpoints p) \<noteq> None then Err (already_defined key)
      else rbind (map_err (decode_error key) (compile_ip_endpoint net parse_prefix decl)) (\<lambda>e.
        Ok (p\<lparr>gp_ip_endpoints := bt_insert key e (gp_ip_endpoints p)\<rparr>)))"

definition add_hosts_endpoint ::
  "go_net \<Rightarrow> netd_endpoint_definition \<Rightarrow> netd_endpoint_decl \<Rightarrow> string \<Rightarrow> 'p netd_policy
     \<Rightarrow> (go_error, 'p netd_policy) result" where
  "add_hosts_endpoint net d decl key p =
     rbind (map_err (decode_error key) (http_endpoints_for_transport (nd_transport d) p)) (\<lambda>endpoints.
       if bt_get key endpoints \<noteq> None then Err (already_defined key)
       else rbind (map_err (decode_error key)
                    (compile_http_endpoint_decl net d (ned_name decl) (ned_hosts decl))) (\<lambda>e.
            rbind (map_err (decode_error key) (add_http_endpoint e p)) (\<lambda>p'.
              Ok (set_http_endpoint (nd_transport d) key e p'))))"

definition add_registry_endpoint ::
  "go_net \<Rightarrow> netd_endpoint_definition \<Rightarrow> netd_endpoint_decl \<Rightarrow> string \<Rightarrow> 'p netd_policy
     \<Rightarrow> (go_error, 'p netd_policy) result" where
  "add_registry_endpoint net d decl key p =
     (if bt_get key (gp_registry_endpoints p) \<noteq> None then Err (already_defined key)
      else rbind (map_err (decode_error key) (compile_registry_endpoint_decl net d decl)) (\<lambda>r.
           rbind (map_err (decode_error key) (add_http_endpoint (re_endpoint r) p)) (\<lambda>p'.
             Ok (p'\<lparr>gp_package_endpoints := bt_insert key (re_endpoint r) (gp_package_endpoints p'),
                    gp_registry_endpoints := bt_insert key r (gp_registry_endpoints p')\<rparr>))))"

definition add_endpoint_decl ::
  "go_net \<Rightarrow> prefix_parser \<Rightarrow> netd_endpoint_decl \<Rightarrow> 'p netd_policy
     \<Rightarrow> (go_error, 'p netd_policy) result" where
  "add_endpoint_decl net parse_prefix decl p =
     (let r = \<lparr>rf_kind = ned_kind decl, rf_name = ned_name decl\<rparr>; key = ref_string r in
      if ned_name decl = [] then Err (GoError ''name is required'' [])
      else if bt_get (ned_name decl) (gp_endpoint_refs_by_name p) \<noteq> None
      then Err (GoError ''duplicate endpoint name %q'' [ned_name decl])
      else case bt_get (ned_kind decl) (ng_endpoints (gp_registry p)) of
        None \<Rightarrow> Err (GoError ''unsupported endpoint kind %q'' [ned_kind decl])
      | Some d \<Rightarrow>
          rbind (netd_validate_descriptor decl d) (\<lambda>_.
          rbind (case nd_schema d of
                   NetdIp \<Rightarrow> add_ip_endpoint net parse_prefix decl key p
                 | NetdHosts \<Rightarrow> add_hosts_endpoint net d decl key p
                 | NetdRegistries \<Rightarrow> add_registry_endpoint net d decl key p) (\<lambda>p'.
            Ok (p'\<lparr>gp_endpoint_refs_by_name := bt_insert (ned_name decl) r (gp_endpoint_refs_by_name p'),
                   gp_endpoint_definitions := bt_insert key d (gp_endpoint_definitions p')\<rparr>))))"

section \<open>Credentials and rules\<close>

definition known_credential_kind :: "string \<Rightarrow> bool" where
  "known_credential_kind kind \<longleftrightarrow>
     kind \<in> {''basic_auth'', ''bearer_token'', ''header_token'', ''github_oauth'',
             ''openai_codex_oauth'', ''aws_credential''}"

definition optional_condition ::
  "('e, 'a, 'p) go_cel \<Rightarrow> netd_registry \<Rightarrow> string \<Rightarrow> string \<Rightarrow> (go_error \<Rightarrow> go_error)
     \<Rightarrow> (go_error, 'p netd_condition option) result" where
  "optional_condition cel registry family source wrap =
     (if source = [] then Ok None
      else rbind (map_err wrap (compile_condition cel registry family source)) (\<lambda>c. Ok (Some c)))"

definition supports_credentials :: "'p netd_policy \<Rightarrow> netd_ref \<Rightarrow> bool" where
  "supports_credentials p r \<longleftrightarrow>
     (case bt_get (ref_string r) (gp_endpoint_definitions p) of
        None \<Rightarrow> False
      | Some d \<Rightarrow> nd_supports_credentials d)"

definition add_credential_decl ::
  "('e, 'a, 'p) go_cel \<Rightarrow> netd_credential_decl \<Rightarrow> 'p netd_policy
     \<Rightarrow> (go_error, 'p netd_policy) result" where
  "add_credential_decl cel decl p =
     (let r = \<lparr>rf_kind = ncd_kind decl, rf_name = ncd_name decl\<rparr>; key = ref_string r;
          about = [ncd_kind decl, ncd_name decl] in
      if \<not> known_credential_kind (ncd_kind decl)
      then Err (GoError ''unsupported credential kind %q'' [ncd_kind decl])
      else if ncd_name decl = [] then Err (GoError ''name is required'' [])
      else if bt_get (ncd_name decl) (gp_credential_refs_by_name p) \<noteq> None
      then Err (GoError ''duplicate credential name %q'' [ncd_name decl])
      else case bt_get (ncd_endpoint decl) (gp_endpoint_refs_by_name p) of
        None \<Rightarrow> Err (GoError ''credential %q.%q references unknown endpoint %q''
                  (about @ [ncd_endpoint decl]))
      | Some e \<Rightarrow>
          if \<not> supports_credentials p e
          then Err (GoError ''credential %q.%q must reference an https endpoint'' about)
          else if bt_get key (gp_credentials p) \<noteq> None
          then Err (GoError ''duplicate credential %q'' [key])
          else rbind (optional_condition cel (gp_registry p) ''http'' (ncd_condition decl)
                 (GoWrapped ''credential %q.%q condition is invalid: %w'' about)) (\<lambda>c.
            let k = \<lparr>nk_kind = ncd_kind decl, nk_name = ncd_name decl, nk_endpoint = e,
                     nk_username = ncd_username decl, nk_header = ncd_header decl,
                     nk_prefix = ncd_prefix decl, nk_idempotency_key = ncd_idempotency_key decl,
                     nk_condition = c\<rparr>;
                bound = (case bt_get (ref_string e) (gp_credentials_by_endpoint p) of
                           None \<Rightarrow> [] | Some ks \<Rightarrow> ks)
            in Ok (p\<lparr>gp_credentials := bt_insert key k (gp_credentials p),
                     gp_credential_refs_by_name :=
                       bt_insert (ncd_name decl) r (gp_credential_refs_by_name p),
                     gp_credentials_by_endpoint :=
                       bt_insert (ref_string e) (bound @ [k]) (gp_credentials_by_endpoint p)\<rparr>)))"

definition endpoint_family_of :: "'p netd_policy \<Rightarrow> netd_ref \<Rightarrow> (go_error, string) result" where
  "endpoint_family_of p r =
     (case bt_get (ref_string r) (gp_endpoint_definitions p) of
        None \<Rightarrow> Err (GoError ''references unknown endpoint %q'' [ref_string r])
      | Some d \<Rightarrow> Ok (nd_family d))"

fun same_family :: "'p netd_policy \<Rightarrow> string \<Rightarrow> netd_ref list \<Rightarrow> (go_error, string) result" where
  "same_family p family [] = Ok family"
| "same_family p family (r # rs) =
     rbind (endpoint_family_of p r) (\<lambda>f.
       if f \<noteq> family then Err (GoError ''all endpoints in one rule must have the same family'' [])
       else same_family p family rs)"

definition validate_endpoint_family :: "'p netd_policy \<Rightarrow> netd_ref list \<Rightarrow> (go_error, string) result" where
  "validate_endpoint_family p refs =
     (case refs of
        [] \<Rightarrow> Err (GoError ''requires at least one endpoint'' [])
      | r # rs \<Rightarrow> rbind (endpoint_family_of p r) (\<lambda>family. same_family p family rs))"

definition netd_validate_rule_credential :: "'p netd_policy \<Rightarrow> 'p netd_rule \<Rightarrow> (go_error, unit) result" where
  "netd_validate_rule_credential p r =
     (case rl_credential r of
        None \<Rightarrow> Ok ()
      | Some c \<Rightarrow>
          (case bt_get (ref_string c) (gp_credentials p) of
             None \<Rightarrow> Err (GoError ''rule %q references unknown credential %q''
                       [rl_name r, ref_string c])
           | Some k \<Rightarrow>
               if rl_family r \<noteq> ''http''
               then Err (GoError ''rule %q credential predicates are invalid on ip endpoints'' [rl_name r])
               else if \<not> supports_credentials p (nk_endpoint k)
               then Err (GoError ''rule %q credential predicate must reference an https credential''
                      [rl_name r])
               else if nk_endpoint k \<in> set (rl_endpoints r) then Ok ()
               else Err (GoError ''rule %q credential %q must bind to a directly referenced endpoint''
                      [rl_name r, ref_string c])))"

definition rule_endpoints ::
  "'p netd_policy \<Rightarrow> netd_rule_decl \<Rightarrow> (go_error, netd_ref list) result" where
  "rule_endpoints p decl =
     collect_results (\<lambda>name. ok_or (bt_get name (gp_endpoint_refs_by_name p))
       (GoError ''rule %q references unknown endpoint %q'' [nrd_name decl, name])) (nrd_endpoints decl)"

definition rule_credential_ref ::
  "'p netd_policy \<Rightarrow> netd_rule_decl \<Rightarrow> (go_error, netd_ref option) result" where
  "rule_credential_ref p decl =
     (if nrd_credential decl = [] then Ok None
      else case bt_get (nrd_credential decl) (gp_credential_refs_by_name p) of
        None \<Rightarrow> Err (GoError ''rule %q references unknown credential %q''
                  [nrd_name decl, nrd_credential decl])
      | Some c \<Rightarrow> Ok (Some c))"

definition rule_tunnel ::
  "'p netd_policy \<Rightarrow> netd_rule_decl \<Rightarrow> string \<Rightarrow> (go_error, netd_ref option) result" where
  "rule_tunnel p decl family =
     (let bad = Err (GoError ''rule %q requires an existing tailscale tunnel on an IP allow rule''
            [nrd_name decl]) in
      if nrd_tunnel decl = [] then Ok None
      else case gp_tailscale p of
        None \<Rightarrow> bad
      | Some t \<Rightarrow>
          if nrd_tunnel decl \<noteq> ntd_name t \<or> family \<noteq> ''ip'' \<or> nrd_verdict decl \<noteq> ''allow'' then bad
          else Ok (Some \<lparr>rf_kind = ''tailscale'', rf_name = ntd_name t\<rparr>))"

definition family_rules :: "'p netd_policy \<Rightarrow> string \<Rightarrow> 'p netd_rule list" where
  "family_rules p family = (case bt_get family (gp_rules_by_family p) of None \<Rightarrow> [] | Some rs \<Rightarrow> rs)"

definition push_rule :: "string \<Rightarrow> 'p netd_rule \<Rightarrow> 'p netd_policy \<Rightarrow> 'p netd_policy" where
  "push_rule family r p =
     p\<lparr>gp_rules_by_family :=
         bt_insert family (family_rules p family @ [r]) (gp_rules_by_family p)\<rparr>"

definition file_rule :: "'p netd_rule \<Rightarrow> 'p netd_policy \<Rightarrow> (go_error, 'p netd_policy) result" where
  "file_rule r p =
     rbind (netd_validate_rule_credential p r) (\<lambda>_.
       case bt_get (rl_family r) (ng_families (gp_registry p)) of
         None \<Rightarrow> Err (GoError ''rule %q references unsupported endpoint family %q''
                   [rl_name r, rl_family r])
       | Some d \<Rightarrow>
           if \<not> nfm_cel d \<and> rl_condition r \<noteq> None
           then Err (GoError ''rule %q condition is only supported for HTTP-family endpoint rules''
                  [rl_name r])
           else if rl_disabled r then Ok p
           else Ok (push_rule (rl_family r) r p))"

definition add_rule_decl ::
  "('e, 'a, 'p) go_cel \<Rightarrow> netd_rule_decl \<Rightarrow> nat \<Rightarrow> 'p netd_policy
     \<Rightarrow> (go_error, 'p netd_policy) result" where
  "add_rule_decl cel decl order p =
     rbind (rule_endpoints p decl) (\<lambda>endpoints.
     rbind (map_err (GoWrapped ''rule %q: %w'' [nrd_name decl]) (validate_endpoint_family p endpoints))
       (\<lambda>family.
     rbind (rule_credential_ref p decl) (\<lambda>credential.
     rbind (rule_tunnel p decl family) (\<lambda>tunnel.
     if nrd_verdict decl \<noteq> ''allow'' \<and> nrd_verdict decl \<noteq> ''deny''
     then Err (GoError ''rule %q has unsupported verdict %q'' [nrd_name decl, nrd_verdict decl])
     else
       rbind (optional_condition cel (gp_registry p) family (nrd_condition decl)
               (GoWrapped ''rule %q condition is invalid: %w'' [nrd_name decl])) (\<lambda>condition.
         file_rule
           \<lparr>rl_tunnel = tunnel, rl_name = nrd_name decl, rl_family = family,
            rl_endpoints = endpoints, rl_credential = credential, rl_verdict = nrd_verdict decl,
            rl_priority = nrd_priority decl, rl_disabled = nrd_disabled decl,
            rl_reason = nrd_reason decl, rl_order = order, rl_condition = condition\<rparr> p)))))"

text \<open>\<open>sort.SliceStable\<close> by descending priority.\<close>

definition sort_rules :: "'p netd_policy \<Rightarrow> 'p netd_policy" where
  "sort_rules p =
     p\<lparr>gp_rules_by_family :=
         map (\<lambda>(family, rs). (family, sort_key (\<lambda>r. - rl_priority r) rs)) (gp_rules_by_family p)\<rparr>"

section \<open>Compilation and loading\<close>

fun add_all :: "('x \<Rightarrow> 's \<Rightarrow> ('e, 's) result) \<Rightarrow> 'x list \<Rightarrow> 's \<Rightarrow> ('e, 's) result" where
  "add_all add [] s = Ok s"
| "add_all add (x # xs) s = rbind (add x s) (add_all add xs)"

record netd_load_error =
  nl_filename :: string
  nl_summary :: string
  nl_detail :: go_error

definition compile_load_error :: "string \<Rightarrow> string \<Rightarrow> go_error \<Rightarrow> netd_load_error" where
  "compile_load_error filename summary detail =
     \<lparr>nl_filename = filename, nl_summary = summary, nl_detail = detail\<rparr>"

definition tunnel_name_ok :: "string \<Rightarrow> bool" where
  "tunnel_name_ok name \<longleftrightarrow> name \<noteq> [] \<and> name \<noteq> ''silo'' \<and> CHR ''/'' \<notin> set name \<and> CHR '' '' \<notin> set name"

definition compile_tailscale ::
  "netd_tailscale_decl list \<Rightarrow> 'p netd_policy \<Rightarrow> (go_error, 'p netd_policy) result" where
  "compile_tailscale decls p =
     (case decls of
        [] \<Rightarrow> Ok p
      | [t] \<Rightarrow> if tunnel_name_ok (ntd_name t) then Ok (p\<lparr>gp_tailscale := Some t\<rparr>)
               else Err (GoError ''invalid tunnel name'' [])
      | _ \<Rightarrow> Err (GoError ''at most one tailscale declaration is supported'' []))"

definition compile_settings ::
  "network_policy_file \<Rightarrow> 'p netd_policy \<Rightarrow> (go_error, 'p netd_policy) result" where
  "compile_settings document p =
     (let action = (if npf_default_action document \<noteq> [] then npf_default_action document
                    else gp_default_action p);
          buffer = npf_body_buffer_bytes document; storage = npf_body_storage_bytes document
      in if action \<noteq> ''allow'' \<and> action \<noteq> ''deny''
         then Err (GoError ''unsupported default_action %q'' [action])
         else Ok (p\<lparr>gp_default_action := action,
                    gp_warnings := gp_warnings p +
                      (if buffer > 0 \<and> storage > 0 \<and> buffer < storage then 1 else 0)\<rparr>))"

definition compile_network_policy ::
  "go_net \<Rightarrow> prefix_parser \<Rightarrow> ('e, 'a, 'p) go_cel \<Rightarrow> string \<Rightarrow> network_policy_file
     \<Rightarrow> (netd_load_error, 'p netd_policy) result" where
  "compile_network_policy net parse_prefix cel filename document =
     (let failed = compile_load_error filename in
      if npf_version document \<noteq> 1
      then Err (failed ''Unsupported policy version''
             (GoError ''policy version must be 1, got %d'' [show_int (npf_version document)]))
      else
        rbind (map_err (failed ''Invalid settings'')
          (compile_settings document (new_policy\<lparr>gp_metadata := npf_metadata document\<rparr>))) (\<lambda>p1.
        rbind (map_err (failed ''Invalid tailscale configuration'')
          (compile_tailscale (npf_tailscale document) p1)) (\<lambda>p2.
        rbind (map_err (failed ''Invalid network forward'')
          (compile_forwards p2 (npf_forwards document))) (\<lambda>p3.
        rbind (map_err (failed ''Invalid endpoint'')
          (add_all (add_endpoint_decl net parse_prefix) (npf_endpoints document) p3)) (\<lambda>p4.
        rbind (map_err (failed ''Invalid credential'')
          (add_all (add_credential_decl cel) (npf_credentials document) p4)) (\<lambda>p5.
        rbind (map_err (failed ''Invalid rule'')
          (add_all (\<lambda>(i, decl). add_rule_decl cel decl i)
            (enumerate 0 (npf_rules document)) p5)) (\<lambda>p6.
          Ok (sort_rules p6))))))))"

text \<open>
  Decoding of a source with \<open>encoding/json\<close>: the raw metadata if the source decodes, whether a raw
  value decodes as an object, the first document (unknown fields refused) with the rest of the
  input, and whether the rest holds another value.
\<close>

record go_json =
  gj_metadata :: "string \<Rightarrow> string option"
  gj_is_object :: "string \<Rightarrow> bool"
  gj_decode :: "string \<Rightarrow> (string, network_policy_file \<times> string) result"
  gj_at_eof :: "string \<Rightarrow> bool"

definition load_canonical_source ::
  "go_net \<Rightarrow> prefix_parser \<Rightarrow> ('e, 'a, 'p) go_cel \<Rightarrow> go_json \<Rightarrow> string \<Rightarrow> string
     \<Rightarrow> (netd_load_error, 'p netd_policy) result" where
  "load_canonical_source net parse_prefix cel json filename source =
     (let failed = compile_load_error filename;
          bad_metadata = (case gj_metadata json source of
             None \<Rightarrow> False
           | Some raw \<Rightarrow> raw \<noteq> [] \<and> \<not> (prefix ''{'' (trim raw) \<and> gj_is_object json (trim raw)))
      in if bad_metadata
         then Err (failed ''Invalid metadata'' (GoError ''metadata must be a JSON object'' []))
         else rbind (map_err (\<lambda>e. failed ''Invalid policy JSON'' (cel_error e)) (gj_decode json source))
           (\<lambda>(document, rest).
             if \<not> gj_at_eof json rest
             then Err (failed ''Invalid policy JSON''
                    (GoError ''policy file must contain exactly one JSON document'' []))
             else compile_network_policy net parse_prefix cel filename document))"

end
