(* ===== verification/Netd_Eval.thy ===== *)
theory Netd_Eval
  imports Netd_Policy
begin

text \<open>
  Enforcement (\<open>net/netd/internal/policy/eval.go\<close> and the matching methods of \<open>model.go\<close>):
  deciding flows, HTTP requests and package requests against a compiled policy. Where the code
  ranges over a map of endpoints the order is the parameter \<open>iter\<close>, any reordering of the
  endpoints of the map.
\<close>

section \<open>Requests and decisions\<close>

record flow =
  fl_tailnet_destination :: bool
  fl_protocol :: string
  fl_source_ip :: "8 word list"
  fl_source_port :: nat
  fl_dest_ip :: "8 word list"
  fl_dest_port :: nat

record http_request =
  hr_flow :: flow
  hr_endpoint_kind :: string
  hr_host :: string
  hr_method :: string
  hr_path :: string
  hr_query :: string
  hr_header :: "(string, string list) btree"

record package_facts =
  pf_ecosystem :: string
  pf_operation :: string
  pf_name :: string
  pf_version :: string
  pf_identity_known :: bool
  pf_age_known :: bool
  pf_age_hours :: int
  pf_age_source :: string
  pf_malware_data_available :: bool
  pf_malware :: bool
  pf_malware_reason :: string

record package_request =
  pq_method :: string
  pq_host :: string
  pq_path :: string
  pq_query :: "(string, string list) btree"
  pq_headers :: "(string, string list) btree"
  pq_package :: package_facts

datatype l4_match_kind = L4ProtocolOnly | L4ExactPort | L4Range

record l4_match =
  lm_endpoint_protocol :: string
  lm_dest_port :: nat
  lm_port_range :: netd_port_range
  lm_kind :: l4_match_kind

datatype decision_layer = LayerFlow | LayerRequest
datatype decision_source = SourceRule | SourceDefault

record 'p decision =
  de_tunnel :: "netd_ref option"
  de_action :: string
  de_layer :: decision_layer
  de_source :: decision_source
  de_default_action :: string
  de_classification_opportunity :: bool
  de_rule_name :: string
  de_reason :: string
  de_endpoint_kind :: string
  de_endpoint_name :: string
  de_matched_l4 :: "l4_match option"
  de_matched_flow :: "flow option"
  de_matched_request :: "http_request option"
  de_package :: "package_facts option"
  de_selected_credential :: "'p netd_credential option"

definition zero_decision :: "'p decision" where
  "zero_decision =
     \<lparr>de_tunnel = None, de_action = [], de_layer = LayerFlow, de_source = SourceDefault,
      de_default_action = [], de_classification_opportunity = False, de_rule_name = [],
      de_reason = [], de_endpoint_kind = [], de_endpoint_name = [], de_matched_l4 = None,
      de_matched_flow = None, de_matched_request = None, de_package = None,
      de_selected_credential = None\<rparr>"

definition default_reason :: "string \<Rightarrow> string" where
  "default_reason action = ''default_'' @ action"

section \<open>Matching flows\<close>

definition matches_protocol :: "go_net \<Rightarrow> ip_endpoint \<Rightarrow> string \<Rightarrow> bool" where
  "matches_protocol net e protocol \<longleftrightarrow> ie_protocol e = ''any'' \<or> ie_protocol e = gn_to_lower net protocol"

definition match_port :: "ip_endpoint \<Rightarrow> nat \<Rightarrow> netd_port_range option" where
  "match_port e port =
     (if ie_ports e = [] then Some \<lparr>npr_start = 0, npr_end = 0\<rparr>
      else find (\<lambda>r. npr_start r \<le> port \<and> port \<le> npr_end r) (ie_ports e))"

definition l4_kind :: "netd_port_range \<Rightarrow> l4_match_kind" where
  "l4_kind r =
     (if npr_start r = 0 \<and> npr_end r = 0 then L4ProtocolOnly
      else if npr_start r = npr_end r then L4ExactPort else L4Range)"

definition prefixes_contain :: "go_prefix list \<Rightarrow> go_addr \<Rightarrow> bool" where
  "prefixes_contain ps addr \<longleftrightarrow> list_ex (\<lambda>p. prefix_contains p (unmap_addr addr)) ps"

definition prefixes_admit :: "go_prefix list \<Rightarrow> 8 word list \<Rightarrow> bool" where
  "prefixes_admit ps ip \<longleftrightarrow>
     ps = [] \<or> (case addr_from_ip ip of None \<Rightarrow> False | Some a \<Rightarrow> prefixes_contain ps a)"

definition ip_endpoint_match :: "go_net \<Rightarrow> ip_endpoint \<Rightarrow> flow \<Rightarrow> l4_match option" where
  "ip_endpoint_match net e f =
     (if \<not> matches_protocol net e (fl_protocol f) then None
      else case match_port e (fl_dest_port f) of
        None \<Rightarrow> None
      | Some r \<Rightarrow>
          if \<not> prefixes_admit (ie_source_prefixes e) (fl_source_ip f) then None
          else if \<not> prefixes_admit (ie_destination_prefixes e) (fl_dest_ip f) then None
          else Some \<lparr>lm_endpoint_protocol = ie_protocol e, lm_dest_port = fl_dest_port f,
                    lm_port_range = r, lm_kind = l4_kind r\<rparr>)"

fun match_ip_refs ::
  "go_net \<Rightarrow> 'p netd_policy \<Rightarrow> flow \<Rightarrow> netd_ref list \<Rightarrow> (ip_endpoint \<times> l4_match) option" where
  "match_ip_refs net p f [] = None"
| "match_ip_refs net p f (r # rs) =
     (case bt_get (ref_string r) (gp_ip_endpoints p) of
        None \<Rightarrow> match_ip_refs net p f rs
      | Some e \<Rightarrow>
          (case ip_endpoint_match net e f of
             None \<Rightarrow> match_ip_refs net p f rs
           | Some m \<Rightarrow> Some (e, m)))"

definition match_ip_rule ::
  "go_net \<Rightarrow> 'p netd_policy \<Rightarrow> 'p netd_rule \<Rightarrow> flow \<Rightarrow> (ip_endpoint \<times> l4_match) option" where
  "match_ip_rule net p r f = match_ip_refs net p f (rl_endpoints r)"

section \<open>Matching hosts\<close>

definition default_port :: "'p netd_policy \<Rightarrow> string \<Rightarrow> nat" where
  "default_port p kind =
     (case bt_get kind (ng_endpoints (gp_registry p)) of None \<Rightarrow> 0 | Some d \<Rightarrow> nd_default_port d)"

definition http_family_endpoints :: "'p netd_policy \<Rightarrow> string \<Rightarrow> (string, http_endpoint) btree" where
  "http_family_endpoints p kind =
     (case bt_get kind (ng_endpoints (gp_registry p)) of
        Some d \<Rightarrow>
          if nd_transport d = ''http-proxy'' then gp_http_endpoints p
          else if nd_transport d = ''https-mitm'' then gp_https_endpoints p
          else if nd_transport d = ''tls-terminate'' then gp_package_endpoints p
          else []
      | None \<Rightarrow>
          if gp_http_endpoints p = [] then gp_https_endpoints p
          else if gp_https_endpoints p = [] then gp_http_endpoints p
          else fold (\<lambda>(key, e). bt_insert key e) (gp_https_endpoints p) (gp_http_endpoints p))"

text \<open>The first exact binding that matches wins; otherwise the first of the longest wildcards.\<close>

fun scan_bindings ::
  "authority \<Rightarrow> (http_endpoint \<times> binding) list \<Rightarrow> (http_endpoint \<times> nat) option \<Rightarrow> http_endpoint option"
where
  "scan_bindings a [] best = map_option fst best"
| "scan_bindings a ((e, b) # rest) best =
     (if \<not> binding_matches b a then scan_bindings a rest best
      else if \<not> bi_wildcard b then Some e
      else scan_bindings a rest
        (case best of
           None \<Rightarrow> Some (e, length (bi_host b))
         | Some (e', n) \<Rightarrow> if length (bi_host b) > n then Some (e, length (bi_host b)) else Some (e', n)))"

definition bindings_of :: "http_endpoint list \<Rightarrow> (http_endpoint \<times> binding) list" where
  "bindings_of es = concat (map (\<lambda>e. map (Pair e) (he_hosts e)) es)"

type_synonym map_order = "http_endpoint list \<Rightarrow> http_endpoint list"

definition match_family_host ::
  "go_net \<Rightarrow> map_order \<Rightarrow> 'p netd_policy \<Rightarrow> string \<Rightarrow> string \<Rightarrow> nat
     \<Rightarrow> (http_endpoint \<times> authority) option" where
  "match_family_host net iter p kind host port =
     (let endpoints = http_family_endpoints p kind in
      if endpoints = [] then None
      else case parse_authority net host port of
        Inl _ \<Rightarrow> None
      | Inr a \<Rightarrow>
          if au_host a = [] then None
          else map_option (\<lambda>e. (e, a)) (scan_bindings a (bindings_of (iter (map snd endpoints))) None))"

definition match_http_family_host ::
  "go_net \<Rightarrow> map_order \<Rightarrow> 'p netd_policy \<Rightarrow> string \<Rightarrow> string \<Rightarrow> http_endpoint option" where
  "match_http_family_host net iter p kind host =
     map_option fst (match_family_host net iter p kind host (default_port p kind))"

definition match_http_host_for_port ::
  "go_net \<Rightarrow> map_order \<Rightarrow> 'p netd_policy \<Rightarrow> string \<Rightarrow> nat \<Rightarrow> bool" where
  "match_http_host_for_port net iter p host port =
     (case match_family_host net iter p ''http'' host (default_port p ''http'') of
        None \<Rightarrow> False
      | Some (_, a) \<Rightarrow> au_port a = port)"

definition resolve_endpoint_host ::
  "go_net \<Rightarrow> map_order \<Rightarrow> 'p netd_policy \<Rightarrow> string \<Rightarrow> string \<Rightarrow> nat
     \<Rightarrow> (netd_ref \<times> string \<times> string) option" where
  "resolve_endpoint_host net iter p kind host port =
     (let dflt = default_port p kind; used = (if port = 0 then dflt else port) in
      map_option (\<lambda>(e, a). (endpoint_ref e, format_authority net a dflt, au_host a))
        (match_family_host net iter p kind host used))"

definition match_endpoint_authority ::
  "go_net \<Rightarrow> 'p netd_policy \<Rightarrow> string \<Rightarrow> string \<Rightarrow> string \<Rightarrow> bool" where
  "match_endpoint_authority net p kind host selected =
     (case (parse_authority net host (default_port p kind),
            parse_authority net selected (default_port p kind)) of
        (Inr a, Inr b) \<Rightarrow> au_host a \<noteq> [] \<and> au_host b \<noteq> [] \<and> a = b
      | _ \<Rightarrow> False)"

definition binds_port :: "(string, http_endpoint) btree \<Rightarrow> nat \<Rightarrow> bool" where
  "binds_port endpoints port \<longleftrightarrow>
     list_ex (\<lambda>(_, e). list_ex (\<lambda>b. bi_port b = port) (he_hosts e)) endpoints"

definition should_intercept_http :: "'p netd_policy \<Rightarrow> nat \<Rightarrow> bool" where
  "should_intercept_http p port \<longleftrightarrow> binds_port (gp_http_endpoints p) port"

definition should_intercept_https :: "'p netd_policy \<Rightarrow> nat \<Rightarrow> bool" where
  "should_intercept_https p port \<longleftrightarrow> binds_port (gp_https_endpoints p) port"

definition should_intercept_endpoint :: "'p netd_policy \<Rightarrow> string \<Rightarrow> nat \<Rightarrow> bool" where
  "should_intercept_endpoint p kind port \<longleftrightarrow> binds_port (http_family_endpoints p kind) port"

definition can_classify :: "go_net \<Rightarrow> 'p netd_policy \<Rightarrow> flow \<Rightarrow> bool" where
  "can_classify net p f \<longleftrightarrow>
     gn_to_lower net (fl_protocol f) = ''tcp'' \<and>
     (should_intercept_http p (fl_dest_port f) \<or> should_intercept_https p (fl_dest_port f) \<or>
      should_intercept_endpoint p ''registries'' (fl_dest_port f))"

definition has_endpoint_transport :: "'p netd_policy \<Rightarrow> string \<Rightarrow> bool" where
  "has_endpoint_transport p transport \<longleftrightarrow>
     list_ex (\<lambda>(_, d). nd_transport d = transport) (gp_endpoint_definitions p)"

section \<open>Flows\<close>

fun flow_rules ::
  "go_net \<Rightarrow> 'p netd_policy \<Rightarrow> flow \<Rightarrow> 'p netd_rule list \<Rightarrow> 'p decision option" where
  "flow_rules net p f [] = None"
| "flow_rules net p f (r # rs) =
     (if rl_tunnel r \<noteq> None \<and> \<not> fl_tailnet_destination f then flow_rules net p f rs
      else case match_ip_rule net p r f of
        None \<Rightarrow> flow_rules net p f rs
      | Some (e, m) \<Rightarrow>
          Some (zero_decision\<lparr>
            de_tunnel := rl_tunnel r, de_action := rl_verdict r, de_layer := LayerFlow,
            de_source := SourceRule, de_default_action := gp_default_action p,
            de_classification_opportunity :=
              (rl_tunnel r = None \<and> rl_verdict r = ''allow'' \<and> can_classify net p f),
            de_rule_name := rl_name r, de_reason := rl_reason r, de_endpoint_kind := ''ip'',
            de_endpoint_name := ie_name e, de_matched_l4 := Some m, de_matched_flow := Some f\<rparr>))"

definition evaluate_flow :: "go_net \<Rightarrow> 'p netd_policy option \<Rightarrow> flow \<Rightarrow> 'p decision" where
  "evaluate_flow net policy f =
     (case policy of
        None \<Rightarrow> zero_decision\<lparr>de_action := ''allow'', de_layer := LayerFlow, de_source := SourceDefault,
                  de_default_action := ''allow'', de_matched_flow := Some f\<rparr>
      | Some p \<Rightarrow>
          (case flow_rules net p f (family_rules p ''ip'') of
             Some d \<Rightarrow> d
           | None \<Rightarrow>
               zero_decision\<lparr>de_action := gp_default_action p, de_layer := LayerFlow,
                 de_source := SourceDefault, de_default_action := gp_default_action p,
                 de_classification_opportunity := can_classify net p f,
                 de_reason := default_reason (gp_default_action p), de_matched_flow := Some f\<rparr>))"

section \<open>Condition contexts\<close>

definition normalize_facet_value :: "facet_kind \<Rightarrow> facet_value \<Rightarrow> facet_value option" where
  "normalize_facet_value kind value =
     (case (kind, value) of
        (FacetString, FvString _) \<Rightarrow> Some value
      | (FacetStringListMap, FvStringListMap _) \<Rightarrow> Some value
      | (FacetInt, FvInt _) \<Rightarrow> Some value
      | (FacetBool, FvBool _) \<Rightarrow> Some value
      | _ \<Rightarrow> None)"

fun zero_facet_value :: "facet_kind \<Rightarrow> facet_value" where
  "zero_facet_value FacetString = FvString []"
| "zero_facet_value FacetStringListMap = FvStringListMap []"
| "zero_facet_value FacetInt = FvInt 0"
| "zero_facet_value FacetBool = FvBool False"

type_synonym facet_values = "(string, (string, facet_value) btree) btree"

fun activate_fields ::
  "string \<Rightarrow> (string, facet_value) btree \<Rightarrow> netd_facet_field list \<Rightarrow> activation
     \<Rightarrow> (go_error, activation) result" where
  "activate_fields facet provided [] act = Ok act"
| "activate_fields facet provided (f # fs) act =
     (case (bt_get (nff_name f) provided, nff_optional f) of
        (None, False) \<Rightarrow> Err (GoError ''facet %q requires field %q'' [facet, nff_name f])
      | (given, _) \<Rightarrow>
          let value = (case given of Some v \<Rightarrow> v | None \<Rightarrow> zero_facet_value (nff_kind f)) in
          (case normalize_facet_value (nff_kind f) value of
             None \<Rightarrow> Err (GoError ''facet %q field %q: expected another type'' [facet, nff_name f])
           | Some v \<Rightarrow> activate_fields facet provided fs
                         (bt_insert (cel_variable_name facet (nff_name f)) v act)))"

fun activate_facets ::
  "netd_registry \<Rightarrow> string \<Rightarrow> facet_values \<Rightarrow> string list \<Rightarrow> activation
     \<Rightarrow> (go_error, activation) result" where
  "activate_facets registry family facets [] act = Ok act"
| "activate_facets registry family facets (name # names) act =
     (case bt_get name (ng_facets registry) of
        None \<Rightarrow> Err (GoError ''endpoint family %q references unknown facet %q'' [family, name])
      | Some facet_fields \<Rightarrow>
          let provided = (case bt_get name facets of None \<Rightarrow> [] | Some v \<Rightarrow> v) in
          rbind (activate_fields name provided facet_fields act) (\<lambda>act'.
            if list_ex (\<lambda>(key, _). key \<notin> set (map nff_name facet_fields)) provided
            then Err (GoError ''facet %q does not declare a field'' [name])
            else activate_facets registry family facets names act'))"

definition build_facet_activation ::
  "netd_registry \<Rightarrow> string \<Rightarrow> facet_values \<Rightarrow> (go_error, activation) result" where
  "build_facet_activation registry family facets =
     (case bt_get family (ng_families registry) of
        None \<Rightarrow> Err (GoError ''unknown endpoint family %q'' [family])
      | Some d \<Rightarrow>
          if list_ex (\<lambda>(name, _). name \<notin> set (nfm_facets d)) facets
          then Err (GoError ''endpoint family %q does not include a facet'' [family])
          else activate_facets registry family facets (nfm_facets d) [])"

definition normalized_string_list_map ::
  "(string \<Rightarrow> string) \<Rightarrow> (string, string list) btree \<Rightarrow> (string, string list) btree" where
  "normalized_string_list_map nrm source =
     fold (\<lambda>(key, vs) m.
       bt_insert (nrm key) ((case bt_get (nrm key) m of None \<Rightarrow> [] | Some ws \<Rightarrow> ws) @ vs) m) source []"

definition query_for_cel :: "go_net \<Rightarrow> string \<Rightarrow> (go_error, (string, string list) btree) result" where
  "query_for_cel net raw =
     rbind (map_err cel_error (gn_parse_query net raw)) (\<lambda>parsed.
       Ok (normalized_string_list_map (\<lambda>k. k) parsed))"

definition headers_for_cel :: "go_net \<Rightarrow> (string, string list) btree \<Rightarrow> (string, string list) btree" where
  "headers_for_cel net header = normalized_string_list_map (gn_to_lower net) header"

definition normalized_request_host :: "go_net \<Rightarrow> 'p netd_policy \<Rightarrow> http_request \<Rightarrow> string" where
  "normalized_request_host net p request =
     (case parse_authority net (hr_host request) (default_port p (hr_endpoint_kind request)) of
        Inl _ \<Rightarrow> gn_to_lower net (trim (hr_host request))
      | Inr a \<Rightarrow> au_host a)"

definition http_facet ::
  "string \<Rightarrow> string \<Rightarrow> string \<Rightarrow> (string, string list) btree \<Rightarrow> (string, string list) btree
     \<Rightarrow> (string, facet_value) btree" where
  "http_facet meth host path query headers =
     bt_from [(''method'', FvString meth), (''host'', FvString host), (''path'', FvString path),
              (''query'', FvStringListMap query), (''headers'', FvStringListMap headers)]"

definition http_context ::
  "go_net \<Rightarrow> 'p netd_policy \<Rightarrow> http_request \<Rightarrow> (go_error, activation) result" where
  "http_context net p request =
     rbind (query_for_cel net (hr_query request)) (\<lambda>query.
       build_facet_activation (gp_registry p) ''http''
         [(''http'', http_facet (gn_to_upper net (hr_method request))
             (normalized_request_host net p request) (hr_path request) query
             (headers_for_cel net (hr_header request)))])"

text \<open>
  The lookups \<open>http.query['key']\<close> and \<open>http.headers['key']\<close> in the text of a condition: the
  leftmost matches of the pattern, which do not overlap.
\<close>

definition lookup_key :: "string \<Rightarrow> (string \<times> string) option" where
  "lookup_key s =
     (case s of
        bracket # q # rest \<Rightarrow>
          let key = takeWhile (\<lambda>c. \<not> is_quote c) rest; after = dropWhile (\<lambda>c. \<not> is_quote c) rest in
          if bracket = CHR ''['' \<and> is_quote q \<and> key \<noteq> [] \<and> prefix '']'' (drop 1 after)
          then Some (key, drop 2 after) else None
      | _ \<Rightarrow> None)"

definition lookup_at :: "string \<Rightarrow> (string \<times> string \<times> string) option" where
  "lookup_at s =
     (case strip_prefix ''http.query'' s of
        Some rest \<Rightarrow> map_option (\<lambda>(key, after). (''query'', key, after)) (lookup_key rest)
      | None \<Rightarrow>
          (case strip_prefix ''http.headers'' s of
             Some rest \<Rightarrow> map_option (\<lambda>(key, after). (''headers'', key, after)) (lookup_key rest)
           | None \<Rightarrow> None))"

lemma lookup_key_shorter:
  assumes "lookup_key s = Some (key, after)"
  shows "length after < length s"
proof -
  obtain bracket q rest where s: "s = bracket # q # rest"
    using assms by (auto simp: lookup_key_def split: list.splits)
  have "length (drop 2 (dropWhile (\<lambda>c. \<not> is_quote c) rest)) \<le> length rest"
    using length_dropWhile_le [of "\<lambda>c. \<not> is_quote c" rest] by simp
  moreover have "after = drop 2 (dropWhile (\<lambda>c. \<not> is_quote c) rest)"
    using assms by (simp add: s lookup_key_def Let_def split: if_splits)
  ultimately show ?thesis by (simp add: s)
qed

lemma lookup_at_shorter: "lookup_at s = Some (kind, key, after) \<Longrightarrow> length after < length s"
  by (auto simp: lookup_at_def strip_prefix_Some_iff dest!: lookup_key_shorter split: option.splits)

function map_lookups :: "string \<Rightarrow> (string \<times> string) list" where
  "map_lookups s =
     (case s of
        [] \<Rightarrow> []
      | _ # rest \<Rightarrow>
          (case lookup_at s of
             Some (kind, key, after) \<Rightarrow> (kind, key) # map_lookups after
           | None \<Rightarrow> map_lookups rest))"
  by pat_completeness auto
termination
  by (relation "measure length") (auto dest: lookup_at_shorter)

declare map_lookups.simps [simp del]

definition default_lookup :: "go_net \<Rightarrow> string \<times> string \<Rightarrow> activation \<Rightarrow> activation" where
  "default_lookup net match act =
     (case match of (kind, key) \<Rightarrow>
        (case bt_get (''http.'' @ kind) act of
           Some (FvStringListMap vs) \<Rightarrow>
             (if bt_get key vs \<noteq> None then act
              else
                let value = (if kind = ''headers''
                             then (case bt_get (gn_to_lower net key) vs of Some v \<Rightarrow> v | None \<Rightarrow> [])
                             else [])
                in bt_insert (''http.'' @ kind) (FvStringListMap (bt_insert key value vs)) act)
         | _ \<Rightarrow> act))"

definition context_with_defaults :: "go_net \<Rightarrow> activation \<Rightarrow> string \<Rightarrow> activation" where
  "context_with_defaults net act source = fold (default_lookup net) (map_lookups source) act"

definition evaluate_condition ::
  "go_net \<Rightarrow> ('e, 'a, 'p) go_cel \<Rightarrow> (go_error, activation) result \<Rightarrow> 'p netd_condition option
     \<Rightarrow> (go_error, bool) result" where
  "evaluate_condition net cel context condition =
     (case condition of
        None \<Rightarrow> Ok True
      | Some c \<Rightarrow>
          rbind context (\<lambda>act.
          rbind (map_err cel_error
                  (gl_eval cel (co_program c) (context_with_defaults net act (co_source c)))) (\<lambda>result.
            case result of
              GoBool b \<Rightarrow> Ok b
            | _ \<Rightarrow> Err (GoError ''policy condition %q returned %T'' [co_source c]))))"

section \<open>HTTP requests\<close>

fun select_credential ::
  "go_net \<Rightarrow> ('e, 'a, 'p) go_cel \<Rightarrow> (go_error, activation) result \<Rightarrow> 'p netd_credential option
     \<Rightarrow> 'p netd_credential list \<Rightarrow> (string, 'p netd_credential option) result" where
  "select_credential net cel context selected [] = Ok selected"
| "select_credential net cel context selected (k # ks) =
     (case evaluate_condition net cel context (nk_condition k) of
        Inl _ \<Rightarrow> Err ''credential_condition_error''
      | Inr False \<Rightarrow> select_credential net cel context selected ks
      | Inr True \<Rightarrow>
          (case selected of
             Some _ \<Rightarrow> Err ''ambiguous_credentials''
           | None \<Rightarrow> select_credential net cel context (Some k) ks))"

definition selected_credential ::
  "go_net \<Rightarrow> ('e, 'a, 'p) go_cel \<Rightarrow> 'p netd_policy \<Rightarrow> (go_error, activation) result \<Rightarrow> netd_ref
     \<Rightarrow> (string, 'p netd_credential option) result" where
  "selected_credential net cel p context endpoint =
     select_credential net cel context None
       (case bt_get (ref_string endpoint) (gp_credentials_by_endpoint p) of None \<Rightarrow> [] | Some ks \<Rightarrow> ks)"

definition rule_references :: "'p netd_rule \<Rightarrow> netd_ref \<Rightarrow> bool" where
  "rule_references r endpoint \<longleftrightarrow> endpoint \<in> set (rl_endpoints r)"

definition credential_applies :: "'p netd_credential option \<Rightarrow> 'p netd_rule \<Rightarrow> bool" where
  "credential_applies credential r \<longleftrightarrow>
     (case rl_credential r of
        None \<Rightarrow> True
      | Some c \<Rightarrow> map_option credential_ref credential = Some c)"

definition request_decision :: "'p netd_policy \<Rightarrow> http_request \<Rightarrow> http_endpoint option \<Rightarrow> 'p decision" where
  "request_decision p request endpoint =
     zero_decision\<lparr>de_layer := LayerRequest, de_default_action := gp_default_action p,
       de_endpoint_kind := (case endpoint of None \<Rightarrow> [] | Some e \<Rightarrow> he_kind e),
       de_endpoint_name := (case endpoint of None \<Rightarrow> [] | Some e \<Rightarrow> he_name e),
       de_matched_flow := Some (hr_flow request), de_matched_request := Some request\<rparr>"

fun http_rules ::
  "go_net \<Rightarrow> ('e, 'a, 'p) go_cel \<Rightarrow> (go_error, activation) result \<Rightarrow> netd_ref \<Rightarrow> 'p netd_credential option
     \<Rightarrow> 'p decision \<Rightarrow> 'p netd_rule list \<Rightarrow> 'p decision option" where
  "http_rules net cel context endpoint credential base [] = None"
| "http_rules net cel context endpoint credential base (r # rs) =
     (if \<not> rule_references r endpoint \<or> \<not> credential_applies credential r
      then http_rules net cel context endpoint credential base rs
      else case evaluate_condition net cel context (rl_condition r) of
        Inl _ \<Rightarrow> Some (base\<lparr>de_action := ''deny'', de_source := SourceRule, de_rule_name := rl_name r,
                         de_reason := ''condition_error''\<rparr>)
      | Inr False \<Rightarrow> http_rules net cel context endpoint credential base rs
      | Inr True \<Rightarrow>
          Some (base\<lparr>de_action := rl_verdict r, de_source := SourceRule, de_rule_name := rl_name r,
            de_reason := rl_reason r,
            de_selected_credential := (if rl_verdict r = ''allow'' then credential else None)\<rparr>))"

definition evaluate_http ::
  "go_net \<Rightarrow> ('e, 'a, 'p) go_cel \<Rightarrow> map_order \<Rightarrow> 'p netd_policy option \<Rightarrow> http_request \<Rightarrow> 'p decision" where
  "evaluate_http net cel iter policy request =
     (case policy of
        None \<Rightarrow> zero_decision\<lparr>de_action := ''allow'', de_layer := LayerRequest,
                  de_source := SourceDefault, de_default_action := ''allow'',
                  de_matched_request := Some request\<rparr>
      | Some p \<Rightarrow>
          (case parse_authority net (hr_host request) (default_port p (hr_endpoint_kind request)) of
             Inl _ \<Rightarrow> (request_decision p request None)\<lparr>de_action := ''deny'', de_source := SourceDefault,
                        de_reason := ''missing_host''\<rparr>
           | Inr _ \<Rightarrow>
               (case match_http_family_host net iter p (hr_endpoint_kind request) (hr_host request) of
                  None \<Rightarrow> (request_decision p request None)\<lparr>de_action := gp_default_action p,
                            de_source := SourceDefault,
                            de_reason := (if gp_default_action p = ''deny''
                                          then default_reason (gp_default_action p)
                                          else ''unknown_l7_endpoint'')\<rparr>
                | Some e \<Rightarrow>
                    let request' = request\<lparr>hr_endpoint_kind := he_kind e\<rparr>;
                        context = http_context net p request';
                        base = request_decision p request' (Some e)
                    in (case selected_credential net cel p context (endpoint_ref e) of
                          Inl reason \<Rightarrow> base\<lparr>de_action := ''deny'', de_source := SourceDefault,
                                         de_reason := reason\<rparr>
                        | Inr credential \<Rightarrow>
                            (case http_rules net cel context (endpoint_ref e) credential base
                                    (family_rules p ''http'') of
                               Some d \<Rightarrow> d
                             | None \<Rightarrow> base\<lparr>de_action := gp_default_action p,
                                         de_source := SourceDefault,
                                         de_reason := default_reason (gp_default_action p)\<rparr>)))))"

section \<open>Package requests\<close>

definition package_facet :: "package_facts \<Rightarrow> (string, facet_value) btree" where
  "package_facet f =
     bt_from [(''ecosystem'', FvString (pf_ecosystem f)), (''operation'', FvString (pf_operation f)),
              (''name'', FvString (pf_name f)), (''version'', FvString (pf_version f)),
              (''identity_known'', FvBool (pf_identity_known f)),
              (''age_known'', FvBool (pf_age_known f)), (''age_hours'', FvInt (pf_age_hours f)),
              (''age_source'', FvString (pf_age_source f)),
              (''malware_data_available'', FvBool (pf_malware_data_available f)),
              (''malware'', FvBool (pf_malware f)),
              (''malware_reason'', FvString (pf_malware_reason f))]"

fun action_rules ::
  "go_net \<Rightarrow> ('e, 'a, 'p) go_cel \<Rightarrow> (go_error, activation) result \<Rightarrow> netd_ref \<Rightarrow> 'p decision
     \<Rightarrow> 'p netd_rule list \<Rightarrow> 'p decision option" where
  "action_rules net cel context endpoint base [] = None"
| "action_rules net cel context endpoint base (r # rs) =
     (if \<not> rule_references r endpoint \<or> rl_credential r \<noteq> None
      then action_rules net cel context endpoint base rs
      else case evaluate_condition net cel context (rl_condition r) of
        Inl _ \<Rightarrow> Some (base\<lparr>de_action := ''deny'', de_source := SourceRule, de_rule_name := rl_name r,
                         de_reason := ''condition_error''\<rparr>)
      | Inr False \<Rightarrow> action_rules net cel context endpoint base rs
      | Inr True \<Rightarrow> Some (base\<lparr>de_action := rl_verdict r, de_source := SourceRule,
                        de_rule_name := rl_name r, de_reason := rl_reason r\<rparr>))"

definition evaluate_action ::
  "go_net \<Rightarrow> ('e, 'a, 'p) go_cel \<Rightarrow> 'p netd_policy option \<Rightarrow> netd_ref \<Rightarrow> facet_values \<Rightarrow> 'p decision" where
  "evaluate_action net cel policy endpoint facets =
     (case policy of
        None \<Rightarrow> zero_decision\<lparr>de_action := ''allow'', de_layer := LayerRequest,
                  de_source := SourceDefault, de_default_action := ''allow''\<rparr>
      | Some p \<Rightarrow>
          (case bt_get (ref_string endpoint) (gp_endpoint_definitions p) of
             None \<Rightarrow> zero_decision\<lparr>de_action := ''deny'', de_layer := LayerRequest,
                       de_source := SourceDefault, de_default_action := gp_default_action p,
                       de_reason := ''unknown_l7_endpoint''\<rparr>
           | Some d \<Rightarrow>
               let context = build_facet_activation (gp_registry p) (nd_family d) facets;
                   base = zero_decision\<lparr>de_layer := LayerRequest,
                            de_default_action := gp_default_action p,
                            de_endpoint_kind := rf_kind endpoint, de_endpoint_name := rf_name endpoint\<rparr>
               in (case action_rules net cel context endpoint base (family_rules p (nd_family d)) of
                     Some d \<Rightarrow> d
                   | None \<Rightarrow> base\<lparr>de_action := gp_default_action p, de_source := SourceDefault,
                               de_reason := default_reason (gp_default_action p)\<rparr>)))"

definition evaluate_package ::
  "go_net \<Rightarrow> ('e, 'a, 'p) go_cel \<Rightarrow> 'p netd_policy option \<Rightarrow> netd_ref \<Rightarrow> package_request \<Rightarrow> 'p decision"
where
  "evaluate_package net cel policy endpoint request =
     (evaluate_action net cel policy endpoint
        [(''http'', http_facet (gn_to_upper net (pq_method request)) (pq_host request)
            (pq_path request) (pq_query request) (pq_headers request)),
         (''package'', package_facet (pq_package request))])
     \<lparr>de_package := Some (pq_package request)\<rparr>"

section \<open>Port ranges\<close>

definition covers :: "netd_port_range list \<Rightarrow> nat \<Rightarrow> bool" where
  "covers rs port \<longleftrightarrow> (\<exists>r\<in>set rs. npr_start r \<le> port \<and> port \<le> npr_end r)"

text \<open>Ascending ranges with a gap of at least one port between neighbours.\<close>

fun canonical_ranges :: "netd_port_range list \<Rightarrow> bool" where
  "canonical_ranges [] \<longleftrightarrow> True"
| "canonical_ranges [r] \<longleftrightarrow> npr_start r \<le> npr_end r"
| "canonical_ranges (r # s # rs) \<longleftrightarrow>
     npr_start r \<le> npr_end r \<and> npr_end r + 1 < npr_start s \<and> canonical_ranges (s # rs)"

lemma canonical_append:
  "canonical_ranges (rs @ [r, s]) \<longleftrightarrow>
     canonical_ranges (rs @ [r]) \<and> npr_end r + 1 < npr_start s \<and> npr_start s \<le> npr_end s"
  by (induction rs rule: canonical_ranges.induct) auto

lemma canonical_last:
  "canonical_ranges (rs @ [r]) \<Longrightarrow> npr_end r \<le> e \<Longrightarrow> canonical_ranges (rs @ [r\<lparr>npr_end := e\<rparr>])"
  by (induction rs rule: canonical_ranges.induct) auto

lemma merge_canonical:
  assumes "canonical_ranges merged" and "\<forall>r\<in>set rest. npr_start r \<le> npr_end r"
    and "sorted (map npr_start rest)" and "merged \<noteq> [] \<Longrightarrow> \<forall>r\<in>set rest. npr_start (last merged) \<le> npr_start r"
  shows "canonical_ranges (merge_port_ranges merged rest)"
  using assms
proof (induction merged rest rule: merge_port_ranges.induct)
  case (2 merged current rest)
  show ?case
  proof (cases merged rule: rev_cases)
    case (snoc front final)
    then show ?thesis
      using 2 canonical_append [of front final current]
        canonical_last [of front final "npr_end current"] by auto
  qed (use 2 in auto)
qed simp

lemma merge_covers:
  assumes "\<forall>r\<in>set merged. npr_start r \<le> npr_end r" and "\<forall>r\<in>set rest. npr_start r \<le> npr_end r"
    and "merged \<noteq> [] \<Longrightarrow> \<forall>r\<in>set rest. npr_start (last merged) \<le> npr_start r"
    and "sorted (map npr_start rest)"
  shows "covers (merge_port_ranges merged rest) port \<longleftrightarrow> covers merged port \<or> covers rest port"
  using assms
proof (induction merged rest rule: merge_port_ranges.induct)
  case (2 merged current rest)
  show ?case
  proof (cases merged rule: rev_cases)
    case (snoc front final)
    let ?joined = "if npr_end current > npr_end final then final\<lparr>npr_end := npr_end current\<rparr> else final"
    show ?thesis
    proof (cases "npr_start current \<le> npr_end final + 1")
      case True
      have "npr_start final \<le> npr_start current" using "2.prems"(3) snoc by simp
      then have "covers (front @ [?joined]) port \<longleftrightarrow> covers merged port \<or> covers [current] port"
        using True snoc by (auto simp: covers_def)
      moreover have "covers (merge_port_ranges (front @ [?joined]) rest) port \<longleftrightarrow>
          covers (front @ [?joined]) port \<or> covers rest port"
        using 2 snoc True by auto
      ultimately show ?thesis using snoc True by (auto simp: covers_def)
    next
      case False
      have "covers (merge_port_ranges (merged @ [current]) rest) port \<longleftrightarrow>
          covers (merged @ [current]) port \<or> covers rest port"
        using 2 snoc False by auto
      then show ?thesis using snoc False by (auto simp: covers_def)
    qed
  qed (use 2 in \<open>auto simp: covers_def\<close>)
qed (simp add: covers_def)

lemma sort_port_ranges_props [simp]:
  "set (sort_port_ranges rs) = set rs" "sorted (map npr_start (sort_port_ranges rs))"
  by (simp_all add: sort_port_ranges_def)

text \<open>
  Claim C36. Normalising the port ranges of an endpoint changes their representation only: for
  ranges that are not reversed, the result covers exactly the same ports, and it is the canonical
  form, ascending with a gap between neighbours.
\<close>

theorem normalize_port_ranges_same_ports:
  assumes "\<forall>r\<in>set rs. npr_start r \<le> npr_end r"
  shows "canonical_ranges (normalize_port_ranges rs) \<and>
    covers (normalize_port_ranges rs) port = covers rs port"
  using assms merge_canonical [of "[]" "sort_port_ranges rs"]
    merge_covers [of "[]" "sort_port_ranges rs" port]
  by (simp add: normalize_port_ranges_def) (simp add: covers_def)

definition web_ports :: "netd_port_range list" where
  "web_ports = [\<lparr>npr_start = 8080, npr_end = 8090\<rparr>, \<lparr>npr_start = 80, npr_end = 80\<rparr>,
                \<lparr>npr_start = 8091, npr_end = 8100\<rparr>]"

theorem normalize_port_ranges_same_ports_witness:
  "canonical_ranges (normalize_port_ranges web_ports) \<and> covers (normalize_port_ranges web_ports) 8095"
  using normalize_port_ranges_same_ports [of web_ports 8095] by (simp add: web_ports_def covers_def)

end
