(* ===== verification/Netd_Invariant.thy ===== *)
theory Netd_Invariant
  imports Netd_Policy
begin

text \<open>
  The invariant of compiled policies. Each phase of \<open>compileNetworkPolicy\<close> (\<open>load.go\<close>) adds the
  declarations of one kind; what the phase establishes and what it leaves alone is proved for one
  declaration and lifted to the list by an interpretation of \<open>checked_step\<close>. The result,
  \<open>compiled_ok\<close>, is what enforcement relies on: every reference resolves, tables are filed under
  their references, exact hosts have one owner, rules are the enabled declarations in order of
  priority, and forwards do not collide.
\<close>

section \<open>Adding declarations\<close>

text \<open>
  The contract the declaration adders share: every declaration they accept keeps an invariant that
  speaks of the declarations so far, and so does a list of declarations.
\<close>

locale checked_step =
  fixes step :: "'x \<Rightarrow> 's \<Rightarrow> ('e, 's) result" and inv :: "'x list \<Rightarrow> 's \<Rightarrow> bool"
  assumes step_inv: "inv xs s \<Longrightarrow> step x s = Ok s' \<Longrightarrow> inv (xs @ [x]) s'"
begin

lemma all_inv_from: "inv ys s \<Longrightarrow> add_all step xs s = Ok s' \<Longrightarrow> inv (ys @ xs) s'"
proof (induction xs arbitrary: ys s)
  case (Cons x xs)
  then obtain t where "step x s = Ok t" and "add_all step xs t = Ok s'" by auto
  then show ?case using Cons.IH [of "ys @ [x]" t] step_inv [OF Cons.prems(1)] by simp
qed simp

lemma all_inv: "inv [] s \<Longrightarrow> add_all step xs s = Ok s' \<Longrightarrow> inv xs s'"
  using all_inv_from [of "[]"] by simp

end

section \<open>Endpoint tables\<close>

text \<open>The endpoints of a table are filed under their reference and own their exact bindings.\<close>

definition owns_bindings :: "(string, netd_ref) btree \<Rightarrow> http_endpoint \<Rightarrow> bool" where
  "owns_bindings exact e \<longleftrightarrow>
     (\<forall>b\<in>set (he_hosts e). \<not> bi_wildcard b \<longrightarrow>
        bt_get (host_binding_key (he_transport e) (bi_host b) (bi_port b) False) exact =
          Some (endpoint_ref e))"

definition table_ok ::
  "(string, netd_ref) btree \<Rightarrow> string \<Rightarrow> (string, http_endpoint) btree \<Rightarrow> bool" where
  "table_ok exact transport table \<longleftrightarrow>
     bt_wf table \<and>
     (\<forall>key e. bt_get key table = Some e \<longrightarrow>
        he_transport e = transport \<and> bt_get (he_kind e) (ng_endpoints builtin_registry) \<noteq> None \<and>
        key = ref_string (endpoint_ref e) \<and> owns_bindings exact e)"

definition tables_ok :: "'p netd_policy \<Rightarrow> bool" where
  "tables_ok p \<longleftrightarrow>
     bt_wf (gp_exact_http_bindings p) \<and> bt_wf (gp_registry_endpoints p) \<and>
     bt_wf (gp_ip_endpoints p) \<and>
     (\<forall>key e. bt_get key (gp_ip_endpoints p) = Some e \<longrightarrow> key = ''ip.'' @ ie_name e) \<and>
     table_ok (gp_exact_http_bindings p) ''http-proxy'' (gp_http_endpoints p) \<and>
     table_ok (gp_exact_http_bindings p) ''https-mitm'' (gp_https_endpoints p) \<and>
     table_ok (gp_exact_http_bindings p) ''tls-terminate'' (gp_package_endpoints p)"

lemma add_bindings_grows:
  assumes "add_bindings transport r bs exact = Ok exact'" and "bt_wf exact"
  shows "bt_wf exact' \<and> (\<forall>k v. bt_get k exact = Some v \<longrightarrow> bt_get k exact' = Some v) \<and>
    (\<forall>b\<in>set bs. \<not> bi_wildcard b \<longrightarrow>
       bt_get (host_binding_key transport (bi_host b) (bi_port b) False) exact' = Some r)"
  using assms
proof (induction transport r bs exact rule: add_bindings.induct)
  case (2 transport r b bs exact)
  show ?case
  proof (cases "bi_wildcard b")
    case False
    let ?key = "host_binding_key transport (bi_host b) (bi_port b) False"
    have none: "bt_get ?key exact = None"
      using 2 False by (auto simp: Let_def split: option.splits)
    then have rec: "add_bindings transport r bs (bt_insert ?key r exact) = Ok exact'"
      using 2 False by (simp add: Let_def)
    from 2(2) [OF False refl none rec] "2.prems"(2) none show ?thesis
      by (auto split: if_splits) (metis option.distinct(1))
  qed (use 2 in simp)
qed simp

lemma table_ok_mono:
  assumes "table_ok exact transport table"
    and "\<And>k v. bt_get k exact = Some v \<Longrightarrow> bt_get k exact' = Some v"
  shows "table_ok exact' transport table"
  using assms by (fastforce simp: table_ok_def owns_bindings_def)

lemma table_ok_insert:
  assumes "table_ok exact transport table" and "he_transport e = transport"
    and "bt_get (he_kind e) (ng_endpoints builtin_registry) \<noteq> None"
    and "key = ref_string (endpoint_ref e)" and "owns_bindings exact e"
  shows "table_ok exact transport (bt_insert key e table)"
  using assms by (auto simp: table_ok_def split: if_splits)

lemma add_http_endpoint_Ok:
  assumes "add_http_endpoint e p = Ok p'" and "tables_ok p"
  obtains exact where "p' = p\<lparr>gp_exact_http_bindings := exact\<rparr>" and "tables_ok p'"
    and "owns_bindings (gp_exact_http_bindings p') e"
proof -
  from assms obtain exact where
    exact: "add_bindings (he_transport e) (endpoint_ref e) (he_hosts e) (gp_exact_http_bindings p)
        = Ok exact"
    and p': "p' = p\<lparr>gp_exact_http_bindings := exact\<rparr>"
    by (auto simp: add_http_endpoint_def)
  note grows = add_bindings_grows [OF exact]
  have "tables_ok p'"
    using assms(2) grows table_ok_mono [of "gp_exact_http_bindings p" _ _ exact]
    by (simp add: p' tables_ok_def)
  moreover have "owns_bindings (gp_exact_http_bindings p') e"
    using assms(2) grows by (simp add: p' tables_ok_def owns_bindings_def)
  ultimately show ?thesis using that p' by blast
qed

lemma compile_http_endpoint_Ok:
  assumes "compile_http_endpoint_decl net d name hosts = Ok e"
  shows "he_kind e = nd_kind d" and "he_name e = name" and "he_transport e = nd_transport d"
  using assms by (auto simp: compile_http_endpoint_decl_def split: if_splits)

lemma compile_registry_endpoint_Ok:
  assumes "compile_registry_endpoint_decl net d decl = Ok r"
  shows "compile_http_endpoint_decl net d (ned_name decl) (ned_hosts decl) = Ok (re_endpoint r)"
proof -
  define config_error :: "(go_error, netd_registry_endpoint) result" where
    "config_error = Err (GoError (''canonical config must contain registries, malware_feed, ''
            @ ''and optional filter_package_age'') [])"
  have no_error: "config_error \<noteq> Ok x" for x by (simp add: config_error_def)
  show ?thesis
    using assms unfolding compile_registry_endpoint_decl_def Let_def config_error_def [symmetric]
    by (auto simp: no_error split: if_splits option.splits go_any.splits)
qed

lemma builtin_kinds:
  assumes "bt_get kind (ng_endpoints builtin_registry) = Some d"
  shows "nd_kind d = kind \<and> CHR ''.'' \<notin> set kind \<and>
    (kind = ''ip'' \<and> nd_schema d = NetdIp \<and> nd_family d = ''ip'' \<and> \<not> nd_supports_credentials d \<or>
     kind = ''http'' \<and> nd_schema d = NetdHosts \<and> nd_transport d = ''http-proxy'' \<and>
       nd_family d = ''http'' \<and> \<not> nd_supports_credentials d \<or>
     kind = ''https'' \<and> nd_schema d = NetdHosts \<and> nd_transport d = ''https-mitm'' \<and>
       nd_family d = ''http'' \<or>
     kind = ''registries'' \<and> nd_schema d = NetdRegistries \<and> nd_transport d = ''tls-terminate'' \<and>
       nd_family d = ''package'' \<and> \<not> nd_supports_credentials d)"
proof -
  have "map_of (rev netd_builtin_endpoints) kind = Some d"
    using assms by (simp add: builtin_registry_def bt_get_from)
  then show ?thesis by (auto simp: netd_builtin_endpoints_def split: if_splits)
qed

section \<open>Endpoints\<close>

text \<open>Where the endpoint with a reference and a descriptor is kept.\<close>

definition filed :: "'p netd_policy \<Rightarrow> netd_ref \<Rightarrow> netd_endpoint_definition \<Rightarrow> bool" where
  "filed p r d \<longleftrightarrow>
     (case nd_schema d of
        NetdIp \<Rightarrow> bt_get (ref_string r) (gp_ip_endpoints p) \<noteq> None
      | NetdHosts \<Rightarrow>
          bt_get (ref_string r)
            (if nd_transport d = ''http-proxy'' then gp_http_endpoints p else gp_https_endpoints p) \<noteq> None
      | NetdRegistries \<Rightarrow>
          bt_get (ref_string r) (gp_package_endpoints p) \<noteq> None \<and>
          bt_get (ref_string r) (gp_registry_endpoints p) \<noteq> None)"

definition ref_resolves :: "'p netd_policy \<Rightarrow> netd_ref \<Rightarrow> bool" where
  "ref_resolves p r \<longleftrightarrow>
     (\<exists>d. bt_get (rf_kind r) (ng_endpoints builtin_registry) = Some d \<and>
          bt_get (ref_string r) (gp_endpoint_definitions p) = Some d \<and> filed p r d)"

definition endpoints_inv :: "netd_endpoint_decl list \<Rightarrow> 'p netd_policy \<Rightarrow> bool" where
  "endpoints_inv decls p \<longleftrightarrow>
     gp_registry p = builtin_registry \<and> tables_ok p \<and> bt_wf (gp_endpoint_refs_by_name p) \<and>
     bt_wf (gp_endpoint_definitions p) \<and> distinct (map ned_name decls) \<and>
     (\<forall>name r. bt_get name (gp_endpoint_refs_by_name p) = Some r \<longleftrightarrow>
        (\<exists>decl\<in>set decls. name = ned_name decl \<and>
           r = \<lparr>rf_kind = ned_kind decl, rf_name = ned_name decl\<rparr>)) \<and>
     (\<forall>name r. bt_get name (gp_endpoint_refs_by_name p) = Some r \<longrightarrow> ref_resolves p r)"

text \<open>What the three adders of endpoints leave alone.\<close>

definition same_but_tables :: "'p netd_policy \<Rightarrow> 'p netd_policy \<Rightarrow> bool" where
  "same_but_tables p q \<longleftrightarrow>
     gp_registry q = gp_registry p \<and> gp_endpoint_refs_by_name q = gp_endpoint_refs_by_name p \<and>
     gp_endpoint_definitions q = gp_endpoint_definitions p \<and> gp_credentials q = gp_credentials p \<and>
     gp_credential_refs_by_name q = gp_credential_refs_by_name p \<and>
     gp_credentials_by_endpoint q = gp_credentials_by_endpoint p \<and>
     gp_rules_by_family q = gp_rules_by_family p \<and> gp_tailscale q = gp_tailscale p \<and>
     gp_forwards q = gp_forwards p \<and> gp_default_action q = gp_default_action p"

definition tables_grow :: "'p netd_policy \<Rightarrow> 'p netd_policy \<Rightarrow> bool" where
  "tables_grow p q \<longleftrightarrow> (\<forall>r d. filed p r d \<longrightarrow> filed q r d)"

lemma compile_ip_endpoint_name:
  "compile_ip_endpoint net parse_prefix decl = Ok e \<Longrightarrow> ie_name e = ned_name decl"
  by (auto simp: compile_ip_endpoint_def Let_def split: if_splits)

lemma add_ip_endpoint_Ok:
  assumes add: "add_ip_endpoint net parse_prefix decl (ref_string r) p = Ok q" and ok: "tables_ok p"
    and d: "nd_schema d = NetdIp" and r: "r = \<lparr>rf_kind = ''ip'', rf_name = ned_name decl\<rparr>"
  shows "same_but_tables p q \<and> tables_ok q \<and> tables_grow p q \<and> filed q r d"
proof -
  from add obtain e where e: "compile_ip_endpoint net parse_prefix decl = Ok e"
    and q: "q = p\<lparr>gp_ip_endpoints := bt_insert (ref_string r) e (gp_ip_endpoints p)\<rparr>"
    by (auto simp: add_ip_endpoint_def split: if_splits)
  have "ref_string r = ''ip.'' @ ie_name e"
    using compile_ip_endpoint_name [OF e] by (simp add: r ref_string_def)
  then show ?thesis
    using ok d by (auto simp: q same_but_tables_def tables_ok_def tables_grow_def filed_def
      split: if_splits netd_schema.splits)
qed

lemma add_hosts_endpoint_Ok:
  assumes add: "add_hosts_endpoint net d decl (ref_string r) p = Ok q" and ok: "tables_ok p"
    and d: "nd_schema d = NetdHosts" "nd_transport d = ''http-proxy'' \<or> nd_transport d = ''https-mitm''"
    and r: "r = \<lparr>rf_kind = nd_kind d, rf_name = ned_name decl\<rparr>"
    and kind: "bt_get (nd_kind d) (ng_endpoints builtin_registry) \<noteq> None"
  shows "same_but_tables p q \<and> tables_ok q \<and> tables_grow p q \<and> filed q r d"
proof -
  from add obtain e p1 where
    e: "compile_http_endpoint_decl net d (ned_name decl) (ned_hosts decl) = Ok e"
    and p1: "add_http_endpoint e p = Ok p1"
    and q: "q = set_http_endpoint (nd_transport d) (ref_string r) e p1"
    by (auto simp: add_hosts_endpoint_def split: if_splits)
  obtain exact where exact: "p1 = p\<lparr>gp_exact_http_bindings := exact\<rparr>" and ok1: "tables_ok p1"
    and owns: "owns_bindings (gp_exact_http_bindings p1) e"
    using add_http_endpoint_Ok [OF p1 ok] .
  have ref: "ref_string r = ref_string (endpoint_ref e)" "he_transport e = nd_transport d"
      "bt_get (he_kind e) (ng_endpoints builtin_registry) \<noteq> None"
    using compile_http_endpoint_Ok [OF e] kind by (simp_all add: r endpoint_ref_def)
  have "tables_ok q"
    using d(2) ok1 owns ref
    by (auto simp: q set_http_endpoint_def tables_ok_def intro!: table_ok_insert)
  moreover have "same_but_tables p q"
    using d(2) by (auto simp: q exact set_http_endpoint_def same_but_tables_def)
  moreover have "tables_grow p q \<and> filed q r d"
    using d ok
    by (auto simp: q exact set_http_endpoint_def tables_grow_def filed_def tables_ok_def table_ok_def
        split: netd_schema.splits)
  ultimately show ?thesis by blast
qed

lemma add_registry_endpoint_Ok:
  assumes add: "add_registry_endpoint net d decl (ref_string r) p = Ok q" and ok: "tables_ok p"
    and d: "nd_schema d = NetdRegistries" "nd_transport d = ''tls-terminate''"
    and r: "r = \<lparr>rf_kind = nd_kind d, rf_name = ned_name decl\<rparr>"
    and kind: "bt_get (nd_kind d) (ng_endpoints builtin_registry) \<noteq> None"
  shows "same_but_tables p q \<and> tables_ok q \<and> tables_grow p q \<and> filed q r d"
proof -
  from add obtain s p1 where
    s: "compile_registry_endpoint_decl net d decl = Ok s"
    and p1: "add_http_endpoint (re_endpoint s) p = Ok p1"
    and q: "q = p1\<lparr>gp_package_endpoints := bt_insert (ref_string r) (re_endpoint s) (gp_package_endpoints p1),
                gp_registry_endpoints := bt_insert (ref_string r) s (gp_registry_endpoints p1)\<rparr>"
    by (auto simp: add_registry_endpoint_def split: if_splits)
  obtain exact where exact: "p1 = p\<lparr>gp_exact_http_bindings := exact\<rparr>" and ok1: "tables_ok p1"
    and owns: "owns_bindings (gp_exact_http_bindings p1) (re_endpoint s)"
    using add_http_endpoint_Ok [OF p1 ok] .
  have ref: "ref_string r = ref_string (endpoint_ref (re_endpoint s))"
      "he_transport (re_endpoint s) = ''tls-terminate''"
      "bt_get (he_kind (re_endpoint s)) (ng_endpoints builtin_registry) \<noteq> None"
    using compile_http_endpoint_Ok [OF compile_registry_endpoint_Ok [OF s]] d kind
    by (simp_all add: r endpoint_ref_def)
  have "tables_ok q"
    using ok1 owns ref by (auto simp: q tables_ok_def intro!: table_ok_insert)
  moreover have "same_but_tables p q"
    by (simp add: q exact same_but_tables_def)
  moreover have "tables_grow p q \<and> filed q r d"
    using d ok
    by (auto simp: q exact tables_grow_def filed_def tables_ok_def table_ok_def
        split: netd_schema.splits)
  ultimately show ?thesis by blast
qed

lemma add_endpoint_decl_Ok:
  assumes add: "add_endpoint_decl net parse_prefix decl p = Ok p'"
    and p: "gp_registry p = builtin_registry" "tables_ok p"
  obtains d q r where "r = \<lparr>rf_kind = ned_kind decl, rf_name = ned_name decl\<rparr>"
    and "bt_get (ned_name decl) (gp_endpoint_refs_by_name p) = None"
    and "bt_get (ned_kind decl) (ng_endpoints builtin_registry) = Some d"
    and "same_but_tables p q" and "tables_ok q" and "tables_grow p q" and "filed q r d"
    and "p' = q\<lparr>gp_endpoint_refs_by_name := bt_insert (ned_name decl) r (gp_endpoint_refs_by_name p),
               gp_endpoint_definitions := bt_insert (ref_string r) d (gp_endpoint_definitions p)\<rparr>"
proof -
  define r where "r = \<lparr>rf_kind = ned_kind decl, rf_name = ned_name decl\<rparr>"
  from add obtain d q where new: "bt_get (ned_name decl) (gp_endpoint_refs_by_name p) = None"
    and d: "bt_get (ned_kind decl) (ng_endpoints builtin_registry) = Some d"
    and q: "(case nd_schema d of
               NetdIp \<Rightarrow> add_ip_endpoint net parse_prefix decl (ref_string r) p
             | NetdHosts \<Rightarrow> add_hosts_endpoint net d decl (ref_string r) p
             | NetdRegistries \<Rightarrow> add_registry_endpoint net d decl (ref_string r) p) = Ok q"
    and p': "p' = q\<lparr>gp_endpoint_refs_by_name := bt_insert (ned_name decl) r (gp_endpoint_refs_by_name q),
               gp_endpoint_definitions := bt_insert (ref_string r) d (gp_endpoint_definitions q)\<rparr>"
    by (auto simp: add_endpoint_decl_def Let_def p r_def [symmetric] split: if_splits option.splits)
  have kinds: "nd_kind d = ned_kind decl"
    "nd_schema d = NetdHosts \<Longrightarrow> nd_transport d = ''http-proxy'' \<or> nd_transport d = ''https-mitm''"
    "nd_schema d = NetdRegistries \<Longrightarrow> nd_transport d = ''tls-terminate''"
    "nd_schema d = NetdIp \<Longrightarrow> ned_kind decl = ''ip''"
    "bt_get (nd_kind d) (ng_endpoints builtin_registry) \<noteq> None"
    using builtin_kinds [OF d] d by auto
  have "same_but_tables p q \<and> tables_ok q \<and> tables_grow p q \<and> filed q r d"
  proof (cases "nd_schema d")
    case NetdIp
    then show ?thesis using q p kinds add_ip_endpoint_Ok [of net parse_prefix decl r p q d]
      by (simp add: r_def)
  next
    case NetdHosts
    then show ?thesis using q p kinds add_hosts_endpoint_Ok [of net d decl r p q] by (simp add: r_def)
  next
    case NetdRegistries
    then show ?thesis using q p kinds add_registry_endpoint_Ok [of net d decl r p q]
      by (simp add: r_def)
  qed
  with that [of r d q] show ?thesis using new d p' r_def by (simp add: same_but_tables_def)
qed

lemma ref_string_inject:
  assumes "bt_get (rf_kind r) (ng_endpoints builtin_registry) = Some d"
    and "bt_get (rf_kind s) (ng_endpoints builtin_registry) = Some d'"
    and "ref_string r = ref_string s"
  shows "r = s"
  using assms builtin_kinds [OF assms(1)] builtin_kinds [OF assms(2)]
  by (cases r, cases s) (simp add: ref_string_def dotted_inject)

lemma add_endpoint_inv:
  assumes inv: "endpoints_inv decls p" and add: "add_endpoint_decl net parse_prefix decl p = Ok p'"
  shows "endpoints_inv (decls @ [decl]) p'"
proof -
  have p: "gp_registry p = builtin_registry" "tables_ok p" using inv by (auto simp: endpoints_inv_def)
  obtain d q r where r: "r = \<lparr>rf_kind = ned_kind decl, rf_name = ned_name decl\<rparr>"
    and new: "bt_get (ned_name decl) (gp_endpoint_refs_by_name p) = None"
    and d: "bt_get (ned_kind decl) (ng_endpoints builtin_registry) = Some d"
    and q: "same_but_tables p q" "tables_ok q" "tables_grow p q" "filed q r d"
    and p': "p' = q\<lparr>gp_endpoint_refs_by_name := bt_insert (ned_name decl) r (gp_endpoint_refs_by_name p),
               gp_endpoint_definitions := bt_insert (ref_string r) d (gp_endpoint_definitions p)\<rparr>"
    using add_endpoint_decl_Ok [OF add p] .
  have wf: "bt_wf (gp_endpoint_refs_by_name p)" "bt_wf (gp_endpoint_definitions p)"
    using inv by (auto simp: endpoints_inv_def)
  have old: "bt_get name (gp_endpoint_refs_by_name p) = Some s \<longleftrightarrow>
      (\<exists>x\<in>set decls. name = ned_name x \<and> s = \<lparr>rf_kind = ned_kind x, rf_name = ned_name x\<rparr>)" for name s
    using inv unfolding endpoints_inv_def by blast
  have fresh: "ned_name decl \<notin> ned_name ` set decls"
    using new old [of "ned_name decl"] by force
  have p'_refs: "gp_endpoint_refs_by_name p' = bt_insert (ned_name decl) r (gp_endpoint_refs_by_name p)"
    and p'_defs: "gp_endpoint_definitions p' = bt_insert (ref_string r) d (gp_endpoint_definitions p)"
    and p'_registry: "gp_registry p' = builtin_registry" and p'_tables: "tables_ok p'"
    and filed': "filed p' s e \<longleftrightarrow> filed q s e" for s e
    using p q(1,2) by (auto simp: p' same_but_tables_def tables_ok_def filed_def split: netd_schema.splits)
  have kind: "rf_kind r = ned_kind decl" by (simp add: r)
  have resolves: "ref_resolves p' s" if s: "ref_resolves p s" for s
  proof -
    obtain e where e: "bt_get (rf_kind s) (ng_endpoints builtin_registry) = Some e"
      "bt_get (ref_string s) (gp_endpoint_definitions p) = Some e" "filed p s e"
      using s by (auto simp: ref_resolves_def)
    have "d = e" if "ref_string s = ref_string r"
      using ref_string_inject [of s e r d] that d e(1) kind by auto
    moreover have "filed q s e" using e(3) q(3) by (simp add: tables_grow_def)
    ultimately show ?thesis using e(1,2) wf(2) by (auto simp: ref_resolves_def filed' p'_defs)
  qed
  have "ref_resolves p' r"
    using d q(4) wf(2) by (simp add: ref_resolves_def filed' p'_defs kind)
  then have all: "ref_resolves p' s" if "bt_get name (gp_endpoint_refs_by_name p') = Some s" for name s
    using that inv wf(1) resolves by (simp add: p'_refs endpoints_inv_def split: if_splits)
  have refs: "bt_get name (gp_endpoint_refs_by_name p') = Some s \<longleftrightarrow>
      (\<exists>x\<in>set (decls @ [decl]). name = ned_name x \<and> s = \<lparr>rf_kind = ned_kind x, rf_name = ned_name x\<rparr>)"
    for name s
  proof (cases "name = ned_name decl")
    case True
    then show ?thesis using fresh wf(1) by (force simp: p'_refs r)
  qed (use wf(1) in \<open>simp add: p'_refs old\<close>)
  have "distinct (map ned_name (decls @ [decl]))"
    using inv fresh by (simp add: endpoints_inv_def)
  then show ?thesis
    unfolding endpoints_inv_def
    using all refs p'_registry p'_tables wf by (simp add: p'_refs p'_defs)
qed

text \<open>An accepted endpoint touches nothing but the tables of endpoints.\<close>

definition same_outside_endpoints :: "'p netd_policy \<Rightarrow> 'p netd_policy \<Rightarrow> bool" where
  "same_outside_endpoints base p \<longleftrightarrow>
     gp_credentials p = gp_credentials base \<and>
     gp_credential_refs_by_name p = gp_credential_refs_by_name base \<and>
     gp_credentials_by_endpoint p = gp_credentials_by_endpoint base \<and>
     gp_rules_by_family p = gp_rules_by_family base \<and> gp_tailscale p = gp_tailscale base \<and>
     gp_forwards p = gp_forwards base \<and> gp_default_action p = gp_default_action base"

lemma add_endpoint_frame:
  assumes "add_endpoint_decl net parse_prefix decl p = Ok p'" and "endpoints_inv decls p"
    and "same_outside_endpoints base p"
  shows "same_outside_endpoints base p'"
proof -
  have p: "gp_registry p = builtin_registry" "tables_ok p"
    using assms(2) by (auto simp: endpoints_inv_def)
  obtain d q r where "same_but_tables p q"
    and "p' = q\<lparr>gp_endpoint_refs_by_name := bt_insert (ned_name decl) r (gp_endpoint_refs_by_name p),
               gp_endpoint_definitions := bt_insert (ref_string r) d (gp_endpoint_definitions p)\<rparr>"
    using add_endpoint_decl_Ok [OF assms(1) p] by metis
  with assms(3) show ?thesis by (simp add: same_but_tables_def same_outside_endpoints_def)
qed

interpretation ep: checked_step "add_endpoint_decl net parse_prefix"
    "\<lambda>decls p. endpoints_inv decls p \<and> same_outside_endpoints base p" for net parse_prefix base
  by unfold_locales (auto intro: add_endpoint_inv add_endpoint_frame)

text \<open>Later declarations leave the tables of endpoints alone.\<close>

definition same_endpoints :: "'p netd_policy \<Rightarrow> 'p netd_policy \<Rightarrow> bool" where
  "same_endpoints base p \<longleftrightarrow>
     gp_registry p = gp_registry base \<and> gp_ip_endpoints p = gp_ip_endpoints base \<and>
     gp_http_endpoints p = gp_http_endpoints base \<and> gp_https_endpoints p = gp_https_endpoints base \<and>
     gp_package_endpoints p = gp_package_endpoints base \<and>
     gp_registry_endpoints p = gp_registry_endpoints base \<and>
     gp_endpoint_refs_by_name p = gp_endpoint_refs_by_name base \<and>
     gp_exact_http_bindings p = gp_exact_http_bindings base \<and>
     gp_endpoint_definitions p = gp_endpoint_definitions base \<and>
     gp_tailscale p = gp_tailscale base \<and> gp_forwards p = gp_forwards base \<and>
     gp_default_action p = gp_default_action base"

lemma endpoints_inv_cong:
  assumes "endpoints_inv decls base" and "same_endpoints base p"
  shows "endpoints_inv decls p"
proof -
  have "tables_ok p \<longleftrightarrow> tables_ok base" and "filed p r d \<longleftrightarrow> filed base r d" for r d
    using assms(2) by (auto simp: tables_ok_def filed_def same_endpoints_def split: netd_schema.splits)
  then show ?thesis
    using assms by (simp add: endpoints_inv_def ref_resolves_def same_endpoints_def)
qed

lemma resolved_definition:
  assumes "endpoints_inv decls p" and "bt_get name (gp_endpoint_refs_by_name p) = Some r"
  obtains d where "rf_name r = name" and "bt_get (rf_kind r) (ng_endpoints builtin_registry) = Some d"
    and "bt_get (ref_string r) (gp_endpoint_definitions p) = Some d"
proof -
  have "ref_resolves p r" "rf_name r = name"
    using assms unfolding endpoints_inv_def by auto
  then show ?thesis using that by (auto simp: ref_resolves_def)
qed

section \<open>Credentials\<close>

definition credential_bound :: "'p netd_policy \<Rightarrow> 'p netd_credential \<Rightarrow> bool" where
  "credential_bound p k \<longleftrightarrow>
     known_credential_kind (nk_kind k) \<and> rf_kind (nk_endpoint k) = ''https'' \<and>
     bt_get (rf_name (nk_endpoint k)) (gp_endpoint_refs_by_name p) = Some (nk_endpoint k)"

definition credential_names ::
  "netd_credential_decl list \<Rightarrow> (string, netd_ref) btree \<Rightarrow> bool" where
  "credential_names decls refs \<longleftrightarrow>
     bt_wf refs \<and> distinct (map ncd_name decls) \<and>
     (\<forall>name. bt_get name refs = None \<longleftrightarrow> name \<notin> ncd_name ` set decls)"

definition credential_table ::
  "'p netd_policy \<Rightarrow> (string, netd_ref) btree \<Rightarrow> (string, 'p netd_credential) btree \<Rightarrow> bool" where
  "credential_table p refs creds \<longleftrightarrow>
     bt_wf creds \<and>
     (\<forall>name c. bt_get name refs = Some c \<longrightarrow>
        rf_name c = name \<and> (\<exists>k. bt_get (ref_string c) creds = Some k \<and> credential_ref k = c)) \<and>
     (\<forall>key k. bt_get key creds = Some k \<longrightarrow>
        key = ref_string (credential_ref k) \<and> bt_get (nk_name k) refs = Some (credential_ref k) \<and>
        credential_bound p k)"

definition credential_index ::
  "(string, 'p netd_credential) btree \<Rightarrow> (string, 'p netd_credential list) btree \<Rightarrow> bool" where
  "credential_index creds index \<longleftrightarrow>
     bt_wf index \<and>
     (\<forall>key bound. bt_get key index = Some bound \<longrightarrow>
        distinct (map nk_name bound) \<and>
        list_all (\<lambda>k. ref_string (nk_endpoint k) = key \<and>
          bt_get (ref_string (credential_ref k)) creds = Some k) bound)"

definition credentials_inv :: "netd_credential_decl list \<Rightarrow> 'p netd_policy \<Rightarrow> bool" where
  "credentials_inv decls p \<longleftrightarrow>
     credential_names decls (gp_credential_refs_by_name p) \<and>
     credential_table p (gp_credential_refs_by_name p) (gp_credentials p) \<and>
     credential_index (gp_credentials p) (gp_credentials_by_endpoint p)"

definition bound_credentials :: "'p netd_policy \<Rightarrow> netd_ref \<Rightarrow> 'p netd_credential list" where
  "bound_credentials p e =
     (case bt_get (ref_string e) (gp_credentials_by_endpoint p) of None \<Rightarrow> [] | Some ks \<Rightarrow> ks)"

lemma add_credential_decl_Ok:
  assumes add: "add_credential_decl cel decl p = Ok p'" and inv: "endpoints_inv decls p"
  obtains k where "credential_ref k = \<lparr>rf_kind = ncd_kind decl, rf_name = ncd_name decl\<rparr>"
    and "bt_get (ncd_name decl) (gp_credential_refs_by_name p) = None"
    and "bt_get (ref_string (credential_ref k)) (gp_credentials p) = None"
    and "credential_bound p k"
    and "p' = p\<lparr>gp_credentials := bt_insert (ref_string (credential_ref k)) k (gp_credentials p),
           gp_credential_refs_by_name :=
             bt_insert (ncd_name decl) (credential_ref k) (gp_credential_refs_by_name p),
           gp_credentials_by_endpoint :=
             bt_insert (ref_string (nk_endpoint k)) (bound_credentials p (nk_endpoint k) @ [k])
               (gp_credentials_by_endpoint p)\<rparr>"
proof -
  define r where "r = \<lparr>rf_kind = ncd_kind decl, rf_name = ncd_name decl\<rparr>"
  from add obtain e c where kind: "known_credential_kind (ncd_kind decl)"
    and new: "bt_get (ncd_name decl) (gp_credential_refs_by_name p) = None"
    and e: "bt_get (ncd_endpoint decl) (gp_endpoint_refs_by_name p) = Some e"
    and support: "supports_credentials p e"
    and free: "bt_get (ref_string r) (gp_credentials p) = None"
    and p': "p' = (let k = \<lparr>nk_kind = ncd_kind decl, nk_name = ncd_name decl, nk_endpoint = e,
                     nk_username = ncd_username decl, nk_header = ncd_header decl,
                     nk_prefix = ncd_prefix decl, nk_idempotency_key = ncd_idempotency_key decl,
                     nk_condition = c\<rparr> in
         p\<lparr>gp_credentials := bt_insert (ref_string r) k (gp_credentials p),
           gp_credential_refs_by_name := bt_insert (ncd_name decl) r (gp_credential_refs_by_name p),
           gp_credentials_by_endpoint :=
             bt_insert (ref_string e) (bound_credentials p e @ [k]) (gp_credentials_by_endpoint p)\<rparr>)"
    by (auto simp: add_credential_decl_def Let_def r_def [symmetric] bound_credentials_def
        split: if_splits option.splits)
  define k where "k = \<lparr>nk_kind = ncd_kind decl, nk_name = ncd_name decl, nk_endpoint = e,
                     nk_username = ncd_username decl, nk_header = ncd_header decl,
                     nk_prefix = ncd_prefix decl, nk_idempotency_key = ncd_idempotency_key decl,
                     nk_condition = c\<rparr>"
  have ref: "credential_ref k = r" and on_e: "nk_endpoint k = e"
    by (simp_all add: credential_ref_def k_def r_def)
  obtain d where d: "rf_name e = ncd_endpoint decl"
      "bt_get (rf_kind e) (ng_endpoints builtin_registry) = Some d"
      "bt_get (ref_string e) (gp_endpoint_definitions p) = Some d"
    using resolved_definition [OF inv e] .
  have "rf_kind e = ''https''"
    using builtin_kinds [OF d(2)] support d(3) by (auto simp: supports_credentials_def)
  then have "credential_bound p k"
    using kind e d(1) by (simp add: credential_bound_def k_def)
  then show ?thesis
    using that [of k] new free p' by (simp add: ref on_e Let_def k_def [symmetric] r_def [symmetric])
qed

lemma credential_names_insert:
  assumes "credential_names ks refs" and "bt_get (ncd_name decl) refs = None"
  shows "credential_names (ks @ [decl]) (bt_insert (ncd_name decl) c refs)"
  using assms by (auto simp: credential_names_def)

lemma credential_table_insert:
  assumes table: "credential_table p refs creds" and wf: "bt_wf refs"
    and new: "bt_get (nk_name k) refs = None" and free: "bt_get (ref_string (credential_ref k)) creds = None"
    and bound: "credential_bound p k"
  shows "credential_table p (bt_insert (nk_name k) (credential_ref k) refs)
    (bt_insert (ref_string (credential_ref k)) k creds)"
proof -
  have "rf_name (credential_ref k) = nk_name k" by (simp add: credential_ref_def)
  moreover have "ref_string c \<noteq> ref_string (credential_ref k)" if "bt_get n refs = Some c" for n c
    using table that free unfolding credential_table_def by fastforce
  moreover have "nk_name x \<noteq> nk_name k" if "bt_get n creds = Some x" for n x
    using table that new unfolding credential_table_def by fastforce
  ultimately show ?thesis
    using table wf bound unfolding credential_table_def by simp
qed

lemma credential_index_insert:
  assumes index: "credential_index creds index" and table: "credential_table p refs creds"
    and new: "bt_get (nk_name k) refs = None" and free: "bt_get (ref_string (credential_ref k)) creds = None"
    and bound: "bound = (case bt_get (ref_string (nk_endpoint k)) index of None \<Rightarrow> [] | Some ks \<Rightarrow> ks)"
  shows "credential_index (bt_insert (ref_string (credential_ref k)) k creds)
    (bt_insert (ref_string (nk_endpoint k)) (bound @ [k]) index)"
proof -
  let ?key = "ref_string (credential_ref k)"
  have wf: "bt_wf creds" "bt_wf index"
    using index table by (auto simp: credential_index_def credential_table_def)
  have other: "nk_name x \<noteq> nk_name k \<and> ref_string (credential_ref x) \<noteq> ?key"
    if x: "bt_get (ref_string (credential_ref x)) creds = Some x" for x
  proof -
    have "bt_get (nk_name x) refs = Some (credential_ref x)"
      using table x unfolding credential_table_def by blast
    with new x free show ?thesis by (metis option.distinct(1))
  qed
  have kept: "distinct (map nk_name ks) \<and> k \<notin> set ks \<and> nk_name k \<notin> nk_name ` set ks \<and>
      list_all (\<lambda>x. ref_string (nk_endpoint x) = key \<and>
        bt_get (ref_string (credential_ref x)) (bt_insert ?key k creds) = Some x) ks"
    if "bt_get key index = Some ks" for key ks
    using index that wf other unfolding credential_index_def list_all_iff by fastforce
  have "distinct (map nk_name (bound @ [k])) \<and>
      list_all (\<lambda>x. ref_string (nk_endpoint x) = ref_string (nk_endpoint k) \<and>
        bt_get (ref_string (credential_ref x)) (bt_insert ?key k creds) = Some x) (bound @ [k])"
    using kept [of "ref_string (nk_endpoint k)"] wf
    by (cases "bt_get (ref_string (nk_endpoint k)) index") (simp_all add: bound split del: if_split)
  then show ?thesis
    unfolding credential_index_def using kept wf by auto
qed

lemma bound_credentials_cases:
  assumes "credentials_inv decls p" and "k \<in> set (bound_credentials p e)"
  shows "bt_get (ref_string (credential_ref k)) (gp_credentials p) = Some k"
    and "ref_string (nk_endpoint k) = ref_string e"
proof -
  obtain ks where "bt_get (ref_string e) (gp_credentials_by_endpoint p) = Some ks" and "k \<in> set ks"
    using assms(2) by (cases "bt_get (ref_string e) (gp_credentials_by_endpoint p)")
      (simp_all add: bound_credentials_def)
  then show "bt_get (ref_string (credential_ref k)) (gp_credentials p) = Some k"
    and "ref_string (nk_endpoint k) = ref_string e"
    using assms(1) by (auto simp: credentials_inv_def credential_index_def list_all_iff)
qed

lemma credential_named:
  assumes "credentials_inv decls p" and "bt_get name (gp_credential_refs_by_name p) = Some c"
  obtains k where "rf_name c = name" and "bt_get (ref_string c) (gp_credentials p) = Some k"
    and "credential_ref k = c"
  using assms unfolding credentials_inv_def credential_table_def by blast

lemma add_credential_inv:
  assumes inv: "credentials_inv ks p" and ep: "endpoints_inv decls p"
    and add: "add_credential_decl cel decl p = Ok p'"
  shows "credentials_inv (ks @ [decl]) p' \<and> same_endpoints p p' \<and>
    gp_rules_by_family p' = gp_rules_by_family p"
proof -
  obtain k where ref: "credential_ref k = \<lparr>rf_kind = ncd_kind decl, rf_name = ncd_name decl\<rparr>"
    and new: "bt_get (ncd_name decl) (gp_credential_refs_by_name p) = None"
    and free: "bt_get (ref_string (credential_ref k)) (gp_credentials p) = None"
    and bound: "credential_bound p k"
    and p': "p' = p\<lparr>gp_credentials := bt_insert (ref_string (credential_ref k)) k (gp_credentials p),
           gp_credential_refs_by_name :=
             bt_insert (ncd_name decl) (credential_ref k) (gp_credential_refs_by_name p),
           gp_credentials_by_endpoint :=
             bt_insert (ref_string (nk_endpoint k)) (bound_credentials p (nk_endpoint k) @ [k])
               (gp_credentials_by_endpoint p)\<rparr>"
    using add_credential_decl_Ok [OF add ep] .
  have name: "ncd_name decl = nk_name k"
    using ref by (simp add: credential_ref_def)
  have parts: "credential_names ks (gp_credential_refs_by_name p)"
      "credential_table p (gp_credential_refs_by_name p) (gp_credentials p)"
      "credential_index (gp_credentials p) (gp_credentials_by_endpoint p)"
      "bt_wf (gp_credential_refs_by_name p)"
    using inv by (simp_all add: credentials_inv_def credential_names_def)
  have table_cong: "credential_table p' refs creds \<longleftrightarrow> credential_table p refs creds" for refs creds
    by (simp add: p' credential_table_def credential_bound_def)
  have "credentials_inv (ks @ [decl]) p'"
    unfolding credentials_inv_def table_cong
    using credential_names_insert [OF parts(1) new]
      credential_table_insert [OF parts(2,4) new [unfolded name] free bound]
      credential_index_insert [OF parts(3,2) new [unfolded name] free refl]
    by (simp add: p' name bound_credentials_def)
  then show ?thesis by (simp add: p' same_endpoints_def)
qed

lemma same_endpoints_trans: "same_endpoints a b \<Longrightarrow> same_endpoints b c \<Longrightarrow> same_endpoints a c"
  by (simp add: same_endpoints_def)

interpretation cr: checked_step "add_credential_decl cel"
    "\<lambda>ks p. credentials_inv ks p \<and> endpoints_inv decls base \<and> same_endpoints base p \<and>
       gp_rules_by_family p = gp_rules_by_family base" for cel decls base
proof (unfold_locales, elim conjE)
  fix xs s x s'
  assume inv: "credentials_inv xs s" "endpoints_inv decls base" "same_endpoints base s"
    "gp_rules_by_family s = gp_rules_by_family base" and add: "add_credential_decl cel x s = Ok s'"
  have "credentials_inv (xs @ [x]) s' \<and> same_endpoints s s' \<and> gp_rules_by_family s' = gp_rules_by_family s"
    using add_credential_inv [OF inv(1) endpoints_inv_cong [OF inv(2,3)] add] .
  then show "credentials_inv (xs @ [x]) s' \<and> endpoints_inv decls base \<and> same_endpoints base s' \<and>
      gp_rules_by_family s' = gp_rules_by_family base"
    using inv same_endpoints_trans by auto
qed

section \<open>Rules\<close>

text \<open>What enforcement relies on: the references of a rule resolve in its own family.\<close>

definition rule_ok :: "'p netd_policy \<Rightarrow> string \<Rightarrow> 'p netd_rule \<Rightarrow> bool" where
  "rule_ok p family r \<longleftrightarrow>
     rl_family r = family \<and> (rl_verdict r = ''allow'' \<or> rl_verdict r = ''deny'') \<and>
     rl_endpoints r \<noteq> [] \<and>
     (\<forall>e\<in>set (rl_endpoints r). bt_get (rf_name e) (gp_endpoint_refs_by_name p) = Some e \<and>
        (\<exists>d. bt_get (rf_kind e) (ng_endpoints builtin_registry) = Some d \<and> nd_family d = family)) \<and>
     (\<forall>t. rl_tunnel r = Some t \<longrightarrow> family = ''ip'' \<and> rl_verdict r = ''allow'' \<and>
        (\<exists>n. gp_tailscale p = Some n \<and> t = \<lparr>rf_kind = ''tailscale'', rf_name = ntd_name n\<rparr>)) \<and>
     (\<forall>c. rl_credential r = Some c \<longrightarrow> family = ''http'' \<and>
        (\<exists>k. bt_get (ref_string c) (gp_credentials p) = Some k \<and> credential_ref k = c \<and>
           nk_endpoint k \<in> set (rl_endpoints r))) \<and>
     (rl_condition r \<noteq> None \<longrightarrow> family \<noteq> ''ip'')"

text \<open>The declaration a rule comes from.\<close>

definition rule_from :: "'p netd_policy \<Rightarrow> netd_rule_decl \<Rightarrow> 'p netd_rule \<Rightarrow> bool" where
  "rule_from p decl r \<longleftrightarrow>
     rl_name r = nrd_name decl \<and> rl_verdict r = nrd_verdict decl \<and> rl_priority r = nrd_priority decl \<and>
     rl_disabled r = nrd_disabled decl \<and> rl_reason r = nrd_reason decl \<and>
     map Some (rl_endpoints r) = map (\<lambda>n. bt_get n (gp_endpoint_refs_by_name p)) (nrd_endpoints decl) \<and>
     map_option rf_name (rl_tunnel r) = (if nrd_tunnel decl = [] then None else Some (nrd_tunnel decl)) \<and>
     map_option rf_name (rl_credential r) =
       (if nrd_credential decl = [] then None else Some (nrd_credential decl)) \<and>
     map_option co_source (rl_condition r) =
       (if nrd_condition decl = [] then None else Some (nrd_condition decl))"

lemma same_family_Ok:
  "same_family p family refs = Ok f \<Longrightarrow> f = family \<and> (\<forall>r\<in>set refs. endpoint_family_of p r = Ok family)"
  by (induction refs) (auto split: if_splits)

lemma validate_endpoint_family_Ok:
  assumes "validate_endpoint_family p refs = Ok family"
  shows "refs \<noteq> [] \<and> (\<forall>r\<in>set refs. endpoint_family_of p r = Ok family)"
  using assms by (cases refs) (auto simp: validate_endpoint_family_def dest: same_family_Ok)

lemma rule_endpoints_Ok:
  assumes "rule_endpoints p decl = Ok refs"
  shows "map Some refs = map (\<lambda>n. bt_get n (gp_endpoint_refs_by_name p)) (nrd_endpoints decl)"
  using collect_results_Ok [OF assms [unfolded rule_endpoints_def]]
  by (induction rule: list_all2_induct) auto

lemma compile_condition_source: "compile_condition cel registry family s = Ok c \<Longrightarrow> co_source c = s"
  by (auto simp: compile_condition_def split: if_splits option.splits)

lemma optional_condition_Ok:
  assumes "optional_condition cel registry family s wrap = Ok c"
  shows "map_option co_source c = (if s = [] then None else Some s)"
  using assms by (auto simp: optional_condition_def dest: compile_condition_source split: if_splits)

lemma rule_credential_ok:
  assumes "netd_validate_rule_credential p r = Ok ()" and "rl_credential r = Some c"
  obtains k where "bt_get (ref_string c) (gp_credentials p) = Some k" and "rl_family r = ''http''"
    and "nk_endpoint k \<in> set (rl_endpoints r)"
  using assms by (auto simp: netd_validate_rule_credential_def split: option.splits if_splits)

lemma file_rule_Ok:
  assumes "file_rule r p = Ok p'"
  shows "netd_validate_rule_credential p r = Ok ()"
    and "\<exists>d. bt_get (rl_family r) (ng_families (gp_registry p)) = Some d \<and> (nfm_cel d \<or> rl_condition r = None)"
    and "p' = (if rl_disabled r then p else push_rule (rl_family r) r p)"
  using assms by (auto simp: file_rule_def split: if_splits option.splits)

lemma add_rule_decl_Ok:
  assumes add: "add_rule_decl cel decl order p = Ok p'"
    and ep: "endpoints_inv decls p" and cr: "credentials_inv ks p"
  obtains r family where "rule_ok p family r" and "rule_from p decl r" and "rl_order r = order"
    and "p' = (if nrd_disabled decl then p else push_rule family r p)"
proof -
  from add obtain refs family credential tunnel condition r where
    refs: "rule_endpoints p decl = Ok refs" and
    family: "validate_endpoint_family p refs = Ok family" and
    credential: "rule_credential_ref p decl = Ok credential" and
    tunnel: "rule_tunnel p decl family = Ok tunnel" and
    verdict: "nrd_verdict decl = ''allow'' \<or> nrd_verdict decl = ''deny''" and
    condition: "optional_condition cel (gp_registry p) family (nrd_condition decl)
               (GoWrapped ''rule %q condition is invalid: %w'' [nrd_name decl]) = Ok condition" and
    r: "r = \<lparr>rl_tunnel = tunnel, rl_name = nrd_name decl, rl_family = family,
                rl_endpoints = refs, rl_credential = credential, rl_verdict = nrd_verdict decl,
                rl_priority = nrd_priority decl, rl_disabled = nrd_disabled decl,
                rl_reason = nrd_reason decl, rl_order = order, rl_condition = condition\<rparr>" and
    filed: "file_rule r p = Ok p'"
    unfolding add_rule_decl_def by (auto split: if_splits)
  note valid = file_rule_Ok(1) [OF filed]
  obtain d where d: "bt_get family (ng_families (gp_registry p)) = Some d" "nfm_cel d \<or> condition = None"
    using file_rule_Ok(2) [OF filed] by (auto simp: r)
  have p': "p' = (if nrd_disabled decl then p else push_rule family r p)"
    using file_rule_Ok(3) [OF filed] by (simp add: r)
  have registry: "gp_registry p = builtin_registry" using ep by (simp add: endpoints_inv_def)
  have ends: "bt_get (rf_name e) (gp_endpoint_refs_by_name p) = Some e \<and>
      (\<exists>d. bt_get (rf_kind e) (ng_endpoints builtin_registry) = Some d \<and> nd_family d = family)"
    if e: "e \<in> set refs" for e
  proof -
    have "Some e \<in> set (map (\<lambda>n. bt_get n (gp_endpoint_refs_by_name p)) (nrd_endpoints decl))"
      using e rule_endpoints_Ok [OF refs, symmetric] by simp
    then obtain n where n: "bt_get n (gp_endpoint_refs_by_name p) = Some e" by auto
    obtain d where "rf_name e = n" "bt_get (rf_kind e) (ng_endpoints builtin_registry) = Some d"
      "bt_get (ref_string e) (gp_endpoint_definitions p) = Some d"
      using resolved_definition [OF ep n] .
    then show ?thesis
      using n e validate_endpoint_family_Ok [OF family] by (auto simp: endpoint_family_of_def)
  qed
  have cred: "family = ''http'' \<and> rf_name c = nrd_credential decl \<and> nrd_credential decl \<noteq> [] \<and>
      (\<exists>k. bt_get (ref_string c) (gp_credentials p) = Some k \<and> credential_ref k = c \<and>
         nk_endpoint k \<in> set refs)" if c: "credential = Some c" for c
  proof -
    have c': "bt_get (nrd_credential decl) (gp_credential_refs_by_name p) = Some c"
      and named: "nrd_credential decl \<noteq> []"
      using credential c by (auto simp: rule_credential_ref_def split: if_splits option.splits)
    obtain k where k: "rf_name c = nrd_credential decl"
        "bt_get (ref_string c) (gp_credentials p) = Some k" "credential_ref k = c"
      using credential_named [OF cr c'] .
    moreover have "family = ''http''" "nk_endpoint k \<in> set refs"
      using rule_credential_ok [OF valid, of c] c k(2) by (auto simp: r)
    ultimately show ?thesis using named by blast
  qed
  have "credential = None \<Longrightarrow> nrd_credential decl = []"
    using credential by (auto simp: rule_credential_ref_def split: if_splits option.splits)
  with cred have from_credential: "map_option rf_name credential =
      (if nrd_credential decl = [] then None else Some (nrd_credential decl))"
    by (cases credential) auto
  have tun: "map_option rf_name tunnel = (if nrd_tunnel decl = [] then None else Some (nrd_tunnel decl)) \<and>
      (\<forall>t. tunnel = Some t \<longrightarrow> family = ''ip'' \<and> nrd_verdict decl = ''allow'' \<and>
        (\<exists>n. gp_tailscale p = Some n \<and> t = \<lparr>rf_kind = ''tailscale'', rf_name = ntd_name n\<rparr>))"
    using tunnel by (auto simp: rule_tunnel_def Let_def split: if_splits option.splits)
  have "\<not> nfm_cel d" if "family = ''ip''"
    using d(1) that by (auto simp: registry builtin_registry_def bt_get_from)
  then have "rule_ok p family r"
    using ends cred tun verdict d(2) validate_endpoint_family_Ok [OF family]
    unfolding rule_ok_def by (auto simp: r)
  moreover have "rule_from p decl r"
    using rule_endpoints_Ok [OF refs] from_credential tun optional_condition_Ok [OF condition]
    unfolding rule_from_def by (simp add: r)
  ultimately show ?thesis using that p' by (simp add: r)
qed

text \<open>
  The rules of a family are the enabled declarations of that family, in the order of the document
  until they are sorted.
\<close>

definition rule_lists_ok ::
  "(nat \<times> netd_rule_decl) list \<Rightarrow> 'p netd_policy \<Rightarrow> (string, 'p netd_rule list) btree \<Rightarrow> bool" where
  "rule_lists_ok decls p table \<longleftrightarrow>
     (\<forall>family rs r. bt_get family table = Some rs \<and> r \<in> set rs \<longrightarrow>
        rule_ok p family r \<and> \<not> rl_disabled r \<and>
        (\<exists>decl. (rl_order r, decl) \<in> set decls \<and> rule_from p decl r)) \<and>
     (\<forall>i decl. (i, decl) \<in> set decls \<and> \<not> nrd_disabled decl \<longrightarrow>
        (\<exists>family rs r. bt_get family table = Some rs \<and> r \<in> set rs \<and> rl_order r = i \<and> rule_from p decl r))"

definition rules_inv :: "(nat \<times> netd_rule_decl) list \<Rightarrow> 'p netd_policy \<Rightarrow> bool" where
  "rules_inv decls p \<longleftrightarrow>
     bt_wf (gp_rules_by_family p) \<and> rule_lists_ok decls p (gp_rules_by_family p) \<and>
     (sorted_wrt (<) (map fst decls) \<longrightarrow>
        (\<forall>family rs. bt_get family (gp_rules_by_family p) = Some rs \<longrightarrow>
           sorted_wrt (\<lambda>r s. rl_order r < rl_order s) rs))"

lemma push_rule_get:
  assumes "bt_wf (gp_rules_by_family p)"
  shows "bt_get f (gp_rules_by_family (push_rule family r p)) =
    (if f = family then Some (family_rules p family @ [r]) else bt_get f (gp_rules_by_family p))"
  using assms by (simp add: push_rule_def)

lemma rule_ok_push: "rule_ok (push_rule family r p) f x \<longleftrightarrow> rule_ok p f x"
  and rule_from_push: "rule_from (push_rule family r p) decl x \<longleftrightarrow> rule_from p decl x"
  by (simp_all add: push_rule_def rule_ok_def rule_from_def)

lemma rule_lists_push:
  assumes old: "rule_lists_ok decls p (gp_rules_by_family p)" and wf: "bt_wf (gp_rules_by_family p)"
    and r: "rule_ok p family r" "rule_from p decl r" "rl_order r = i" "\<not> nrd_disabled decl"
  shows "rule_lists_ok (decls @ [(i, decl)]) p (gp_rules_by_family (push_rule family r p))"
proof -
  have new: "\<not> rl_disabled r" using r(2,4) by (simp add: rule_from_def)
  have "rule_ok p f x \<and> \<not> rl_disabled x \<and> (\<exists>d. (rl_order x, d) \<in> set (decls @ [(i, decl)]) \<and> rule_from p d x)"
    if x: "bt_get f (gp_rules_by_family (push_rule family r p)) = Some rs" "x \<in> set rs" for f rs x
  proof (cases "f = family \<and> x = r")
    case True
    then show ?thesis using r new by auto
  next
    case False
    then obtain ss where "bt_get f (gp_rules_by_family p) = Some ss" "x \<in> set ss"
      using x wf by (auto simp: push_rule_get family_rules_def split: if_splits option.splits)
    then show ?thesis using old unfolding rule_lists_ok_def by fastforce
  qed
  moreover have "\<exists>f rs x. bt_get f (gp_rules_by_family (push_rule family r p)) = Some rs \<and> x \<in> set rs \<and>
      rl_order x = j \<and> rule_from p d x"
    if d: "(j, d) \<in> set (decls @ [(i, decl)])" "\<not> nrd_disabled d" for j d
  proof (cases "(j, d) = (i, decl)")
    case True
    then show ?thesis using r wf by (auto simp: push_rule_get)
  next
    case False
    then have "(j, d) \<in> set decls" using d(1) by auto
    then obtain f rs x where "bt_get f (gp_rules_by_family p) = Some rs" "x \<in> set rs" "rl_order x = j"
      "rule_from p d x"
      using old d(2) unfolding rule_lists_ok_def by blast
    then show ?thesis using wf
      by (intro exI [of _ f] exI [of _ "if f = family then rs @ [r] else rs"] exI [of _ x])
        (auto simp: push_rule_get family_rules_def)
  qed
  ultimately show ?thesis unfolding rule_lists_ok_def by blast
qed

lemma rule_lists_skip:
  assumes old: "rule_lists_ok decls p table" and disabled: "nrd_disabled decl"
  shows "rule_lists_ok (decls @ [(i, decl)]) p table"
  using assms unfolding rule_lists_ok_def by simp blast

lemma rule_lists_push_cong:
  "rule_lists_ok decls (push_rule family r p) table = rule_lists_ok decls p table"
  unfolding rule_lists_ok_def rule_ok_push rule_from_push ..

lemma add_rule_inv:
  assumes inv: "rules_inv rules p" and ep: "endpoints_inv decls p" and cr: "credentials_inv ks p"
    and add: "add_rule_decl cel decl i p = Ok p'"
  shows "rules_inv (rules @ [(i, decl)]) p'"
    and "same_endpoints p p'" and "credentials_inv ks p'"
proof -
  obtain r family where r: "rule_ok p family r" "rule_from p decl r" "rl_order r = i"
    and p': "p' = (if nrd_disabled decl then p else push_rule family r p)"
    using add_rule_decl_Ok [OF add ep cr] .
  show "same_endpoints p p'" "credentials_inv ks p'"
    using cr by (simp_all add: p' push_rule_def same_endpoints_def credentials_inv_def credential_table_def
        credential_bound_def)
  have wf: "bt_wf (gp_rules_by_family p)" and table: "rule_lists_ok rules p (gp_rules_by_family p)"
    using inv by (auto simp: rules_inv_def)
  show "rules_inv (rules @ [(i, decl)]) p'"
  proof (cases "nrd_disabled decl")
    case True
    then show ?thesis
      using inv rule_lists_skip [OF table True] by (simp add: rules_inv_def p' sorted_wrt_append)
  next
    case False
    have "rule_lists_ok (rules @ [(i, decl)]) (push_rule family r p) (gp_rules_by_family (push_rule family r p))"
      using rule_lists_push [OF table wf r False] by (simp only: rule_lists_push_cong)
    moreover have "sorted_wrt (\<lambda>r s. rl_order r < rl_order s) rs"
      if sorted: "sorted_wrt (<) (map fst (rules @ [(i, decl)]))"
        and rs: "bt_get f (gp_rules_by_family (push_rule family r p)) = Some rs" for f rs
    proof -
      have old: "sorted_wrt (\<lambda>r s. rl_order r < rl_order s) ss \<and> (\<forall>s\<in>set ss. rl_order s < i)"
        if "bt_get g (gp_rules_by_family p) = Some ss" for g ss
        using inv sorted that unfolding rules_inv_def rule_lists_ok_def
        by (fastforce simp: sorted_wrt_append)
      show ?thesis
        using rs old wf r(3)
        by (auto simp: push_rule_get family_rules_def sorted_wrt_append split: if_splits option.splits)
    qed
    moreover have "bt_wf (gp_rules_by_family (push_rule family r p))"
      using wf by (simp add: push_rule_def)
    ultimately show ?thesis using False unfolding rules_inv_def by (simp add: p')
  qed
qed

interpretation ru: checked_step "\<lambda>(i, decl). add_rule_decl cel decl i"
    "\<lambda>rules p. rules_inv rules p \<and> credentials_inv ks p \<and> endpoints_inv decls base \<and> same_endpoints base p"
    for cel ks decls base
proof (unfold_locales, elim conjE)
  fix xs s x s'
  assume inv: "rules_inv xs s" "credentials_inv ks s" "endpoints_inv decls base" "same_endpoints base s"
    and add: "(case x of (i, decl) \<Rightarrow> add_rule_decl cel decl i) s = Ok s'"
  obtain i decl where x: "x = (i, decl)" by (cases x)
  note step = add_rule_inv [OF inv(1) endpoints_inv_cong [OF inv(3,4)] inv(2)]
  show "rules_inv (xs @ [x]) s' \<and> credentials_inv ks s' \<and> endpoints_inv decls base \<and> same_endpoints base s'"
    using step [of cel decl i s'] add inv same_endpoints_trans by (auto simp: x)
qed

section \<open>Compiled policies\<close>

definition forward_ok :: "netd_forward \<Rightarrow> bool" where
  "forward_ok f \<longleftrightarrow>
     nw_name f \<noteq> [] \<and> 0 < nw_listen_port f \<and> nw_listen_port f \<le> u16_max \<and> nw_listen_port f \<noteq> 22 \<and>
     nw_guest_port f \<noteq> 0 \<and> (nw_protocol f = ''tcp'' \<or> nw_protocol f = ''https'')"

definition forwards_ok :: "'p netd_policy \<Rightarrow> bool" where
  "forwards_ok p \<longleftrightarrow>
     list_all forward_ok (gp_forwards p) \<and> distinct (map nw_name (gp_forwards p)) \<and>
     distinct (map nw_listen_port (gp_forwards p)) \<and> (gp_forwards p = [] \<or> gp_tailscale p \<noteq> None)"

lemma forward_listen_port_bounds:
  assumes "forward_listen_port listen = Ok port"
  shows "0 < port \<and> port \<le> u16_max"
  using assms
  by (auto simp: forward_listen_port_def Let_def parse_uint_def split: list.splits if_splits option.splits)

lemma forward_tls_check_protocol:
  "forward_tls_check decl protocol = Ok u \<Longrightarrow> protocol = ''tcp'' \<or> protocol = ''https''"
  by (simp add: forward_tls_check_def split: if_splits)

lemma compile_forward_Ok:
  assumes "compile_forward tailscale names listeners decl = Ok f"
  shows "forward_ok f" and "nw_name f = nfd_name decl" and "nw_name f \<notin> names"
    and "nw_listen_port f \<notin> listeners" and "tailscale \<noteq> None"
proof -
  from assms obtain t port where facts: "nfd_name decl \<noteq> []" "nfd_name decl \<notin> names"
    "tailscale = Some t" "forward_listen_port (nfd_listen decl) = Ok port" "port \<noteq> 22"
    "port \<notin> listeners" "nfd_target_port decl \<noteq> 0"
    "forward_tls_check decl (if nfd_protocol decl = [] then ''tcp'' else nfd_protocol decl) = Ok ()"
    "f = \<lparr>nw_name = nfd_name decl, nw_listen_port = port, nw_guest_port = nfd_target_port decl,
          nw_protocol = (if nfd_protocol decl = [] then ''tcp'' else nfd_protocol decl)\<rparr>"
    unfolding compile_forward_def Let_def by (auto split: if_split_asm option.split_asm)
  then show "forward_ok f"
    using forward_listen_port_bounds [OF facts(4)] forward_tls_check_protocol [OF facts(8)]
    by (simp add: forward_ok_def split: if_splits)
  show "nw_name f = nfd_name decl" "nw_name f \<notin> names" "nw_listen_port f \<notin> listeners" "tailscale \<noteq> None"
    using facts by simp_all
qed

lemma compile_forward_list_Ok:
  assumes "compile_forward_list tailscale names listeners decls = Ok fs"
  shows "list_all forward_ok fs \<and> distinct (map nw_name fs) \<and> distinct (map nw_listen_port fs) \<and>
    nw_name ` set fs \<inter> names = {} \<and> nw_listen_port ` set fs \<inter> listeners = {} \<and>
    (fs = [] \<or> tailscale \<noteq> None)"
  using assms
proof (induction decls arbitrary: names listeners fs)
  case (Cons decl decls)
  then obtain f gs where f: "compile_forward tailscale names listeners decl = Ok f"
    and gs: "compile_forward_list tailscale (insert (nfd_name decl) names)
      (insert (nw_listen_port f) listeners) decls = Ok gs"
    and fs: "fs = f # gs" by auto
  show ?case using Cons.IH [OF gs] compile_forward_Ok [OF f] by (auto simp: fs)
qed simp

text \<open>Evaluation order: higher priority first, then the order of the document.\<close>

definition rule_before :: "'p netd_rule \<Rightarrow> 'p netd_rule \<Rightarrow> bool" where
  "rule_before r s \<longleftrightarrow>
     rl_priority r > rl_priority s \<or> rl_priority r = rl_priority s \<and> rl_order r < rl_order s"

definition compiled_ok :: "network_policy_file \<Rightarrow> 'p netd_policy \<Rightarrow> bool" where
  "compiled_ok document p \<longleftrightarrow>
     (gp_default_action p = ''allow'' \<or> gp_default_action p = ''deny'') \<and> forwards_ok p \<and>
     endpoints_inv (npf_endpoints document) p \<and> credentials_inv (npf_credentials document) p \<and>
     rule_lists_ok (enumerate 0 (npf_rules document)) p (gp_rules_by_family p) \<and>
     (\<forall>family. sorted_wrt rule_before (family_rules p family))"

lemma bt_get_map_values: "bt_get k (map (\<lambda>(k, v). (k, g v)) t) = map_option g (bt_get k t)"
  by (induction k t rule: bt_get.induct) auto

lemma sort_rules_get:
  "bt_get family (gp_rules_by_family (sort_rules p)) =
     map_option (sort_key (\<lambda>r. - rl_priority r)) (bt_get family (gp_rules_by_family p))"
  by (simp add: sort_rules_def bt_get_map_values)

lemma rule_ok_sort: "rule_ok (sort_rules p) family r \<longleftrightarrow> rule_ok p family r"
  and rule_from_sort: "rule_from (sort_rules p) decl r \<longleftrightarrow> rule_from p decl r"
  by (simp_all add: sort_rules_def rule_ok_def rule_from_def)

lemma sort_rules_inv:
  assumes inv: "rules_inv decls p" and sorted: "sorted_wrt (<) (map fst decls)"
  shows "rule_lists_ok decls (sort_rules p) (gp_rules_by_family (sort_rules p))"
    and "sorted_wrt rule_before (family_rules (sort_rules p) family)"
proof -
  have table: "rule_lists_ok decls p (gp_rules_by_family p)" using inv by (simp add: rules_inv_def)
  show "rule_lists_ok decls (sort_rules p) (gp_rules_by_family (sort_rules p))"
    using table unfolding rule_lists_ok_def rule_ok_sort rule_from_sort by (fastforce simp: sort_rules_get)
  show "sorted_wrt rule_before (family_rules (sort_rules p) family)"
  proof (cases "bt_get family (gp_rules_by_family p)")
    case (Some rs)
    have "sorted_wrt (\<lambda>r s. rl_order r < rl_order s) rs"
      using inv sorted Some by (simp add: rules_inv_def)
    from sort_key_lex [OF this, of "\<lambda>r. - rl_priority r"]
    have "sorted_wrt rule_before (sort_key (\<lambda>r. - rl_priority r) rs)"
      by (rule sorted_wrt_mono_rel [rotated]) (auto simp: rule_before_def)
    then show ?thesis by (simp add: family_rules_def sort_rules_get Some)
  qed (simp add: family_rules_def sort_rules_get)
qed

text \<open>Settings, tunnel and forwards come before every table.\<close>

definition blank :: "'p netd_policy \<Rightarrow> bool" where
  "blank p \<longleftrightarrow>
     gp_registry p = builtin_registry \<and> gp_ip_endpoints p = [] \<and> gp_http_endpoints p = [] \<and>
     gp_https_endpoints p = [] \<and> gp_package_endpoints p = [] \<and> gp_registry_endpoints p = [] \<and>
     gp_exact_http_bindings p = [] \<and> gp_endpoint_refs_by_name p = [] \<and>
     gp_endpoint_definitions p = [] \<and> gp_credentials p = [] \<and> gp_credential_refs_by_name p = [] \<and>
     gp_credentials_by_endpoint p = [] \<and> gp_rules_by_family p = []"

lemma blank_new_policy: "blank (new_policy\<lparr>gp_metadata := metadata\<rparr>)"
  by (simp add: blank_def new_policy_def)

lemma compile_settings_blank:
  assumes "compile_settings document p = Ok p'" and "blank p"
  shows "blank p' \<and> (gp_default_action p' = ''allow'' \<or> gp_default_action p' = ''deny'')"
proof -
  define action where
    "action = (if npf_default_action document \<noteq> [] then npf_default_action document else gp_default_action p)"
  show ?thesis
    using assms unfolding compile_settings_def Let_def action_def [symmetric] blank_def
    by (cases "action \<noteq> ''allow'' \<and> action \<noteq> ''deny''") auto
qed

lemma compile_tailscale_blank:
  assumes "compile_tailscale decls p = Ok p'" and "blank p"
  shows "blank p' \<and> gp_default_action p' = gp_default_action p"
  using assms by (auto simp: compile_tailscale_def blank_def split: list.splits if_splits)

lemma compile_forwards_blank:
  assumes "compile_forwards p decls = Ok p'" and "blank p"
  shows "blank p' \<and> gp_default_action p' = gp_default_action p \<and> forwards_ok p'"
proof -
  obtain fs where "compile_forward_list (gp_tailscale p) {} {} decls = Ok fs"
    and "p' = p\<lparr>gp_forwards := fs\<rparr>"
    using assms(1) by (auto simp: compile_forwards_def)
  then show ?thesis
    using compile_forward_list_Ok [of "gp_tailscale p" "{}" "{}" decls fs] assms(2)
    by (simp add: blank_def forwards_ok_def)
qed

lemma compile_phases:
  assumes "compile_network_policy net parse_prefix cel filename document = Ok p"
  obtains p3 p4 p5 p6 where "blank p3" and "forwards_ok p3"
    and "gp_default_action p3 = ''allow'' \<or> gp_default_action p3 = ''deny''"
    and "add_all (add_endpoint_decl net parse_prefix) (npf_endpoints document) p3 = Ok p4"
    and "add_all (add_credential_decl cel) (npf_credentials document) p4 = Ok p5"
    and "add_all (\<lambda>(i, decl). add_rule_decl cel decl i) (enumerate 0 (npf_rules document)) p5 = Ok p6"
    and "p = sort_rules p6"
proof -
  from assms obtain p1 p2 p3 p4 p5 p6 where
    p1: "compile_settings document (new_policy\<lparr>gp_metadata := npf_metadata document\<rparr>) = Ok p1" and
    p2: "compile_tailscale (npf_tailscale document) p1 = Ok p2" and
    p3: "compile_forwards p2 (npf_forwards document) = Ok p3" and
    rest: "add_all (add_endpoint_decl net parse_prefix) (npf_endpoints document) p3 = Ok p4"
      "add_all (add_credential_decl cel) (npf_credentials document) p4 = Ok p5"
      "add_all (\<lambda>(i, decl). add_rule_decl cel decl i) (enumerate 0 (npf_rules document)) p5 = Ok p6"
      "p = sort_rules p6"
    unfolding compile_network_policy_def Let_def by (auto split: if_splits)
  show ?thesis
    using that [OF _ _ _ rest] compile_settings_blank [OF p1 blank_new_policy] compile_tailscale_blank [OF p2]
      compile_forwards_blank [OF p3] by auto
qed

lemma compile_network_policy_ok:
  assumes "compile_network_policy net parse_prefix cel filename document = Ok p"
  shows "compiled_ok document p"
proof -
  obtain p3 p4 p5 p6 where blank: "blank p3" and forwards: "forwards_ok p3"
    and action: "gp_default_action p3 = ''allow'' \<or> gp_default_action p3 = ''deny''"
    and p4: "add_all (add_endpoint_decl net parse_prefix) (npf_endpoints document) p3 = Ok p4"
    and p5: "add_all (add_credential_decl cel) (npf_credentials document) p4 = Ok p5"
    and p6: "add_all (\<lambda>(i, decl). add_rule_decl cel decl i) (enumerate 0 (npf_rules document)) p5 = Ok p6"
    and p: "p = sort_rules p6"
    using compile_phases [OF assms] .
  have start: "endpoints_inv [] p3"
    using blank by (simp add: blank_def endpoints_inv_def tables_ok_def table_ok_def)
  have empty: "gp_credentials p3 = []" "gp_credential_refs_by_name p3 = []"
      "gp_credentials_by_endpoint p3 = []" "gp_rules_by_family p3 = []"
    using blank by (simp_all add: blank_def)
  have ep: "endpoints_inv (npf_endpoints document) p4" and outside: "same_outside_endpoints p3 p4"
    using ep.all_inv [of p3 p3, OF _ p4] start by (auto simp: same_outside_endpoints_def)
  have "credentials_inv [] p4"
    using outside empty
    by (simp add: same_outside_endpoints_def credentials_inv_def credential_names_def credential_table_def
        credential_index_def)
  then have cr: "credentials_inv (npf_credentials document) p5" and same: "same_endpoints p4 p5"
    and no_rules: "gp_rules_by_family p5 = []"
    using cr.all_inv [of p4 "npf_endpoints document" p4, OF _ p5] ep outside empty
    by (auto simp: same_endpoints_def same_outside_endpoints_def)
  have "rules_inv [] p5" using no_rules by (simp add: rules_inv_def rule_lists_ok_def)
  then have ru: "rules_inv (enumerate 0 (npf_rules document)) p6"
    and cr': "credentials_inv (npf_credentials document) p6" and same': "same_endpoints p4 p6"
    using ru.all_inv [of p5 "npf_credentials document" "npf_endpoints document" p4, OF _ p6] cr ep same
    by auto
  have sorted: "sorted_wrt (<) (map fst (enumerate 0 (npf_rules document)))" by simp
  have same'': "same_endpoints p4 p" using same' by (simp add: p sort_rules_def same_endpoints_def)
  have "forwards_ok p" "gp_default_action p = gp_default_action p3"
    using forwards same'' outside
    by (simp_all add: forwards_ok_def same_endpoints_def same_outside_endpoints_def)
  moreover have "credentials_inv (npf_credentials document) p"
    using cr' by (simp add: p sort_rules_def credentials_inv_def credential_table_def credential_bound_def)
  ultimately show ?thesis
    using action endpoints_inv_cong [OF ep same''] sort_rules_inv [OF ru sorted]
    by (simp add: compiled_ok_def p)
qed

text \<open>
  Claim C2. Whatever the libraries answer, a policy that the compiler accepts is well formed: the
  default action and every verdict are allow or deny; endpoint and credential names are unique and
  resolve to an entry of the table of their kind; every exact host binding is owned by the endpoint
  that declares it; credentials are bound to https endpoints; the rules of a family refer to endpoints
  of that family only, use tunnels on IP allow rules only, name credentials of their own endpoints
  only, are exactly the enabled declarations of the document, and are sorted by descending priority
  and then by position; forwards have distinct names and distinct ports other than 22.
\<close>

theorem compiled_policy_well_formed:
  assumes "compile_network_policy net parse_prefix cel filename document = Ok p"
  shows "compiled_ok document p"
  using assms by (rule compile_network_policy_ok)

end
