(* ===== verification/Netd_Safety.thy ===== *)
theory Netd_Safety
  imports Netd_Eval Netd_Invariant
begin

text \<open>
  What enforcement guarantees for a compiled policy: which rule decides a flow, when a credential
  leaves the proxy, what a deny-by-default policy lets through, and that routing a host does not
  depend on the order in which Go ranges over a map.
\<close>

section \<open>Flows\<close>

definition flow_applies :: "go_net \<Rightarrow> 'p netd_policy \<Rightarrow> flow \<Rightarrow> 'p netd_rule \<Rightarrow> bool" where
  "flow_applies net p f r \<longleftrightarrow>
     (rl_tunnel r = None \<or> fl_tailnet_destination f) \<and> match_ip_rule net p r f \<noteq> None"

definition ip_name_matches :: "go_net \<Rightarrow> 'p netd_policy \<Rightarrow> flow \<Rightarrow> string \<Rightarrow> bool" where
  "ip_name_matches net p f name \<longleftrightarrow>
     (\<exists>r e. bt_get name (gp_endpoint_refs_by_name p) = Some r \<and>
        bt_get (ref_string r) (gp_ip_endpoints p) = Some e \<and> ip_endpoint_match net e f \<noteq> None)"

text \<open>The declarations that speak about a flow.\<close>

definition flow_candidate ::
  "go_net \<Rightarrow> 'p netd_policy \<Rightarrow> network_policy_file \<Rightarrow> flow \<Rightarrow> nat \<Rightarrow> netd_rule_decl \<Rightarrow> bool" where
  "flow_candidate net p document f i decl \<longleftrightarrow>
     i < length (npf_rules document) \<and> decl = npf_rules document ! i \<and> \<not> nrd_disabled decl \<and>
     (nrd_tunnel decl = [] \<or> fl_tailnet_destination f) \<and>
     (\<exists>name\<in>set (nrd_endpoints decl). ip_name_matches net p f name)"

lemma flow_rules_None: "flow_rules net p f rs = None \<longleftrightarrow> (\<forall>r\<in>set rs. \<not> flow_applies net p f r)"
  by (induction rs) (auto simp: flow_applies_def split: option.splits)

lemma flow_rules_Some:
  assumes "flow_rules net p f rs = Some d"
  obtains before r after where "rs = before @ r # after" and "\<forall>s\<in>set before. \<not> flow_applies net p f s"
    and "flow_applies net p f r" and "de_action d = rl_verdict r" and "de_source d = SourceRule"
    and "de_rule_name d = rl_name r" and "de_reason d = rl_reason r" and "de_tunnel d = rl_tunnel r"
  using assms
proof (induction rs arbitrary: thesis)
  case (Cons r rs)
  show ?case
  proof (cases "flow_applies net p f r")
    case True
    then show ?thesis using Cons.prems(2)
      by (intro Cons.prems(1) [of "[]" r rs]) (auto simp: flow_applies_def split: option.splits if_splits)
  next
    case False
    then have rest: "flow_rules net p f rs = Some d"
      using Cons.prems(2) by (auto simp: flow_applies_def split: option.splits if_splits)
    obtain before s after where "rs = before @ s # after" "\<forall>x\<in>set before. \<not> flow_applies net p f x"
      "flow_applies net p f s" "de_action d = rl_verdict s" "de_source d = SourceRule"
      "de_rule_name d = rl_name s" "de_reason d = rl_reason s" "de_tunnel d = rl_tunnel s"
      using Cons.IH [OF _ rest] by metis
    then show ?thesis using False by (intro Cons.prems(1) [of "r # before" s after]) auto
  qed
qed simp

lemma match_ip_refs_iff:
  "match_ip_refs net p f refs \<noteq> None \<longleftrightarrow>
     (\<exists>r\<in>set refs. \<exists>e. bt_get (ref_string r) (gp_ip_endpoints p) = Some e \<and> ip_endpoint_match net e f \<noteq> None)"
  by (induction refs) (auto split: option.splits)

lemma rule_from_names:
  assumes "rule_from p decl r"
  shows "match_ip_rule net p r f \<noteq> None \<longleftrightarrow> (\<exists>name\<in>set (nrd_endpoints decl). ip_name_matches net p f name)"
proof -
  have "Some ` set (rl_endpoints r) = (\<lambda>n. bt_get n (gp_endpoint_refs_by_name p)) ` set (nrd_endpoints decl)"
    using assms unfolding rule_from_def by (metis set_map)
  then have "e \<in> set (rl_endpoints r) \<longleftrightarrow>
      (\<exists>n\<in>set (nrd_endpoints decl). bt_get n (gp_endpoint_refs_by_name p) = Some e)" for e
    by (metis (no_types, lifting) image_iff option.inject)
  then show ?thesis unfolding match_ip_rule_def match_ip_refs_iff ip_name_matches_def by blast
qed

lemma rule_from_tunnel: "rule_from p decl r \<Longrightarrow> rl_tunnel r = None \<longleftrightarrow> nrd_tunnel decl = []"
  by (auto simp: rule_from_def split: if_splits)

lemma flow_applies_from:
  assumes "rule_from p decl r"
  shows "flow_applies net p f r \<longleftrightarrow> (nrd_tunnel decl = [] \<or> fl_tailnet_destination f) \<and>
    (\<exists>name\<in>set (nrd_endpoints decl). ip_name_matches net p f name)"
  unfolding flow_applies_def rule_from_names [OF assms] rule_from_tunnel [OF assms] ..

lemma family_rules_mem:
  "r \<in> set (family_rules p family) \<longleftrightarrow> (\<exists>rs. bt_get family (gp_rules_by_family p) = Some rs \<and> r \<in> set rs)"
  by (cases "bt_get family (gp_rules_by_family p)") (auto simp: family_rules_def)

lemma enumerate_mem: "(i, x) \<in> set (enumerate 0 xs) \<longleftrightarrow> i < length xs \<and> x = xs ! i"
  by (auto simp: in_set_enumerate_eq)

lemma compiled_rule:
  assumes "compiled_ok document p" and "r \<in> set (family_rules p family)"
  shows "rule_ok p family r" and "\<not> rl_disabled r" and "rl_order r < length (npf_rules document)"
    and "rule_from p (npf_rules document ! rl_order r) r"
  using assms unfolding compiled_ok_def rule_lists_ok_def family_rules_mem enumerate_mem by blast+

lemma compiled_decl:
  assumes "compiled_ok document p" and "i < length (npf_rules document)"
    and "\<not> nrd_disabled (npf_rules document ! i)"
  obtains family r where "r \<in> set (family_rules p family)" and "rl_order r = i"
    and "rule_from p (npf_rules document ! i) r"
  using assms unfolding compiled_ok_def rule_lists_ok_def family_rules_mem enumerate_mem by blast

lemma ip_rule_family:
  assumes ok: "compiled_ok document p" and r: "r \<in> set (family_rules p family)"
    and "flow_applies net p f r"
  shows "family = ''ip''"
proof -
  obtain e ip where e: "e \<in> set (rl_endpoints r)" "bt_get (ref_string e) (gp_ip_endpoints p) = Some ip"
    using assms(3) unfolding flow_applies_def match_ip_rule_def match_ip_refs_iff by blast
  have "tables_ok p" using ok by (simp add: compiled_ok_def endpoints_inv_def)
  then have key: "ref_string e = ''ip'' @ ''.'' @ ie_name ip" using e(2) by (auto simp: tables_ok_def)
  obtain d where d: "bt_get (rf_kind e) (ng_endpoints builtin_registry) = Some d" "nd_family d = family"
    using compiled_rule(1) [OF ok r] e(1) by (auto simp: rule_ok_def)
  have "rf_kind e = ''ip''"
    using key builtin_kinds [OF d(1)] dotted_inject [of "rf_kind e" "''ip''"] by (auto simp: ref_string_def)
  then show ?thesis using builtin_kinds [OF d(1)] d(2) by auto
qed

lemma flow_candidate_iff:
  assumes ok: "compiled_ok document p"
  shows "flow_candidate net p document f i decl \<longleftrightarrow>
    (\<exists>r\<in>set (family_rules p ''ip''). rl_order r = i \<and> flow_applies net p f r \<and> decl = npf_rules document ! i \<and>
       rule_from p decl r)"
proof
  assume c: "flow_candidate net p document f i decl"
  then have i: "i < length (npf_rules document)" "\<not> nrd_disabled (npf_rules document ! i)"
    by (auto simp: flow_candidate_def)
  obtain family r where r: "r \<in> set (family_rules p family)" "rl_order r = i"
    "rule_from p (npf_rules document ! i) r"
    using compiled_decl [OF ok i] .
  moreover have "flow_applies net p f r"
    using c flow_applies_from [OF r(3)] by (auto simp: flow_candidate_def)
  ultimately show "\<exists>r\<in>set (family_rules p ''ip''). rl_order r = i \<and> flow_applies net p f r \<and>
      decl = npf_rules document ! i \<and> rule_from p decl r"
    using ip_rule_family [OF ok r(1)] c by (auto simp: flow_candidate_def)
next
  assume "\<exists>r\<in>set (family_rules p ''ip''). rl_order r = i \<and> flow_applies net p f r \<and>
      decl = npf_rules document ! i \<and> rule_from p decl r"
  then obtain r where r: "r \<in> set (family_rules p ''ip'')" "rl_order r = i" "flow_applies net p f r"
    "decl = npf_rules document ! i" "rule_from p decl r" by blast
  then show "flow_candidate net p document f i decl"
    using compiled_rule [OF ok r(1)] flow_applies_from [OF r(5)]
    by (auto simp: flow_candidate_def rule_from_def)
qed

text \<open>
  Claim C4. A flow is decided by the document alone: among the enabled rule declarations whose
  endpoints match the flow (tunnel rules only for tailnet destinations), the one with the highest
  priority decides, and the earliest of these when priorities are equal; the decision carries its verdict, name,
  reason and tunnel. If no declaration matches, the default action decides.
\<close>

theorem flow_decided_by_best_rule:
  assumes "compile_network_policy net parse_prefix cel filename document = Ok p"
  shows "let d = evaluate_flow net (Some p) f in
    (\<exists>i decl. flow_candidate net p document f i decl \<and>
       (\<forall>j other. flow_candidate net p document f j other \<and> j \<noteq> i \<longrightarrow>
          nrd_priority other < nrd_priority decl \<or> nrd_priority other = nrd_priority decl \<and> i < j) \<and>
       de_source d = SourceRule \<and> de_action d = nrd_verdict decl \<and> de_rule_name d = nrd_name decl \<and>
       de_reason d = nrd_reason decl \<and> (de_tunnel d = None \<longleftrightarrow> nrd_tunnel decl = [])) \<or>
    ((\<nexists>i decl. flow_candidate net p document f i decl) \<and>
       de_source d = SourceDefault \<and> de_action d = gp_default_action p \<and> de_tunnel d = None)"
proof (cases "flow_rules net p f (family_rules p ''ip'')")
  case None
  have ok: "compiled_ok document p" using assms by (rule compile_network_policy_ok)
  have "\<nexists>i decl. flow_candidate net p document f i decl"
    using None unfolding flow_rules_None flow_candidate_iff [OF ok] by blast
  then show ?thesis by (simp add: evaluate_flow_def None zero_decision_def)
next
  case (Some d)
  have ok: "compiled_ok document p" using assms by (rule compile_network_policy_ok)
  obtain before r after where rs: "family_rules p ''ip'' = before @ r # after"
    and none: "\<forall>s\<in>set before. \<not> flow_applies net p f s" and r: "flow_applies net p f r"
    and d: "de_action d = rl_verdict r" "de_source d = SourceRule" "de_rule_name d = rl_name r"
      "de_reason d = rl_reason r" "de_tunnel d = rl_tunnel r"
    using flow_rules_Some [OF Some] .
  define decl where "decl = npf_rules document ! rl_order r"
  have mem: "r \<in> set (family_rules p ''ip'')" by (simp add: rs)
  note from_decl = compiled_rule(4) [OF ok mem, folded decl_def]
  have "flow_candidate net p document f (rl_order r) decl"
    unfolding flow_candidate_iff [OF ok] using mem r from_decl decl_def by blast
  moreover have "nrd_priority other < nrd_priority decl \<or>
      nrd_priority other = nrd_priority decl \<and> rl_order r < j"
    if other: "flow_candidate net p document f j other" "j \<noteq> rl_order r" for j other
  proof -
    obtain s where s: "s \<in> set (family_rules p ''ip'')" "rl_order s = j" "flow_applies net p f s"
      "rule_from p other s"
      using other(1) unfolding flow_candidate_iff [OF ok] by blast
    then have "s \<in> set after" using none other(2) by (auto simp: rs)
    moreover have "sorted_wrt rule_before (before @ r # after)"
      using ok by (simp add: compiled_ok_def flip: rs)
    ultimately have "rule_before r s" by (simp add: sorted_wrt_append)
    then show ?thesis using s(2,4) from_decl by (auto simp: rule_before_def rule_from_def)
  qed
  ultimately show ?thesis
    using d from_decl rule_from_tunnel [OF from_decl]
    by (auto simp: evaluate_flow_def Some Let_def rule_from_def intro!: exI [of _ "rl_order r"] exI [of _ decl])
qed

section \<open>Hosts\<close>

lemma scan_bindings_Some:
  assumes "scan_bindings a bs best = Some e"
  shows "(\<exists>b. (e, b) \<in> set bs \<and> binding_matches b a) \<or> (\<exists>n. best = Some (e, n))"
  using assms
proof (induction a bs best rule: scan_bindings.induct)
  case (2 a x b rest best)
  show ?case
  proof (cases "binding_matches b a \<and> bi_wildcard b")
    case True
    then show ?thesis using 2 by (auto split: option.splits if_splits)
  qed (use 2 in \<open>auto split: if_splits\<close>)
qed auto

lemma http_family_endpoints_cases:
  assumes "(key, e) \<in> set (http_family_endpoints p kind)"
  shows "(key, e) \<in> set (gp_http_endpoints p) \<union> set (gp_https_endpoints p) \<union> set (gp_package_endpoints p)"
proof -
  have "set (fold (\<lambda>(key, e). bt_insert key e) es m) \<subseteq> set es \<union> set m"
    for es m :: "(string, http_endpoint) btree"
    using bt_insert_subset by (induction es arbitrary: m) fastforce+
  then show ?thesis
    using assms by (auto simp: http_family_endpoints_def split: option.splits if_splits)
qed

lemma http_endpoint_filed:
  assumes "tables_ok p" and "(key, e) \<in> set (http_family_endpoints p kind)"
  shows "key = ref_string (endpoint_ref e)" and "bt_get (he_kind e) (ng_endpoints builtin_registry) \<noteq> None"
proof -
  obtain table transport where "table_ok (gp_exact_http_bindings p) transport table" "(key, e) \<in> set table"
    using http_family_endpoints_cases [OF assms(2)] assms(1) by (auto simp: tables_ok_def)
  then show "key = ref_string (endpoint_ref e)" "bt_get (he_kind e) (ng_endpoints builtin_registry) \<noteq> None"
    by (auto simp: table_ok_def bt_mem_iff)
qed

text \<open>A host is routed to an endpoint of the table that has a matching binding.\<close>

definition routed ::
  "go_net \<Rightarrow> 'p netd_policy \<Rightarrow> http_request \<Rightarrow> http_endpoint \<Rightarrow> bool" where
  "routed net p request e \<longleftrightarrow>
     (\<exists>key a b. (key, e) \<in> set (http_family_endpoints p (hr_endpoint_kind request)) \<and>
        parse_authority net (hr_host request) (default_port p (hr_endpoint_kind request)) = Ok a \<and>
        b \<in> set (he_hosts e) \<and> binding_matches b a)"

lemma match_http_family_host_routed:
  assumes iter: "\<And>es. set (iter es) \<subseteq> set es"
    and "match_http_family_host net iter p (hr_endpoint_kind request) (hr_host request) = Some e"
  shows "routed net p request e"
proof -
  obtain a where a: "parse_authority net (hr_host request) (default_port p (hr_endpoint_kind request)) = Ok a"
    and scan: "scan_bindings a (bindings_of (iter (map snd
       (http_family_endpoints p (hr_endpoint_kind request))))) None = Some e"
    using assms(2)
    by (auto simp: match_http_family_host_def match_family_host_def Let_def split: if_splits sum.splits)
  obtain b where "(e, b) \<in> set (bindings_of (iter (map snd (http_family_endpoints p (hr_endpoint_kind request)))))"
    and b: "binding_matches b a"
    using scan_bindings_Some [OF scan] by auto
  then have "e \<in> set (iter (map snd (http_family_endpoints p (hr_endpoint_kind request))))"
    and h: "b \<in> set (he_hosts e)"
    by (auto simp: bindings_of_def)
  then have "e \<in> snd ` set (http_family_endpoints p (hr_endpoint_kind request))"
    using iter by fastforce
  then show ?thesis using a b h by (auto simp: routed_def)
qed

section \<open>HTTP requests\<close>

definition rule_applies :: "netd_ref \<Rightarrow> 'p netd_credential option \<Rightarrow> 'p netd_rule \<Rightarrow> bool" where
  "rule_applies e credential r \<longleftrightarrow> rule_references r e \<and> credential_applies credential r"

lemma http_rules_Some:
  assumes "http_rules net cel context e credential base rs = Some d"
  obtains before r after where "rs = before @ r # after"
    and "\<forall>s\<in>set before. rule_applies e credential s \<longrightarrow> evaluate_condition net cel context (rl_condition s) = Ok False"
    and "rule_applies e credential r"
    and "evaluate_condition net cel context (rl_condition r) = Ok True \<and>
         d = base\<lparr>de_action := rl_verdict r, de_source := SourceRule, de_rule_name := rl_name r,
               de_reason := rl_reason r,
               de_selected_credential := (if rl_verdict r = ''allow'' then credential else None)\<rparr> \<or>
         (\<exists>err. evaluate_condition net cel context (rl_condition r) = Err err) \<and>
         d = base\<lparr>de_action := ''deny'', de_source := SourceRule, de_rule_name := rl_name r,
               de_reason := ''condition_error''\<rparr>"
  using assms
proof (induction rs arbitrary: thesis)
  case (Cons r rs)
  show ?case
  proof (cases "rule_applies e credential r \<and> evaluate_condition net cel context (rl_condition r) \<noteq> Ok False")
    case True
    have "evaluate_condition net cel context (rl_condition r) = Ok True \<and>
         d = base\<lparr>de_action := rl_verdict r, de_source := SourceRule, de_rule_name := rl_name r,
               de_reason := rl_reason r,
               de_selected_credential := (if rl_verdict r = ''allow'' then credential else None)\<rparr> \<or>
         (\<exists>err. evaluate_condition net cel context (rl_condition r) = Err err) \<and>
         d = base\<lparr>de_action := ''deny'', de_source := SourceRule, de_rule_name := rl_name r,
               de_reason := ''condition_error''\<rparr>"
      using True Cons.prems(2)
      by (cases "evaluate_condition net cel context (rl_condition r)")
        (auto simp: rule_applies_def split: bool.splits)
    with True show ?thesis by (intro Cons.prems(1) [of "[]" r rs]) auto
  next
    case False
    then have rest: "http_rules net cel context e credential base rs = Some d"
      using Cons.prems(2) by (auto simp: rule_applies_def split: if_splits)
    show ?thesis
      by (rule Cons.IH [OF _ rest])
        (use False in \<open>auto intro!: Cons.prems(1) [of "r # _"]\<close>)
  qed
qed simp

lemma http_rules_None:
  "http_rules net cel context e credential base rs = None \<longleftrightarrow>
     (\<forall>r\<in>set rs. rule_applies e credential r \<longrightarrow> evaluate_condition net cel context (rl_condition r) = Ok False)"
  by (induction rs) (auto simp: rule_applies_def split: sum.splits bool.splits)

lemma select_credential_Some:
  "select_credential net cel context (Some s) ks = Ok c \<Longrightarrow>
     c = Some s \<and> (\<forall>k\<in>set ks. evaluate_condition net cel context (nk_condition k) = Ok False)"
  by (induction ks) (auto split: sum.splits bool.splits)

lemma select_credential_Ok:
  assumes "select_credential net cel context None ks = Ok (Some k)"
  shows "k \<in> set ks \<and> evaluate_condition net cel context (nk_condition k) = Ok True \<and>
    (\<forall>k'\<in>set ks. nk_name k' \<noteq> nk_name k \<longrightarrow> evaluate_condition net cel context (nk_condition k') = Ok False)"
  using assms by (induction ks) (auto dest: select_credential_Some split: sum.splits bool.splits)

definition http_evaluation ::
  "go_net \<Rightarrow> 'p netd_policy \<Rightarrow> http_request \<Rightarrow> http_endpoint \<Rightarrow> (go_error, activation) result" where
  "http_evaluation net p request e = http_context net p (request\<lparr>hr_endpoint_kind := he_kind e\<rparr>)"

lemma http_rules_source:
  "http_rules net cel context e credential base rs = Some d \<Longrightarrow> de_source d = SourceRule"
  by (erule http_rules_Some) auto

text \<open>Every way to decide a request: no host, no endpoint, a credential problem, a rule, the default.\<close>

lemma evaluate_http_cases:
  obtains (default) "de_source (evaluate_http net cel iter (Some p) request) = SourceDefault"
      and "de_selected_credential (evaluate_http net cel iter (Some p) request) = None"
      and "de_action (evaluate_http net cel iter (Some p) request) \<in> {''deny'', gp_default_action p}"
  | (rule) e credential where
      "match_http_family_host net iter p (hr_endpoint_kind request) (hr_host request) = Some e"
      and "selected_credential net cel p (http_evaluation net p request e) (endpoint_ref e) = Ok credential"
      and "http_rules net cel (http_evaluation net p request e) (endpoint_ref e) credential
             (request_decision p (request\<lparr>hr_endpoint_kind := he_kind e\<rparr>) (Some e)) (family_rules p ''http'')
           = Some (evaluate_http net cel iter (Some p) request)"
proof (cases "parse_authority net (hr_host request) (default_port p (hr_endpoint_kind request))")
  case (Inl err)
  then show ?thesis
    by (intro default) (simp_all add: evaluate_http_def request_decision_def zero_decision_def)
next
  case parsed: (Inr a)
  show ?thesis
  proof (cases "match_http_family_host net iter p (hr_endpoint_kind request) (hr_host request)")
    case None
    with parsed show ?thesis
      by (intro default) (simp_all add: evaluate_http_def request_decision_def zero_decision_def)
  next
    case e: (Some e)
    let ?base = "request_decision p (request\<lparr>hr_endpoint_kind := he_kind e\<rparr>) (Some e)"
    note eval = evaluate_http_def Let_def http_evaluation_def [symmetric]
    show ?thesis
    proof (cases "selected_credential net cel p (http_evaluation net p request e) (endpoint_ref e)")
      case (Inl reason)
      with parsed e show ?thesis
        by (intro default) (simp_all add: eval request_decision_def zero_decision_def)
    next
      case credential: (Inr credential)
      show ?thesis
      proof (cases "http_rules net cel (http_evaluation net p request e) (endpoint_ref e) credential
          ?base (family_rules p ''http'')")
        case None
        with parsed e credential show ?thesis
          by (intro default) (simp_all add: eval request_decision_def zero_decision_def)
      next
        case (Some d)
        with parsed e credential show ?thesis by (intro rule) (simp_all add: eval)
      qed
    qed
  qed
qed

lemma bound_credential_endpoint:
  assumes ok: "compiled_ok document p" and routed: "routed net p request e"
    and k: "k \<in> set (bound_credentials p (endpoint_ref e))"
  shows "nk_endpoint k = endpoint_ref e" and "he_kind e = ''https''"
proof -
  have cr: "credentials_inv (npf_credentials document) p" and tables: "tables_ok p"
    using ok by (auto simp: compiled_ok_def endpoints_inv_def)
  have "bt_get (ref_string (credential_ref k)) (gp_credentials p) = Some k"
    using bound_credentials_cases(1) [OF cr k] .
  then have https: "rf_kind (nk_endpoint k) = ''https''"
    using cr unfolding credentials_inv_def credential_table_def credential_bound_def by blast
  obtain d where d: "bt_get (he_kind e) (ng_endpoints builtin_registry) = Some d"
    using http_endpoint_filed(2) [OF tables] routed by (fastforce simp: routed_def)
  have "\<exists>d. bt_get ''https'' (ng_endpoints builtin_registry) = Some d"
    by (simp add: builtin_registry_def bt_get_from netd_builtin_endpoints_def)
  then show same: "nk_endpoint k = endpoint_ref e"
    using ref_string_inject [of "nk_endpoint k" _ "endpoint_ref e" d]
      bound_credentials_cases(2) [OF cr k] d https by (auto simp: endpoint_ref_def)
  show "he_kind e = ''https''" using https by (simp add: same endpoint_ref_def)
qed


section \<open>Package requests\<close>

lemma action_rules_Some:
  assumes "action_rules net cel context e base rs = Some d" and "de_action d = ''allow''"
  obtains before r after where "rs = before @ r # after"
    and "\<forall>s\<in>set before. rule_references s e \<and> rl_credential s = None \<longrightarrow>
           evaluate_condition net cel context (rl_condition s) = Ok False"
    and "rule_references r e" and "rl_credential r = None" and "rl_verdict r = ''allow''"
    and "evaluate_condition net cel context (rl_condition r) = Ok True" and "de_rule_name d = rl_name r"
  using assms
proof (induction rs arbitrary: thesis)
  case (Cons r rs)
  show ?case
  proof (cases "rule_references r e \<and> rl_credential r = None \<and>
      evaluate_condition net cel context (rl_condition r) \<noteq> Ok False")
    case True
    then have "evaluate_condition net cel context (rl_condition r) = Ok True \<and> rl_verdict r = ''allow'' \<and>
        de_rule_name d = rl_name r"
      using Cons.prems(2,3)
      by (cases "evaluate_condition net cel context (rl_condition r)") (auto split: bool.splits)
    with True show ?thesis by (intro Cons.prems(1) [of "[]" r rs]) auto
  next
    case False
    then have rest: "action_rules net cel context e base rs = Some d"
      using Cons.prems(2) by (auto split: if_splits)
    show ?thesis
      by (rule Cons.IH [OF _ rest Cons.prems(3)]) (use False in \<open>auto intro!: Cons.prems(1) [of "r # _"]\<close>)
  qed
qed simp

lemma rule_before_asym: "rule_before r s \<Longrightarrow> \<not> rule_before s r"
  by (auto simp: rule_before_def)

lemma first_in_order:
  assumes ok: "compiled_ok document p" and rs: "family_rules p family = before @ r # after"
    and before: "\<forall>s\<in>set before. P s" and s: "s \<in> set (family_rules p family)" "rule_before s r"
  shows "P s"
proof -
  have "sorted_wrt rule_before (family_rules p family)"
    using ok unfolding compiled_ok_def by blast
  then have "\<forall>x\<in>set after. rule_before r x" unfolding rs sorted_wrt_append by simp
  then have "s \<notin> set after" "s \<noteq> r" using s(2) rule_before_asym by blast+
  then show ?thesis using before s(1) unfolding rs by simp
qed

text \<open>
  A rule grants a request: an enabled allow declaration that applies, whose condition holds, while
  every applicable rule of higher rank has a condition that is false and did not fail.
\<close>

definition granted_by ::
  "network_policy_file \<Rightarrow> 'p netd_policy \<Rightarrow> string \<Rightarrow> ('p netd_rule \<Rightarrow> bool)
     \<Rightarrow> ('p netd_rule \<Rightarrow> (go_error, bool) result) \<Rightarrow> bool" where
  "granted_by document p family applies holds \<longleftrightarrow>
     (\<exists>r\<in>set (family_rules p family).
        rule_from p (npf_rules document ! rl_order r) r \<and>
        \<not> nrd_disabled (npf_rules document ! rl_order r) \<and>
        nrd_verdict (npf_rules document ! rl_order r) = ''allow'' \<and> applies r \<and> holds r = Ok True \<and>
        (\<forall>s\<in>set (family_rules p family). rule_before s r \<and> applies s \<longrightarrow> holds s = Ok False))"

lemma granted_byI:
  assumes ok: "compiled_ok document p" and rs: "family_rules p family = before @ r # after"
    and before: "\<forall>s\<in>set before. applies s \<longrightarrow> holds s = Ok False"
    and r: "applies r" "holds r = Ok True" "rl_verdict r = ''allow''"
  shows "granted_by document p family applies holds"
proof -
  have mem: "r \<in> set (family_rules p family)" by (simp add: rs)
  have "rule_from p (npf_rules document ! rl_order r) r" "\<not> nrd_disabled (npf_rules document ! rl_order r)"
      "nrd_verdict (npf_rules document ! rl_order r) = ''allow''"
    using compiled_rule [OF ok mem] r(3) by (simp_all add: rule_from_def)
  then show ?thesis
    unfolding granted_by_def using mem r first_in_order [OF ok rs before] by blast
qed

lemma http_rules_allow:
  assumes "http_rules net cel context e credential base rs = Some d" and "de_action d = ''allow''"
  obtains before r after where "rs = before @ r # after"
    and "\<forall>s\<in>set before. rule_applies e credential s \<longrightarrow> evaluate_condition net cel context (rl_condition s) = Ok False"
    and "rule_applies e credential r" and "evaluate_condition net cel context (rl_condition r) = Ok True"
    and "rl_verdict r = ''allow''"
  by (rule http_rules_Some [OF assms(1)]) (use that assms(2) in auto)

definition package_evaluation ::
  "go_net \<Rightarrow> 'p netd_policy \<Rightarrow> netd_endpoint_definition \<Rightarrow> package_request \<Rightarrow> (go_error, activation) result"
where
  "package_evaluation net p d request =
     build_facet_activation (gp_registry p) (nd_family d)
       [(''http'', http_facet (gn_to_upper net (pq_method request)) (pq_host request)
           (pq_path request) (pq_query request) (pq_headers request)),
        (''package'', package_facet (pq_package request))]"

lemma evaluate_package_action:
  assumes "de_action (evaluate_package net cel (Some p) endpoint package) = ''allow''"
    and "gp_default_action p = ''deny''"
  obtains d base x where
    "bt_get (ref_string endpoint) (gp_endpoint_definitions p) = Some d"
    and "action_rules net cel (package_evaluation net p d package) endpoint base
           (family_rules p (nd_family d)) = Some x"
    and "de_action x = ''allow''"
  using assms
  by (auto simp: evaluate_package_def evaluate_action_def Let_def zero_decision_def
      package_evaluation_def [symmetric] split: option.splits)


section \<open>The endpoint of a host\<close>

text \<open>
  The most specific binding: an exact one, otherwise a wildcard that no matching binding is longer
  than, when no exact one matches.
\<close>

definition most_specific :: "authority \<Rightarrow> (http_endpoint \<times> binding) set \<Rightarrow> http_endpoint \<Rightarrow> bool" where
  "most_specific a bs e \<longleftrightarrow>
     (\<exists>b. (e, b) \<in> bs \<and> binding_matches b a \<and>
        (bi_wildcard b \<longrightarrow> (\<forall>e' b'. (e', b') \<in> bs \<and> binding_matches b' a \<longrightarrow>
           bi_wildcard b' \<and> length (bi_host b') \<le> length (bi_host b))))"

lemma scan_bindings_None:
  "scan_bindings a bs best = None \<longleftrightarrow> best = None \<and> (\<forall>(e, b)\<in>set bs. \<not> binding_matches b a)"
  by (induction a bs best rule: scan_bindings.induct) (auto split: option.splits)

text \<open>The bindings seen so far have no exact match, and \<open>best\<close> is the first of the longest wildcards.\<close>

definition tracks :: "authority \<Rightarrow> (http_endpoint \<times> binding) set \<Rightarrow> (http_endpoint \<times> nat) option \<Rightarrow> bool" where
  "tracks a seen best \<longleftrightarrow>
     (case best of
        None \<Rightarrow> \<forall>(e, b)\<in>seen. \<not> binding_matches b a
      | Some (e, n) \<Rightarrow>
          (\<exists>b. (e, b) \<in> seen \<and> binding_matches b a \<and> bi_wildcard b \<and> n = length (bi_host b)) \<and>
          (\<forall>(e', b')\<in>seen. binding_matches b' a \<longrightarrow> bi_wildcard b' \<and> length (bi_host b') \<le> n))"

lemma tracks_step:
  assumes "tracks a seen best" and "binding_matches b a" and "bi_wildcard b"
  shows "tracks a (insert (e, b) seen)
    (case best of
       None \<Rightarrow> Some (e, length (bi_host b))
     | Some (e', n) \<Rightarrow> if length (bi_host b) > n then Some (e, length (bi_host b)) else Some (e', n))"
  using assms by (cases best) (force simp: tracks_def)+

lemma scan_bindings_best:
  assumes "tracks a seen best" and "scan_bindings a bs best = Some e"
  shows "most_specific a (seen \<union> set bs) e"
  using assms
proof (induction a bs best arbitrary: seen rule: scan_bindings.induct)
  case (1 a best)
  then show ?case by (force simp: tracks_def most_specific_def)
next
  case (2 a x b rest best)
  consider (skip) "\<not> binding_matches b a" | (exact) "binding_matches b a" "\<not> bi_wildcard b"
    | (wild) "binding_matches b a" "bi_wildcard b" by blast
  then show ?case
  proof cases
    case skip
    then have "tracks a (insert (x, b) seen) best"
      using "2.prems"(1) by (auto simp: tracks_def split: option.splits)
    then show ?thesis using 2 skip by (metis Un_insert_left Un_insert_right list.simps(15) scan_bindings.simps(2))
  next
    case exact
    then show ?thesis using 2 by (auto simp: most_specific_def)
  next
    case wild
    have "most_specific a (insert (x, b) seen \<union> set rest) e"
      by (rule "2.IH"(2) [OF _ _ tracks_step [OF "2.prems"(1) wild, of x]])
        (use wild "2.prems"(2) in simp_all)
    then show ?thesis by simp
  qed
qed

lemma scan_bindings_most_specific:
  assumes "scan_bindings a bs None = Some e"
  shows "most_specific a (set bs) e"
  using scan_bindings_best [OF _ assms, of "{}"] by (simp add: tracks_def)

text \<open>No two endpoints of a table share a wildcard.\<close>

definition distinct_wildcards :: "(string, http_endpoint) btree \<Rightarrow> bool" where
  "distinct_wildcards table \<longleftrightarrow>
     (\<forall>(key, e)\<in>set table. \<forall>(key', e')\<in>set table. \<forall>b\<in>set (he_hosts e). \<forall>b'\<in>set (he_hosts e').
        bi_wildcard b \<and> bi_wildcard b' \<and> bi_host b = bi_host b' \<and> bi_port b = bi_port b' \<longrightarrow> e = e')"

lemma suffix_length_eq: "suffix xs zs \<Longrightarrow> suffix ys zs \<Longrightarrow> length xs = length ys \<Longrightarrow> xs = ys"
  by (auto simp: suffix_def)

lemma most_specific_unique:
  assumes table: "table_ok exact transport table" and wild: "distinct_wildcards table"
    and bs: "bs = {(e, b). \<exists>key. (key, e) \<in> set table \<and> b \<in> set (he_hosts e)}"
    and "most_specific a bs e" and "most_specific a bs e'"
  shows "e = e'"
proof -
  obtain b b' where b: "(e, b) \<in> bs" "binding_matches b a"
    "bi_wildcard b \<longrightarrow> bi_wildcard b' \<and> length (bi_host b') \<le> length (bi_host b)"
    and b': "(e', b') \<in> bs" "binding_matches b' a"
    "bi_wildcard b' \<longrightarrow> bi_wildcard b \<and> length (bi_host b) \<le> length (bi_host b')"
    using assms(4,5) unfolding most_specific_def by metis
  obtain key key' where key: "(key, e) \<in> set table" "b \<in> set (he_hosts e)"
    and key': "(key', e') \<in> set table" "b' \<in> set (he_hosts e')"
    using b(1) b'(1) by (auto simp: bs)
  show ?thesis
  proof (cases "bi_wildcard b")
    case True
    then have "length (bi_host b) = length (bi_host b')" "bi_wildcard b'" using b(3) b'(3) by auto
    moreover from this have "bi_host b = bi_host b'" "bi_port b = bi_port b'"
      using b(2) b'(2) True suffix_length_eq [of "''.'' @ bi_host b" "au_host a" "''.'' @ bi_host b'"]
      by (auto simp: binding_matches_def)
    ultimately show ?thesis using wild True key key' unfolding distinct_wildcards_def by blast
  next
    case False
    then have exact: "\<not> bi_wildcard b'" using b'(3) by auto
    then have "bi_host b = bi_host b'" "bi_port b = bi_port b'"
      using False b(2) b'(2) by (auto simp: binding_matches_def)
    have wf: "bt_wf table" using table by (simp add: table_ok_def)
    then have "he_transport e = transport \<and> key = ref_string (endpoint_ref e) \<and> owns_bindings exact e"
      "he_transport e' = transport \<and> key' = ref_string (endpoint_ref e') \<and> owns_bindings exact e'"
      using table key(1) key'(1) by (auto simp: table_ok_def bt_mem_iff)
    moreover from this have "endpoint_ref e = endpoint_ref e'"
      using False exact key(2) key'(2) \<open>bi_host b = bi_host b'\<close> \<open>bi_port b = bi_port b'\<close>
      by (auto simp: owns_bindings_def)
    ultimately have "key = key'" by simp
    then show ?thesis using key(1) key'(1) wf by (auto simp: bt_mem_iff)
  qed
qed

lemma builtin_table:
  assumes "tables_ok p" and "gp_registry p = builtin_registry"
    and "bt_get kind (ng_endpoints builtin_registry) \<noteq> None"
  obtains transport where "table_ok (gp_exact_http_bindings p) transport (http_family_endpoints p kind)"
proof -
  obtain d where d: "bt_get kind (ng_endpoints builtin_registry) = Some d" using assms(3) by auto
  have "table_ok exact transport []" for exact transport by (simp add: table_ok_def)
  then show ?thesis
    using assms(1,2) d
    by (intro that [of "nd_transport d"]) (auto simp: http_family_endpoints_def tables_ok_def)
qed

text \<open>
  Claim C17. Routing a host is deterministic: although the code ranges over a Go map, whose order is
  arbitrary, every order of the endpoints gives the same answer when no two endpoints of the kind
  share a wildcard, and the answer is the endpoint with the most specific matching binding: an exact
  one if there is one, otherwise the longest wildcard suffix.
\<close>

theorem routing_is_deterministic:
  assumes compiled: "compile_network_policy net parse_prefix cel filename document = Ok p"
    and kind: "bt_get kind (ng_endpoints builtin_registry) \<noteq> None"
    and wild: "distinct_wildcards (http_family_endpoints p kind)"
    and iter: "\<And>es. set (iter es) = set es"
  shows "match_family_host net iter p kind host port = match_family_host net (\<lambda>es. es) p kind host port \<and>
    (match_family_host net iter p kind host port = Some (e, a) \<longleftrightarrow>
      parse_authority net host port = Ok a \<and> au_host a \<noteq> [] \<and>
      most_specific a (set (bindings_of (map snd (http_family_endpoints p kind)))) e)"
proof -
  let ?table = "http_family_endpoints p kind"
  let ?bs = "set (bindings_of (map snd ?table))"
  have ok: "compiled_ok document p" using compiled by (rule compile_network_policy_ok)
  then have p: "tables_ok p" "gp_registry p = builtin_registry"
    by (simp_all add: compiled_ok_def endpoints_inv_def)
  obtain transport where table: "table_ok (gp_exact_http_bindings p) transport ?table"
    using builtin_table [OF p kind] .
  have bs: "set (bindings_of (it (map snd ?table))) = ?bs" if "\<And>es. set (it es) = set es" for it
    using that by (simp add: bindings_of_def)
  have bs': "?bs = {(e, b). \<exists>key. (key, e) \<in> set ?table \<and> b \<in> set (he_hosts e)}"
    by (force simp: bindings_of_def)
  have scan: "scan_bindings a (bindings_of (it (map snd ?table))) None = Some e \<longleftrightarrow> most_specific a ?bs e"
    if it: "\<And>es. set (it es) = set es" for it a e
  proof
    assume "scan_bindings a (bindings_of (it (map snd ?table))) None = Some e"
    then show "most_specific a ?bs e" using scan_bindings_most_specific bs [OF it] by metis
  next
    assume e: "most_specific a ?bs e"
    then have "scan_bindings a (bindings_of (it (map snd ?table))) None \<noteq> None"
      using bs [OF it] by (auto simp: scan_bindings_None most_specific_def)
    then obtain e' where "scan_bindings a (bindings_of (it (map snd ?table))) None = Some e'" by auto
    moreover from this have "most_specific a ?bs e'" using scan_bindings_most_specific bs [OF it] by metis
    ultimately show "scan_bindings a (bindings_of (it (map snd ?table))) None = Some e"
      using most_specific_unique [OF table wild bs' e] by simp
  qed
  have routed: "match_family_host net it p kind host port = Some (e, a) \<longleftrightarrow>
      parse_authority net host port = Ok a \<and> au_host a \<noteq> [] \<and> most_specific a ?bs e"
    if it: "\<And>es. set (it es) = set es" for it e a
    using scan [OF it]
    by (auto simp: match_family_host_def Let_def most_specific_def bindings_of_def split: sum.splits)
  then have "match_family_host net iter p kind host port = match_family_host net (\<lambda>es. es) p kind host port"
    using iter by (metis not_Some_eq surj_pair)
  then show ?thesis using routed [OF iter] by blast
qed

end
