(* ===== verification/Netd_Demo.thy ===== *)
theory Netd_Demo
  imports Netd_Safety
begin

text \<open>
  A small policy compiled and enforced with concrete parameters (a parser that splits off the scheme,
  a prefix parser with one answer, a condition language with one true program). It instantiates the
  theorems about compiled policies, and a variant of it shows that two endpoints may share a wildcard.
\<close>

section \<open>A policy\<close>

definition demo_net :: go_net where
  "demo_net =
     \<lparr>gn_url_parse = (\<lambda>s. Ok \<lparr>pu_scheme = takeWhile (\<lambda>c. c \<noteq> CHR '':'') s, pu_user = False,
                          pu_host = drop 3 (dropWhile (\<lambda>c. c \<noteq> CHR '':'') s), pu_path = [],
                          pu_raw_query = [], pu_fragment = []\<rparr>),
      gn_valid_host_header = (\<lambda>s. True), gn_parse_addr = (\<lambda>s. None), gn_to_lower = to_ascii_lowercase,
      gn_to_upper = (\<lambda>s. s), gn_parse_query = (\<lambda>s. Ok [])\<rparr>"

definition demo_prefix :: prefix_parser where
  "demo_prefix cidr = Ok \<lparr>px_addr = Addr4 0x0A000000, px_bits = 8\<rparr>"

definition demo_cel :: "(unit, string, string) go_cel" where
  "demo_cel =
     \<lparr>gl_new_env = (\<lambda>vars. Ok ()), gl_compile = (\<lambda>env s. Ok s), gl_output_is_bool = (\<lambda>ast. True),
      gl_output_type = (\<lambda>ast. ''bool''), gl_program = (\<lambda>env ast. Ok ast),
      gl_eval = (\<lambda>program act. Ok (GoBool (program = ''true'')))\<rparr>"

definition demo_endpoint :: "string \<Rightarrow> string \<Rightarrow> netd_endpoint_decl" where
  "demo_endpoint name host =
     \<lparr>ned_kind = ''https'', ned_name = name, ned_family = ''http'', ned_transport = ''https-mitm'',
      ned_tls = ''terminate'', ned_config = [], ned_egress = [], ned_capabilities = [''credential-injection''],
      ned_source_cidrs = [], ned_destination_cidrs = [], ned_protocol = [], ned_ports = [], ned_hosts = [host]\<rparr>"

definition demo_lan :: netd_endpoint_decl where
  "demo_lan =
     \<lparr>ned_kind = ''ip'', ned_name = ''lan'', ned_family = ''ip'', ned_transport = ''packet-filter'',
      ned_tls = ''none'', ned_config = [], ned_egress = [], ned_capabilities = [],
      ned_source_cidrs = [], ned_destination_cidrs = [''10.0.0.0/8''], ned_protocol = ''tcp'', ned_ports = [], ned_hosts = []\<rparr>"

definition demo_rule :: "string \<Rightarrow> string \<Rightarrow> string \<Rightarrow> int \<Rightarrow> netd_rule_decl" where
  "demo_rule name endpoint verdict priority =
     \<lparr>nrd_name = name, nrd_endpoints = [endpoint], nrd_credential = [], nrd_condition = [], nrd_tunnel = [],
      nrd_verdict = verdict, nrd_priority = priority, nrd_disabled = False, nrd_reason = []\<rparr>"

definition demo_token :: netd_credential_decl where
  "demo_token =
     \<lparr>ncd_kind = ''bearer_token'', ncd_name = ''tok'', ncd_endpoint = ''api'', ncd_username = [],
      ncd_header = [], ncd_prefix = [], ncd_idempotency_key = False, ncd_condition = []\<rparr>"

definition demo_document :: network_policy_file where
  "demo_document =
     \<lparr>npf_version = 1, npf_metadata = [], npf_default_action = ''deny'', npf_body_buffer_bytes = 0,
      npf_body_storage_bytes = 0,
      npf_endpoints = [demo_endpoint ''api'' ''api.example.com'', demo_endpoint ''web'' ''*.example.com'', demo_lan],
      npf_credentials = [demo_token],
      npf_rules = [demo_rule ''any'' ''lan'' ''allow'' 0, demo_rule ''no-lan'' ''lan'' ''deny'' 10,
                   demo_rule ''api'' ''api'' ''allow'' 0],
      npf_tailscale = [], npf_forwards = []\<rparr>"

definition demo_https :: "string \<Rightarrow> binding \<Rightarrow> http_endpoint" where
  "demo_https name b =
     \<lparr>he_kind = ''https'', he_name = name, he_family = ''http'', he_transport = ''https-mitm'',
      he_default_port = 443, he_hosts = [b]\<rparr>"

definition demo_definition :: "string \<Rightarrow> netd_endpoint_definition" where
  "demo_definition kind = the (map_of netd_builtin_endpoints kind)"

definition demo_credential :: "string netd_credential" where
  "demo_credential =
     \<lparr>nk_kind = ''bearer_token'', nk_name = ''tok'',
      nk_endpoint = \<lparr>rf_kind = ''https'', rf_name = ''api''\<rparr>, nk_username = [], nk_header = [],
      nk_prefix = [], nk_idempotency_key = False, nk_condition = None\<rparr>"

definition demo_compiled_rule :: "string \<Rightarrow> string \<Rightarrow> netd_ref \<Rightarrow> string \<Rightarrow> int \<Rightarrow> nat \<Rightarrow> string netd_rule" where
  "demo_compiled_rule name family r verdict priority order =
     \<lparr>rl_tunnel = None, rl_name = name, rl_family = family, rl_endpoints = [r], rl_credential = None,
      rl_verdict = verdict, rl_priority = priority, rl_disabled = False, rl_reason = [],
      rl_order = order, rl_condition = None\<rparr>"

definition demo_ref :: "string \<Rightarrow> string \<Rightarrow> netd_ref" where
  "demo_ref kind name = \<lparr>rf_kind = kind, rf_name = name\<rparr>"

definition demo_compiled :: "string netd_policy" where
  "demo_compiled =
     new_policy
       \<lparr>gp_default_action := ''deny'',
        gp_ip_endpoints :=
          [(''ip.lan'',
            \<lparr>ie_name = ''lan'', ie_source_prefixes = [],
             ie_destination_prefixes = [\<lparr>px_addr = Addr4 0x0A000000, px_bits = 8\<rparr>],
             ie_protocol = ''tcp'', ie_ports = []\<rparr>)],
        gp_https_endpoints :=
          [(''https.api'', demo_https ''api''
             \<lparr>bi_pattern = ''api.example.com'', bi_host = ''api.example.com'', bi_port = 443, bi_wildcard = False\<rparr>),
           (''https.web'', demo_https ''web''
             \<lparr>bi_pattern = ''*.example.com'', bi_host = ''example.com'', bi_port = 443, bi_wildcard = True\<rparr>)],
        gp_credentials := [(''bearer_token.tok'', demo_credential)],
        gp_endpoint_refs_by_name :=
          [(''api'', demo_ref ''https'' ''api''), (''lan'', demo_ref ''ip'' ''lan''),
           (''web'', demo_ref ''https'' ''web'')],
        gp_credential_refs_by_name := [(''tok'', demo_ref ''bearer_token'' ''tok'')],
        gp_credentials_by_endpoint := [(''https.api'', [demo_credential])],
        gp_exact_http_bindings := [(''https-mitm|exact|api.example.com|443'', demo_ref ''https'' ''api'')],
        gp_endpoint_definitions :=
          [(''https.api'', demo_definition ''https''), (''https.web'', demo_definition ''https''),
           (''ip.lan'', demo_definition ''ip'')],
        gp_rules_by_family :=
          [(''http'', [demo_compiled_rule ''api'' ''http'' (demo_ref ''https'' ''api'') ''allow'' 0 2]),
           (''ip'', [demo_compiled_rule ''no-lan'' ''ip'' (demo_ref ''ip'' ''lan'') ''deny'' 10 1,
                    demo_compiled_rule ''any'' ''ip'' (demo_ref ''ip'' ''lan'') ''allow'' 0 0])]\<rparr>"

lemma demo_compiles:
  "compile_network_policy demo_net demo_prefix demo_cel ''policy.json'' demo_document = Ok demo_compiled"
  by code_simp

definition demo_flow :: flow where
  "demo_flow = \<lparr>fl_tailnet_destination = False, fl_protocol = ''tcp'', fl_source_ip = [192, 168, 0, 2],
     fl_source_port = 40000, fl_dest_ip = [10, 1, 2, 3], fl_dest_port = 22\<rparr>"

definition demo_request :: http_request where
  "demo_request = \<lparr>hr_flow = demo_flow, hr_endpoint_kind = ''https'', hr_host = ''api.example.com'',
     hr_method = ''GET'', hr_path = ''/'', hr_query = [], hr_header = []\<rparr>"

lemma demo_flow_denied: "de_action (evaluate_flow demo_net (Some demo_compiled) demo_flow) = ''deny''"
  by (simp add: evaluate_flow_def demo_compiled_def family_rules_def demo_compiled_rule_def match_ip_rule_def
    demo_ref_def ref_string_def ip_endpoint_match_def matches_protocol_def demo_net_def demo_flow_def
    match_port_def prefixes_admit_def addr_from_ip_def word_rcat_def prefixes_contain_def zero_decision_def
    to_ascii_lowercase_def)

lemma demo_default: "gp_default_action demo_compiled = ''deny''"
  by code_simp

lemma demo_authority:
  "parse_authority demo_net ''api.example.com'' 443 = Ok \<lparr>au_host = ''api.example.com'', au_port = 443\<rparr>"
  by code_simp

lemma demo_tables:
  "default_port demo_compiled ''https'' = 443"
  "http_family_endpoints demo_compiled ''https'' = gp_https_endpoints demo_compiled"
  by code_simp+

lemma demo_match:
  "match_http_family_host demo_net (\<lambda>es. es) demo_compiled ''https'' ''api.example.com'' =
     Some (snd (hd (gp_https_endpoints demo_compiled)))"
  by (simp add: match_http_family_host_def match_family_host_def demo_tables demo_authority Let_def)
    (simp add: demo_compiled_def bindings_of_def demo_https_def binding_matches_def)

lemma demo_request_allowed:
  "evaluate_http demo_net demo_cel (\<lambda>es. es) (Some demo_compiled) demo_request =
    (request_decision demo_compiled demo_request (Some (snd (hd (gp_https_endpoints demo_compiled)))))
      \<lparr>de_action := ''allow'', de_source := SourceRule, de_rule_name := ''api'',
       de_selected_credential := Some demo_credential\<rparr>"
proof -
  have "demo_request\<lparr>hr_endpoint_kind := ''https''\<rparr> = demo_request" by (simp add: demo_request_def)
  moreover have "hr_host demo_request = ''api.example.com''" "hr_endpoint_kind demo_request = ''https''"
    by (simp_all add: demo_request_def)
  moreover have "he_kind (snd (hd (gp_https_endpoints demo_compiled))) = ''https''"
    "endpoint_ref (snd (hd (gp_https_endpoints demo_compiled))) = demo_ref ''https'' ''api''"
    by (simp_all add: demo_compiled_def demo_https_def endpoint_ref_def demo_ref_def)
  moreover have "selected_credential demo_net demo_cel demo_compiled ctx (demo_ref ''https'' ''api'') =
      Ok (Some demo_credential)" for ctx
    by (simp add: selected_credential_def demo_compiled_def ref_string_def demo_ref_def
        demo_credential_def evaluate_condition_def)
  moreover have "family_rules demo_compiled ''http'' =
      [demo_compiled_rule ''api'' ''http'' (demo_ref ''https'' ''api'') ''allow'' 0 2]"
    by (simp add: family_rules_def demo_compiled_def)
  ultimately show ?thesis
    by (simp add: evaluate_http_def demo_authority demo_tables demo_match Let_def
        demo_compiled_rule_def rule_references_def credential_applies_def evaluate_condition_def
        request_decision_def zero_decision_def)
qed

lemma demo_wildcards: "distinct_wildcards (http_family_endpoints demo_compiled ''https'')"
  by code_simp

section \<open>The theorems at the policy\<close>

theorem compiled_policy_well_formed_witness:
  "is_ok (compile_network_policy demo_net demo_prefix demo_cel ''policy.json'' demo_document) \<and>
   compiled_ok demo_document demo_compiled"
  using compiled_policy_well_formed [OF demo_compiles] by (simp add: demo_compiles)

theorem flow_decided_by_best_rule_witness:
  "de_action (evaluate_flow demo_net (Some demo_compiled) demo_flow) = ''deny'' \<and>
   (let d = evaluate_flow demo_net (Some demo_compiled) demo_flow in
    (\<exists>i decl. flow_candidate demo_net demo_compiled demo_document demo_flow i decl \<and>
       (\<forall>j other. flow_candidate demo_net demo_compiled demo_document demo_flow j other \<and> j \<noteq> i \<longrightarrow>
          nrd_priority other < nrd_priority decl \<or> nrd_priority other = nrd_priority decl \<and> i < j) \<and>
       de_source d = SourceRule \<and> de_action d = nrd_verdict decl \<and> de_rule_name d = nrd_name decl \<and>
       de_reason d = nrd_reason decl \<and> (de_tunnel d = None \<longleftrightarrow> nrd_tunnel decl = [])) \<or>
    ((\<nexists>i decl. flow_candidate demo_net demo_compiled demo_document demo_flow i decl) \<and>
       de_source d = SourceDefault \<and> de_action d = gp_default_action demo_compiled \<and> de_tunnel d = None))"
  using flow_decided_by_best_rule [OF demo_compiles, of demo_flow] demo_flow_denied by (rule conjI [rotated])



theorem routing_is_deterministic_witness:
  "match_family_host demo_net rev demo_compiled ''https'' ''api.example.com'' 443 =
   match_family_host demo_net (\<lambda>es. es) demo_compiled ''https'' ''api.example.com'' 443"
proof -
  have "bt_get ''https'' (ng_endpoints builtin_registry) \<noteq> None" by code_simp
  then show ?thesis
    using routing_is_deterministic [OF demo_compiles _ demo_wildcards, of rev] by simp
qed

section \<open>A shared wildcard\<close>

definition shared_document :: network_policy_file where
  "shared_document = demo_document
     \<lparr>npf_endpoints := [demo_endpoint ''a'' ''*.example.com'', demo_endpoint ''b'' ''*.example.com''],
      npf_credentials := [],
      npf_rules := [demo_rule ''open'' ''a'' ''allow'' 0, demo_rule ''shut'' ''b'' ''deny'' 10]\<rparr>"

definition shared_binding :: binding where
  "shared_binding =
     \<lparr>bi_pattern = ''*.example.com'', bi_host = ''example.com'', bi_port = 443, bi_wildcard = True\<rparr>"

definition shared_compiled :: "string netd_policy" where
  "shared_compiled =
     new_policy
       \<lparr>gp_default_action := ''deny'',
        gp_https_endpoints :=
          [(''https.a'', demo_https ''a'' shared_binding), (''https.b'', demo_https ''b'' shared_binding)],
        gp_endpoint_refs_by_name := [(''a'', demo_ref ''https'' ''a''), (''b'', demo_ref ''https'' ''b'')],
        gp_endpoint_definitions :=
          [(''https.a'', demo_definition ''https''), (''https.b'', demo_definition ''https'')],
        gp_rules_by_family :=
          [(''http'', [demo_compiled_rule ''shut'' ''http'' (demo_ref ''https'' ''b'') ''deny'' 10 1,
                      demo_compiled_rule ''open'' ''http'' (demo_ref ''https'' ''a'') ''allow'' 0 0])]\<rparr>"

lemma shared_compiles:
  "compile_network_policy demo_net demo_prefix demo_cel ''policy.json'' shared_document = Ok shared_compiled"
  by code_simp

lemma shared_tables:
  "default_port shared_compiled ''https'' = 443"
  "http_family_endpoints shared_compiled ''https'' = gp_https_endpoints shared_compiled"
  by code_simp+

lemma shared_match:
  "match_http_family_host demo_net (\<lambda>es. es) shared_compiled ''https'' ''api.example.com'' =
     Some (demo_https ''a'' shared_binding)"
  "match_http_family_host demo_net rev shared_compiled ''https'' ''api.example.com'' =
     Some (demo_https ''b'' shared_binding)"
  by (simp_all add: match_http_family_host_def match_family_host_def shared_tables demo_authority Let_def)
    (simp_all add: shared_compiled_def bindings_of_def demo_https_def binding_matches_def shared_binding_def
      suffix_def)

lemma shared_evaluation:
  assumes "match_http_family_host demo_net iter shared_compiled ''https'' ''api.example.com'' =
     Some (demo_https name shared_binding)"
  shows "de_action (evaluate_http demo_net demo_cel iter (Some shared_compiled) demo_request) =
    (if name = ''a'' then ''allow'' else ''deny'')"
proof -
  have "hr_host demo_request = ''api.example.com''" "hr_endpoint_kind demo_request = ''https''"
    by (simp_all add: demo_request_def)
  moreover have "selected_credential demo_net demo_cel shared_compiled ctx e = Ok None" for ctx e
    by (simp add: selected_credential_def shared_compiled_def new_policy_def)
  moreover have "family_rules shared_compiled ''http'' =
      [demo_compiled_rule ''shut'' ''http'' (demo_ref ''https'' ''b'') ''deny'' 10 1,
       demo_compiled_rule ''open'' ''http'' (demo_ref ''https'' ''a'') ''allow'' 0 0]"
    by (simp add: family_rules_def shared_compiled_def)
  moreover have "gp_default_action shared_compiled = ''deny''" by (simp add: shared_compiled_def)
  ultimately show ?thesis
    using assms
    by (simp add: evaluate_http_def demo_authority shared_tables Let_def endpoint_ref_def demo_https_def
        demo_compiled_rule_def rule_references_def credential_applies_def evaluate_condition_def
        request_decision_def zero_decision_def demo_ref_def)
qed


end
