(* ===== verification/Ext4_Types.thy ===== *)
theory Ext4_Types
  imports Rust_Str "HOL-Library.Monad_Syntax"
begin

text \<open>
  The on-disk structures of \<open>common/disk-image/src/ext4\<close>: the constants (\<open>constants.rs\<close>), the
  little-endian accessors and the structures with their \<open>read_from\<close> and \<open>write_to\<close>
  (\<open>types.rs\<close>), and the group descriptor checksum (\<open>checksum.rs\<close>).

  A \<open>u8\<close> slice is a list of 8-bit words. An access outside a slice panics; a function that can
  panic returns an option and \<open>None\<close> is the panic. The locale \<open>codec\<close> is the contract the
  other components rely on: a structure written to a slice fills exactly its size, leaves the rest
  alone, and reads back as itself.
\<close>

unbundle bit_operations_syntax

section \<open>Bytes and slices\<close>

type_synonym u8 = "8 word"
type_synonym u16 = "16 word"
type_synonym u32 = "32 word"
type_synonym u64 = "64 word"
type_synonym bytes = "u8 list"

named_theorems ext4_defs \<open>definitions of the accessors and structure sizes\<close>

text \<open>\<open>str::as_bytes\<close> and its inverse on the byte lists that model strings.\<close>

definition as_bytes :: "string \<Rightarrow> bytes" where
  "as_bytes s = map (\<lambda>c. word_of_nat (code c)) s"

definition of_bytes :: "bytes \<Rightarrow> string" where
  "of_bytes bs = map (\<lambda>b. char_of (unat b)) bs"

lemma length_as_bytes [simp]: "length (as_bytes s) = length s"
  by (simp add: as_bytes_def)

lemma char_of_code [simp]: "char_of (code c) = c"
  by (simp add: code_def)

lemma unat_code [simp]: "unat (word_of_nat (code c) :: u8) = code c"
  by (simp add: unat_of_nat)

lemma of_bytes_as_bytes [simp]: "of_bytes (as_bytes s) = s"
  by (simp add: of_bytes_def as_bytes_def comp_def)

lemma as_bytes_append [simp]: "as_bytes (s @ t) = as_bytes s @ as_bytes t"
  by (simp add: as_bytes_def)

text \<open>\<open>to_le_bytes\<close> and \<open>from_le_bytes\<close> of the unsigned integer types.\<close>

definition to_le_bytes :: "'a::len word \<Rightarrow> bytes" where
  "to_le_bytes w = map (\<lambda>i. ucast (drop_bit (8 * i) w)) [0..<LENGTH('a) div 8]"

definition from_le_bytes :: "bytes \<Rightarrow> 'a::len word" where
  "from_le_bytes bs = foldr (\<lambda>b w. push_bit 8 w OR ucast b) bs 0"

lemma length_to_le_bytes [simp]: "length (to_le_bytes (w :: 'a::len word)) = LENGTH('a) div 8"
  by (simp add: to_le_bytes_def)

lemma bit_from_le_bytes:
  "bit (from_le_bytes bs :: 'a::len word) i \<longleftrightarrow>
     i < LENGTH('a) \<and> i div 8 < length bs \<and> bit (bs ! (i div 8)) (i mod 8)"
proof (induction bs arbitrary: i)
  case Nil
  then show ?case by (simp add: from_le_bytes_def)
next
  case (Cons b bs)
  have step: "(from_le_bytes (b # bs) :: 'a word) = push_bit 8 (from_le_bytes bs) OR ucast b"
    by (simp add: from_le_bytes_def)
  show ?case
  proof (cases "i < 8")
    case True
    then show ?thesis by (auto simp: step bit_simps)
  next
    case False
    then obtain j where i: "i = 8 + j" by (metis le_add_diff_inverse not_less)
    have "\<not> bit b i" using False by (simp add: bit_word.rep_eq not_less impossible_bit)
    have "(8 + j) div 8 = Suc (j div 8)" by simp
    with \<open>\<not> bit b i\<close> show ?thesis
      by (auto simp: step bit_simps i Cons.IH)
  qed
qed

lemma from_to_le_bytes:
  assumes "8 dvd LENGTH('a::len)"
  shows "from_le_bytes (to_le_bytes (w :: 'a word)) = w"
proof (rule bit_word_eqI)
  fix i assume i: "i < LENGTH('a)"
  have "i div 8 < LENGTH('a) div 8" using i assms by (auto simp: dvd_def)
  then show "bit (from_le_bytes (to_le_bytes w) :: 'a word) i = bit w i"
    using i by (simp add: bit_from_le_bytes to_le_bytes_def bit_simps)
qed

lemma from_to_le_u16 [simp]: "from_le_bytes (to_le_bytes (w :: u16)) = w"
  by (rule from_to_le_bytes) simp

lemma from_to_le_u32 [simp]: "from_le_bytes (to_le_bytes (w :: u32)) = w"
  by (rule from_to_le_bytes) simp

lemma from_to_le_u64 [simp]: "from_le_bytes (to_le_bytes (w :: u64)) = w"
  by (rule from_to_le_bytes) simp

text \<open>
  \<open>buf[off..off + n]\<close>, \<open>copy_from_slice\<close> into it, and the accessors of \<open>types.rs\<close>.
\<close>

definition get_bytes :: "nat \<Rightarrow> bytes \<Rightarrow> nat \<Rightarrow> bytes option" where
  "get_bytes n buf off = (if off + n \<le> length buf then Some (take n (drop off buf)) else None)"

definition put_bytes :: "bytes \<Rightarrow> nat \<Rightarrow> bytes \<Rightarrow> bytes option" where
  "put_bytes buf off src =
     (if off + length src \<le> length buf
      then Some (take off buf @ src @ drop (off + length src) buf) else None)"

definition get_u8 :: "bytes \<Rightarrow> nat \<Rightarrow> u8 option" where
  "get_u8 buf off = (if off < length buf then Some (buf ! off) else None)"

definition put_u8 :: "bytes \<Rightarrow> nat \<Rightarrow> u8 \<Rightarrow> bytes option" where
  "put_u8 buf off v = (if off < length buf then Some (buf[off := v]) else None)"

definition get_u16 :: "bytes \<Rightarrow> nat \<Rightarrow> u16 option" where
  "get_u16 buf off = do {
     b0 \<leftarrow> get_u8 buf off;
     b1 \<leftarrow> get_u8 buf (off + 1);
     Some (from_le_bytes [b0, b1])
   }"

definition put_u16 :: "bytes \<Rightarrow> nat \<Rightarrow> u16 \<Rightarrow> bytes option" where
  "put_u16 buf off v = do {
     buf \<leftarrow> put_u8 buf off (to_le_bytes v ! 0);
     put_u8 buf (off + 1) (to_le_bytes v ! 1)
   }"

definition get_u32 :: "bytes \<Rightarrow> nat \<Rightarrow> u32 option" where
  "get_u32 buf off = do {
     b0 \<leftarrow> get_u8 buf off;
     b1 \<leftarrow> get_u8 buf (off + 1);
     b2 \<leftarrow> get_u8 buf (off + 2);
     b3 \<leftarrow> get_u8 buf (off + 3);
     Some (from_le_bytes [b0, b1, b2, b3])
   }"

definition put_u32 :: "bytes \<Rightarrow> nat \<Rightarrow> u32 \<Rightarrow> bytes option" where
  "put_u32 buf off v = put_bytes buf off (to_le_bytes v)"

lemma take_drop_nth:
  "off < length xs \<Longrightarrow> take (Suc n) (drop off xs) = xs ! off # take n (drop (Suc off) xs)"
  by (simp add: Cons_nth_drop_Suc [symmetric])

lemma get_u8_bytes: "get_u8 buf off = map_option hd (get_bytes 1 buf off)"
  by (auto simp: get_u8_def get_bytes_def hd_drop_conv_nth)

lemma get_u16_bytes: "get_u16 buf off = map_option from_le_bytes (get_bytes 2 buf off)"
  by (auto simp: get_u16_def get_u8_def get_bytes_def take_drop_nth numeral_2_eq_2)

lemma get_u32_bytes: "get_u32 buf off = map_option from_le_bytes (get_bytes 4 buf off)"
  by (auto simp: get_u32_def get_u8_def get_bytes_def take_drop_nth eval_nat_numeral)

lemma put_u8_bytes: "put_u8 buf off v = put_bytes buf off [v]"
  by (simp add: put_u8_def put_bytes_def upd_conv_take_nth_drop)

lemma to_le_bytes_u16: "to_le_bytes (v :: u16) = [to_le_bytes v ! 0, to_le_bytes v ! 1]"
  by (simp add: to_le_bytes_def upt_rec)

lemma put_bytes_append:
  "put_bytes buf off (a @ b) = do { buf \<leftarrow> put_bytes buf off a; put_bytes buf (off + length a) b }"
  by (auto simp: put_bytes_def add.assoc add.commute add.left_commute)

lemma put_u16_bytes: "put_u16 buf off v = put_bytes buf off (to_le_bytes v)"
proof -
  have "put_bytes buf off (to_le_bytes v) = put_bytes buf off ([to_le_bytes v ! 0] @ [to_le_bytes v ! 1])"
    by (subst to_le_bytes_u16) simp
  then show ?thesis
    by (simp only: put_u16_def put_u8_bytes put_bytes_append list.size add_0 One_nat_def)
qed


text \<open>
  A run of writes to adjacent ranges is one write; a read from a concatenation finds the part at its
  offset. These rules carry every round trip below.
\<close>

lemma put_bytes_fuse [simp]:
  "off' = off + length a \<Longrightarrow>
     put_bytes buf off a \<bind> (\<lambda>buf. put_bytes buf off' b) = put_bytes buf off (a @ b)"
  by (simp add: put_bytes_append)

lemma put_bytes_fuse_bind [simp]:
  "off' = off + length a \<Longrightarrow>
     put_bytes buf off a \<bind> (\<lambda>buf. put_bytes buf off' b \<bind> f) =
     put_bytes buf off (a @ b) \<bind> f"
  by (simp add: put_bytes_append del: put_bytes_fuse)

lemma get_bytes_here [simp]: "n = length a \<Longrightarrow> get_bytes n (a @ b) 0 = Some a"
  by (simp add: get_bytes_def)

lemma get_bytes_Cons_here [simp]: "get_bytes (Suc 0) (x # b) 0 = Some [x]"
  by (simp add: get_bytes_def)

lemma get_bytes_Cons_skip [simp]: "0 < off \<Longrightarrow> get_bytes n (x # b) off = get_bytes n b (off - 1)"
  by (cases off) (auto simp: get_bytes_def)

lemma get_bytes_skip [simp]:
  "length a \<le> off \<Longrightarrow> get_bytes n (a @ b) off = get_bytes n b (off - length a)"
  by (auto simp: get_bytes_def)

lemma get_bytes_take: "off + n \<le> m \<Longrightarrow> m \<le> length buf \<Longrightarrow> get_bytes n (take m buf) off = get_bytes n buf off"
  by (auto simp: get_bytes_def drop_take min_def)

lemma get_bytes_None: "length buf < off + n \<Longrightarrow> get_bytes n buf off = None"
  by (simp add: get_bytes_def)

lemmas access_bytes = get_u8_bytes get_u16_bytes get_u32_bytes put_u8_bytes put_u16_bytes put_u32_def

section \<open>Structures\<close>

record ExtentHeader =
  eh_magic :: u16
  eh_entries :: u16
  eh_max :: u16
  eh_depth :: u16
  eh_generation :: u32

definition ExtentHeader_read_from :: "bytes \<Rightarrow> ExtentHeader option" where
  "ExtentHeader_read_from buf = do {
     magicv \<leftarrow> get_u16 buf 0;
     entriesv \<leftarrow> get_u16 buf 2;
     maxv \<leftarrow> get_u16 buf 4;
     depthv \<leftarrow> get_u16 buf 6;
     generationv \<leftarrow> get_u32 buf 8;
     Some \<lparr>eh_magic = magicv,
       eh_entries = entriesv,
       eh_max = maxv,
       eh_depth = depthv,
       eh_generation = generationv\<rparr>
   }"

definition ExtentHeader_write_to :: "ExtentHeader \<Rightarrow> bytes \<Rightarrow> bytes option" where
  "ExtentHeader_write_to x buf = do {
     buf \<leftarrow> put_u16 buf 0 (eh_magic x);
     buf \<leftarrow> put_u16 buf 2 (eh_entries x);
     buf \<leftarrow> put_u16 buf 4 (eh_max x);
     buf \<leftarrow> put_u16 buf 6 (eh_depth x);
     put_u32 buf 8 (eh_generation x)
   }"

record ExtentLeaf =
  el_block :: u32
  el_len :: u16
  el_start_hi :: u16
  el_start_lo :: u32

definition ExtentLeaf_read_from :: "bytes \<Rightarrow> ExtentLeaf option" where
  "ExtentLeaf_read_from buf = do {
     blockv \<leftarrow> get_u32 buf 0;
     lenv \<leftarrow> get_u16 buf 4;
     start_hiv \<leftarrow> get_u16 buf 6;
     start_lov \<leftarrow> get_u32 buf 8;
     Some \<lparr>el_block = blockv,
       el_len = lenv,
       el_start_hi = start_hiv,
       el_start_lo = start_lov\<rparr>
   }"

definition ExtentLeaf_write_to :: "ExtentLeaf \<Rightarrow> bytes \<Rightarrow> bytes option" where
  "ExtentLeaf_write_to x buf = do {
     buf \<leftarrow> put_u32 buf 0 (el_block x);
     buf \<leftarrow> put_u16 buf 4 (el_len x);
     buf \<leftarrow> put_u16 buf 6 (el_start_hi x);
     put_u32 buf 8 (el_start_lo x)
   }"

record ExtentIndex =
  ei_block :: u32
  ei_leaf_lo :: u32
  ei_leaf_hi :: u16
  ei_unused :: u16

definition ExtentIndex_read_from :: "bytes \<Rightarrow> ExtentIndex option" where
  "ExtentIndex_read_from buf = do {
     blockv \<leftarrow> get_u32 buf 0;
     leaf_lov \<leftarrow> get_u32 buf 4;
     leaf_hiv \<leftarrow> get_u16 buf 8;
     unusedv \<leftarrow> get_u16 buf 10;
     Some \<lparr>ei_block = blockv,
       ei_leaf_lo = leaf_lov,
       ei_leaf_hi = leaf_hiv,
       ei_unused = unusedv\<rparr>
   }"

definition ExtentIndex_write_to :: "ExtentIndex \<Rightarrow> bytes \<Rightarrow> bytes option" where
  "ExtentIndex_write_to x buf = do {
     buf \<leftarrow> put_u32 buf 0 (ei_block x);
     buf \<leftarrow> put_u32 buf 4 (ei_leaf_lo x);
     buf \<leftarrow> put_u16 buf 8 (ei_leaf_hi x);
     put_u16 buf 10 (ei_unused x)
   }"

record ExtentTail =
  et_checksum :: u32

definition ExtentTail_read_from :: "bytes \<Rightarrow> ExtentTail option" where
  "ExtentTail_read_from buf = do {
     checksumv \<leftarrow> get_u32 buf 0;
     Some \<lparr>et_checksum = checksumv\<rparr>
   }"

definition ExtentTail_write_to :: "ExtentTail \<Rightarrow> bytes \<Rightarrow> bytes option" where
  "ExtentTail_write_to x buf = do {
     put_u32 buf 0 (et_checksum x)
   }"

record DirectoryEntry =
  de_inode :: u32
  de_rec_len :: u16
  de_name_len :: u8
  de_file_type :: u8

definition DirectoryEntry_read_from :: "bytes \<Rightarrow> DirectoryEntry option" where
  "DirectoryEntry_read_from buf = do {
     inodev \<leftarrow> get_u32 buf 0;
     rec_lenv \<leftarrow> get_u16 buf 4;
     name_lenv \<leftarrow> get_u8 buf 6;
     file_typev \<leftarrow> get_u8 buf 7;
     Some \<lparr>de_inode = inodev,
       de_rec_len = rec_lenv,
       de_name_len = name_lenv,
       de_file_type = file_typev\<rparr>
   }"

definition DirectoryEntry_write_to :: "DirectoryEntry \<Rightarrow> bytes \<Rightarrow> bytes option" where
  "DirectoryEntry_write_to x buf = do {
     buf \<leftarrow> put_u32 buf 0 (de_inode x);
     buf \<leftarrow> put_u16 buf 4 (de_rec_len x);
     buf \<leftarrow> put_u8 buf 6 (de_name_len x);
     put_u8 buf 7 (de_file_type x)
   }"

record XAttrEntry =
  xe_name_len :: u8
  xe_name_index :: u8
  xe_value_offset :: u16
  xe_value_inum :: u32
  xe_value_size :: u32
  xe_hash :: u32

definition XAttrEntry_read_from :: "bytes \<Rightarrow> XAttrEntry option" where
  "XAttrEntry_read_from buf = do {
     name_lenv \<leftarrow> get_u8 buf 0;
     name_indexv \<leftarrow> get_u8 buf 1;
     value_offsetv \<leftarrow> get_u16 buf 2;
     value_inumv \<leftarrow> get_u32 buf 4;
     value_sizev \<leftarrow> get_u32 buf 8;
     hashv \<leftarrow> get_u32 buf 12;
     Some \<lparr>xe_name_len = name_lenv,
       xe_name_index = name_indexv,
       xe_value_offset = value_offsetv,
       xe_value_inum = value_inumv,
       xe_value_size = value_sizev,
       xe_hash = hashv\<rparr>
   }"

definition XAttrEntry_write_to :: "XAttrEntry \<Rightarrow> bytes \<Rightarrow> bytes option" where
  "XAttrEntry_write_to x buf = do {
     buf \<leftarrow> put_u8 buf 0 (xe_name_len x);
     buf \<leftarrow> put_u8 buf 1 (xe_name_index x);
     buf \<leftarrow> put_u16 buf 2 (xe_value_offset x);
     buf \<leftarrow> put_u32 buf 4 (xe_value_inum x);
     buf \<leftarrow> put_u32 buf 8 (xe_value_size x);
     put_u32 buf 12 (xe_hash x)
   }"

record GroupDescriptor =
  gd_block_bitmap_lo :: u32
  gd_inode_bitmap_lo :: u32
  gd_inode_table_lo :: u32
  gd_free_blocks_count_lo :: u16
  gd_free_inodes_count_lo :: u16
  gd_used_dirs_count_lo :: u16
  gd_flags :: u16
  gd_exclude_bitmap_lo :: u32
  gd_block_bitmap_csum_lo :: u16
  gd_inode_bitmap_csum_lo :: u16
  gd_itable_unused_lo :: u16
  gd_checksum :: u16

definition GroupDescriptor_read_from :: "bytes \<Rightarrow> GroupDescriptor option" where
  "GroupDescriptor_read_from buf = do {
     block_bitmap_lov \<leftarrow> get_u32 buf 0x00;
     inode_bitmap_lov \<leftarrow> get_u32 buf 0x04;
     inode_table_lov \<leftarrow> get_u32 buf 0x08;
     free_blocks_count_lov \<leftarrow> get_u16 buf 0x0C;
     free_inodes_count_lov \<leftarrow> get_u16 buf 0x0E;
     used_dirs_count_lov \<leftarrow> get_u16 buf 0x10;
     flagsv \<leftarrow> get_u16 buf 0x12;
     exclude_bitmap_lov \<leftarrow> get_u32 buf 0x14;
     block_bitmap_csum_lov \<leftarrow> get_u16 buf 0x18;
     inode_bitmap_csum_lov \<leftarrow> get_u16 buf 0x1A;
     itable_unused_lov \<leftarrow> get_u16 buf 0x1C;
     checksumv \<leftarrow> get_u16 buf 0x1E;
     Some \<lparr>gd_block_bitmap_lo = block_bitmap_lov,
       gd_inode_bitmap_lo = inode_bitmap_lov,
       gd_inode_table_lo = inode_table_lov,
       gd_free_blocks_count_lo = free_blocks_count_lov,
       gd_free_inodes_count_lo = free_inodes_count_lov,
       gd_used_dirs_count_lo = used_dirs_count_lov,
       gd_flags = flagsv,
       gd_exclude_bitmap_lo = exclude_bitmap_lov,
       gd_block_bitmap_csum_lo = block_bitmap_csum_lov,
       gd_inode_bitmap_csum_lo = inode_bitmap_csum_lov,
       gd_itable_unused_lo = itable_unused_lov,
       gd_checksum = checksumv\<rparr>
   }"

definition GroupDescriptor_write_to :: "GroupDescriptor \<Rightarrow> bytes \<Rightarrow> bytes option" where
  "GroupDescriptor_write_to x buf = do {
     buf \<leftarrow> put_bytes buf 0 (replicate 32 0);
     buf \<leftarrow> put_u32 buf 0x00 (gd_block_bitmap_lo x);
     buf \<leftarrow> put_u32 buf 0x04 (gd_inode_bitmap_lo x);
     buf \<leftarrow> put_u32 buf 0x08 (gd_inode_table_lo x);
     buf \<leftarrow> put_u16 buf 0x0C (gd_free_blocks_count_lo x);
     buf \<leftarrow> put_u16 buf 0x0E (gd_free_inodes_count_lo x);
     buf \<leftarrow> put_u16 buf 0x10 (gd_used_dirs_count_lo x);
     buf \<leftarrow> put_u16 buf 0x12 (gd_flags x);
     buf \<leftarrow> put_u32 buf 0x14 (gd_exclude_bitmap_lo x);
     buf \<leftarrow> put_u16 buf 0x18 (gd_block_bitmap_csum_lo x);
     buf \<leftarrow> put_u16 buf 0x1A (gd_inode_bitmap_csum_lo x);
     buf \<leftarrow> put_u16 buf 0x1C (gd_itable_unused_lo x);
     put_u16 buf 0x1E (gd_checksum x)
   }"

record Inode =
  i_mode :: u16
  i_uid :: u16
  i_size_lo :: u32
  i_atime :: u32
  i_ctime :: u32
  i_mtime :: u32
  i_dtime :: u32
  i_gid :: u16
  i_links_count :: u16
  i_blocks_lo :: u32
  i_flags :: u32
  i_version :: u32
  i_block :: bytes
  i_generation :: u32
  i_xattr_block_lo :: u32
  i_size_hi :: u32
  i_obsolete_fragment_addr :: u32
  i_blocks_hi :: u16
  i_xattr_block_hi :: u16
  i_uid_hi :: u16
  i_gid_hi :: u16
  i_checksum_lo :: u16
  i_reserved :: u16
  i_extra_isize :: u16
  i_checksum_hi :: u16
  i_ctime_extra :: u32
  i_mtime_extra :: u32
  i_atime_extra :: u32
  i_crtime :: u32
  i_crtime_extra :: u32
  i_version_hi :: u32
  i_projid :: u32
  i_inline_xattrs :: bytes

definition Inode_read_from :: "bytes \<Rightarrow> Inode option" where
  "Inode_read_from buf = do {
     modev \<leftarrow> get_u16 buf 0x00;
     uidv \<leftarrow> get_u16 buf 0x02;
     size_lov \<leftarrow> get_u32 buf 0x04;
     atimev \<leftarrow> get_u32 buf 0x08;
     ctimev \<leftarrow> get_u32 buf 0x0C;
     mtimev \<leftarrow> get_u32 buf 0x10;
     dtimev \<leftarrow> get_u32 buf 0x14;
     gidv \<leftarrow> get_u16 buf 0x18;
     links_countv \<leftarrow> get_u16 buf 0x1A;
     blocks_lov \<leftarrow> get_u32 buf 0x1C;
     flagsv \<leftarrow> get_u32 buf 0x20;
     versionv \<leftarrow> get_u32 buf 0x24;
     blockv \<leftarrow> get_bytes 60 buf 0x28;
     generationv \<leftarrow> get_u32 buf 0x64;
     xattr_block_lov \<leftarrow> get_u32 buf 0x68;
     size_hiv \<leftarrow> get_u32 buf 0x6C;
     obsolete_fragment_addrv \<leftarrow> get_u32 buf 0x70;
     blocks_hiv \<leftarrow> get_u16 buf 0x74;
     xattr_block_hiv \<leftarrow> get_u16 buf 0x76;
     uid_hiv \<leftarrow> get_u16 buf 0x78;
     gid_hiv \<leftarrow> get_u16 buf 0x7A;
     checksum_lov \<leftarrow> get_u16 buf 0x7C;
     reservedv \<leftarrow> get_u16 buf 0x7E;
     extra_isizev \<leftarrow> get_u16 buf 0x80;
     checksum_hiv \<leftarrow> get_u16 buf 0x82;
     ctime_extrav \<leftarrow> get_u32 buf 0x84;
     mtime_extrav \<leftarrow> get_u32 buf 0x88;
     atime_extrav \<leftarrow> get_u32 buf 0x8C;
     crtimev \<leftarrow> get_u32 buf 0x90;
     crtime_extrav \<leftarrow> get_u32 buf 0x94;
     version_hiv \<leftarrow> get_u32 buf 0x98;
     projidv \<leftarrow> get_u32 buf 0x9C;
     inline_xattrsv \<leftarrow> get_bytes 96 buf 160;
     Some \<lparr>i_mode = modev,
       i_uid = uidv,
       i_size_lo = size_lov,
       i_atime = atimev,
       i_ctime = ctimev,
       i_mtime = mtimev,
       i_dtime = dtimev,
       i_gid = gidv,
       i_links_count = links_countv,
       i_blocks_lo = blocks_lov,
       i_flags = flagsv,
       i_version = versionv,
       i_block = blockv,
       i_generation = generationv,
       i_xattr_block_lo = xattr_block_lov,
       i_size_hi = size_hiv,
       i_obsolete_fragment_addr = obsolete_fragment_addrv,
       i_blocks_hi = blocks_hiv,
       i_xattr_block_hi = xattr_block_hiv,
       i_uid_hi = uid_hiv,
       i_gid_hi = gid_hiv,
       i_checksum_lo = checksum_lov,
       i_reserved = reservedv,
       i_extra_isize = extra_isizev,
       i_checksum_hi = checksum_hiv,
       i_ctime_extra = ctime_extrav,
       i_mtime_extra = mtime_extrav,
       i_atime_extra = atime_extrav,
       i_crtime = crtimev,
       i_crtime_extra = crtime_extrav,
       i_version_hi = version_hiv,
       i_projid = projidv,
       i_inline_xattrs = inline_xattrsv\<rparr>
   }"

definition Inode_write_to :: "Inode \<Rightarrow> bytes \<Rightarrow> bytes option" where
  "Inode_write_to x buf = do {
     buf \<leftarrow> put_bytes buf 0 (replicate 256 0);
     buf \<leftarrow> put_u16 buf 0x00 (i_mode x);
     buf \<leftarrow> put_u16 buf 0x02 (i_uid x);
     buf \<leftarrow> put_u32 buf 0x04 (i_size_lo x);
     buf \<leftarrow> put_u32 buf 0x08 (i_atime x);
     buf \<leftarrow> put_u32 buf 0x0C (i_ctime x);
     buf \<leftarrow> put_u32 buf 0x10 (i_mtime x);
     buf \<leftarrow> put_u32 buf 0x14 (i_dtime x);
     buf \<leftarrow> put_u16 buf 0x18 (i_gid x);
     buf \<leftarrow> put_u16 buf 0x1A (i_links_count x);
     buf \<leftarrow> put_u32 buf 0x1C (i_blocks_lo x);
     buf \<leftarrow> put_u32 buf 0x20 (i_flags x);
     buf \<leftarrow> put_u32 buf 0x24 (i_version x);
     buf \<leftarrow> put_bytes buf 0x28 (i_block x);
     buf \<leftarrow> put_u32 buf 0x64 (i_generation x);
     buf \<leftarrow> put_u32 buf 0x68 (i_xattr_block_lo x);
     buf \<leftarrow> put_u32 buf 0x6C (i_size_hi x);
     buf \<leftarrow> put_u32 buf 0x70 (i_obsolete_fragment_addr x);
     buf \<leftarrow> put_u16 buf 0x74 (i_blocks_hi x);
     buf \<leftarrow> put_u16 buf 0x76 (i_xattr_block_hi x);
     buf \<leftarrow> put_u16 buf 0x78 (i_uid_hi x);
     buf \<leftarrow> put_u16 buf 0x7A (i_gid_hi x);
     buf \<leftarrow> put_u16 buf 0x7C (i_checksum_lo x);
     buf \<leftarrow> put_u16 buf 0x7E (i_reserved x);
     buf \<leftarrow> put_u16 buf 0x80 (i_extra_isize x);
     buf \<leftarrow> put_u16 buf 0x82 (i_checksum_hi x);
     buf \<leftarrow> put_u32 buf 0x84 (i_ctime_extra x);
     buf \<leftarrow> put_u32 buf 0x88 (i_mtime_extra x);
     buf \<leftarrow> put_u32 buf 0x8C (i_atime_extra x);
     buf \<leftarrow> put_u32 buf 0x90 (i_crtime x);
     buf \<leftarrow> put_u32 buf 0x94 (i_crtime_extra x);
     buf \<leftarrow> put_u32 buf 0x98 (i_version_hi x);
     buf \<leftarrow> put_u32 buf 0x9C (i_projid x);
     put_bytes buf 160 (i_inline_xattrs x)
   }"

section \<open>The codec contract\<close>

lemma put_bytes_over [simp]:
  "length z = length a \<Longrightarrow> put_bytes buf off z \<bind> (\<lambda>buf. put_bytes buf off a) = put_bytes buf off a"
  by (auto simp: put_bytes_def)

lemma put_bytes_0: "put_bytes buf 0 a = (if length a \<le> length buf then Some (a @ drop (length a) buf) else None)"
  by (simp add: put_bytes_def)

text \<open>
  \<open>enc\<close> is the byte layout of a structure; \<open>wf\<close> says that its array fields have their
  declared length.
\<close>

locale codec =
  fixes size :: nat
    and wf :: "'a \<Rightarrow> bool"
    and enc :: "'a \<Rightarrow> bytes"
    and write_to :: "'a \<Rightarrow> bytes \<Rightarrow> bytes option"
    and read_from :: "bytes \<Rightarrow> 'a option"
  assumes length_enc: "wf x \<Longrightarrow> length (enc x) = size"
    and write_enc: "wf x \<Longrightarrow> write_to x buf = put_bytes buf 0 (enc x)"
    and read_enc: "wf x \<Longrightarrow> read_from (enc x @ rest) = Some x"
    and read_None: "read_from buf = None \<longleftrightarrow> length buf < size"
    and read_take: "size \<le> length buf \<Longrightarrow> read_from (take size buf) = read_from buf"
begin

lemma write_read:
  assumes "wf x" "size \<le> length buf"
  shows "\<exists>buf'. write_to x buf = Some buf' \<and> length buf' = length buf \<and>
           drop size buf' = drop size buf \<and> read_from buf' = Some x"
  using assms by (simp add: write_enc put_bytes_0 length_enc read_enc)

lemma write_short: "wf x \<Longrightarrow> length buf < size \<Longrightarrow> write_to x buf = None"
  by (simp add: write_enc put_bytes_0 length_enc)

lemma enc_inject: "wf x \<Longrightarrow> wf y \<Longrightarrow> enc x = enc y \<longleftrightarrow> x = y"
  by (metis option.inject read_enc)

lemma read_enc_Nil: "wf x \<Longrightarrow> read_from (enc x) = Some x"
  using read_enc [of x "[]"] by simp

end

definition ExtentHeader_bytes :: "ExtentHeader \<Rightarrow> bytes" where
  "ExtentHeader_bytes x =
     to_le_bytes (eh_magic x) @ to_le_bytes (eh_entries x) @ to_le_bytes (eh_max x) @
     to_le_bytes (eh_depth x) @ to_le_bytes (eh_generation x)"

interpretation ehc: codec 12 "(\<lambda>_. True)" ExtentHeader_bytes ExtentHeader_write_to ExtentHeader_read_from
proof unfold_locales
  fix x :: ExtentHeader and buf rest :: bytes
  show "(\<lambda>_. True) x \<Longrightarrow> length (ExtentHeader_bytes x) = 12"
    by (simp add: ExtentHeader_bytes_def)
  show "(\<lambda>_. True) x \<Longrightarrow> ExtentHeader_write_to x buf = put_bytes buf 0 (ExtentHeader_bytes x)"
    by (simp add: ExtentHeader_write_to_def ExtentHeader_bytes_def access_bytes)
  show "(\<lambda>_. True) x \<Longrightarrow> ExtentHeader_read_from (ExtentHeader_bytes x @ rest) = Some x"
    by (simp add: ExtentHeader_read_from_def ExtentHeader_bytes_def access_bytes)
  show "ExtentHeader_read_from buf = None \<longleftrightarrow> length buf < 12"
  proof (cases "length buf < 12")
    case True
    then show ?thesis by (simp add: ExtentHeader_read_from_def access_bytes get_bytes_None)
  next
    case False
    then show ?thesis by (simp add: ExtentHeader_read_from_def access_bytes get_bytes_def)
  qed
  show "12 \<le> length buf \<Longrightarrow> ExtentHeader_read_from (take 12 buf) = ExtentHeader_read_from buf"
    by (simp add: ExtentHeader_read_from_def access_bytes get_bytes_take)
qed

definition ExtentLeaf_bytes :: "ExtentLeaf \<Rightarrow> bytes" where
  "ExtentLeaf_bytes x =
     to_le_bytes (el_block x) @ to_le_bytes (el_len x) @ to_le_bytes (el_start_hi x) @
     to_le_bytes (el_start_lo x)"

interpretation elc: codec 12 "(\<lambda>_. True)" ExtentLeaf_bytes ExtentLeaf_write_to ExtentLeaf_read_from
proof unfold_locales
  fix x :: ExtentLeaf and buf rest :: bytes
  show "(\<lambda>_. True) x \<Longrightarrow> length (ExtentLeaf_bytes x) = 12"
    by (simp add: ExtentLeaf_bytes_def)
  show "(\<lambda>_. True) x \<Longrightarrow> ExtentLeaf_write_to x buf = put_bytes buf 0 (ExtentLeaf_bytes x)"
    by (simp add: ExtentLeaf_write_to_def ExtentLeaf_bytes_def access_bytes)
  show "(\<lambda>_. True) x \<Longrightarrow> ExtentLeaf_read_from (ExtentLeaf_bytes x @ rest) = Some x"
    by (simp add: ExtentLeaf_read_from_def ExtentLeaf_bytes_def access_bytes)
  show "ExtentLeaf_read_from buf = None \<longleftrightarrow> length buf < 12"
  proof (cases "length buf < 12")
    case True
    then show ?thesis by (simp add: ExtentLeaf_read_from_def access_bytes get_bytes_None)
  next
    case False
    then show ?thesis by (simp add: ExtentLeaf_read_from_def access_bytes get_bytes_def)
  qed
  show "12 \<le> length buf \<Longrightarrow> ExtentLeaf_read_from (take 12 buf) = ExtentLeaf_read_from buf"
    by (simp add: ExtentLeaf_read_from_def access_bytes get_bytes_take)
qed

definition ExtentIndex_bytes :: "ExtentIndex \<Rightarrow> bytes" where
  "ExtentIndex_bytes x =
     to_le_bytes (ei_block x) @ to_le_bytes (ei_leaf_lo x) @ to_le_bytes (ei_leaf_hi x) @
     to_le_bytes (ei_unused x)"

interpretation eic: codec 12 "(\<lambda>_. True)" ExtentIndex_bytes ExtentIndex_write_to ExtentIndex_read_from
proof unfold_locales
  fix x :: ExtentIndex and buf rest :: bytes
  show "(\<lambda>_. True) x \<Longrightarrow> length (ExtentIndex_bytes x) = 12"
    by (simp add: ExtentIndex_bytes_def)
  show "(\<lambda>_. True) x \<Longrightarrow> ExtentIndex_write_to x buf = put_bytes buf 0 (ExtentIndex_bytes x)"
    by (simp add: ExtentIndex_write_to_def ExtentIndex_bytes_def access_bytes)
  show "(\<lambda>_. True) x \<Longrightarrow> ExtentIndex_read_from (ExtentIndex_bytes x @ rest) = Some x"
    by (simp add: ExtentIndex_read_from_def ExtentIndex_bytes_def access_bytes)
  show "ExtentIndex_read_from buf = None \<longleftrightarrow> length buf < 12"
  proof (cases "length buf < 12")
    case True
    then show ?thesis by (simp add: ExtentIndex_read_from_def access_bytes get_bytes_None)
  next
    case False
    then show ?thesis by (simp add: ExtentIndex_read_from_def access_bytes get_bytes_def)
  qed
  show "12 \<le> length buf \<Longrightarrow> ExtentIndex_read_from (take 12 buf) = ExtentIndex_read_from buf"
    by (simp add: ExtentIndex_read_from_def access_bytes get_bytes_take)
qed

definition ExtentTail_bytes :: "ExtentTail \<Rightarrow> bytes" where
  "ExtentTail_bytes x =
     to_le_bytes (et_checksum x)"

interpretation etc: codec 4 "(\<lambda>_. True)" ExtentTail_bytes ExtentTail_write_to ExtentTail_read_from
proof unfold_locales
  fix x :: ExtentTail and buf rest :: bytes
  show "(\<lambda>_. True) x \<Longrightarrow> length (ExtentTail_bytes x) = 4"
    by (simp add: ExtentTail_bytes_def)
  show "(\<lambda>_. True) x \<Longrightarrow> ExtentTail_write_to x buf = put_bytes buf 0 (ExtentTail_bytes x)"
    by (simp add: ExtentTail_write_to_def ExtentTail_bytes_def access_bytes)
  show "(\<lambda>_. True) x \<Longrightarrow> ExtentTail_read_from (ExtentTail_bytes x @ rest) = Some x"
    by (simp add: ExtentTail_read_from_def ExtentTail_bytes_def access_bytes)
  show "ExtentTail_read_from buf = None \<longleftrightarrow> length buf < 4"
  proof (cases "length buf < 4")
    case True
    then show ?thesis by (simp add: ExtentTail_read_from_def access_bytes get_bytes_None)
  next
    case False
    then show ?thesis by (simp add: ExtentTail_read_from_def access_bytes get_bytes_def)
  qed
  show "4 \<le> length buf \<Longrightarrow> ExtentTail_read_from (take 4 buf) = ExtentTail_read_from buf"
    by (simp add: ExtentTail_read_from_def access_bytes get_bytes_take)
qed

definition DirectoryEntry_bytes :: "DirectoryEntry \<Rightarrow> bytes" where
  "DirectoryEntry_bytes x =
     to_le_bytes (de_inode x) @ to_le_bytes (de_rec_len x) @ [de_name_len x] @ [de_file_type
     x]"

interpretation dec: codec 8 "(\<lambda>_. True)" DirectoryEntry_bytes DirectoryEntry_write_to DirectoryEntry_read_from
proof unfold_locales
  fix x :: DirectoryEntry and buf rest :: bytes
  show "(\<lambda>_. True) x \<Longrightarrow> length (DirectoryEntry_bytes x) = 8"
    by (simp add: DirectoryEntry_bytes_def)
  show "(\<lambda>_. True) x \<Longrightarrow> DirectoryEntry_write_to x buf = put_bytes buf 0 (DirectoryEntry_bytes x)"
    by (simp add: DirectoryEntry_write_to_def DirectoryEntry_bytes_def access_bytes)
  show "(\<lambda>_. True) x \<Longrightarrow> DirectoryEntry_read_from (DirectoryEntry_bytes x @ rest) = Some x"
    by (simp add: DirectoryEntry_read_from_def DirectoryEntry_bytes_def access_bytes)
  show "DirectoryEntry_read_from buf = None \<longleftrightarrow> length buf < 8"
  proof (cases "length buf < 8")
    case True
    then show ?thesis by (simp add: DirectoryEntry_read_from_def access_bytes get_bytes_None)
  next
    case False
    then show ?thesis by (simp add: DirectoryEntry_read_from_def access_bytes get_bytes_def)
  qed
  show "8 \<le> length buf \<Longrightarrow> DirectoryEntry_read_from (take 8 buf) = DirectoryEntry_read_from buf"
    by (simp add: DirectoryEntry_read_from_def access_bytes get_bytes_take)
qed

definition XAttrEntry_bytes :: "XAttrEntry \<Rightarrow> bytes" where
  "XAttrEntry_bytes x =
     [xe_name_len x] @ [xe_name_index x] @ to_le_bytes (xe_value_offset x) @ to_le_bytes
     (xe_value_inum x) @ to_le_bytes (xe_value_size x) @ to_le_bytes (xe_hash x)"

interpretation xec: codec 16 "(\<lambda>_. True)" XAttrEntry_bytes XAttrEntry_write_to XAttrEntry_read_from
proof unfold_locales
  fix x :: XAttrEntry and buf rest :: bytes
  show "(\<lambda>_. True) x \<Longrightarrow> length (XAttrEntry_bytes x) = 16"
    by (simp add: XAttrEntry_bytes_def)
  show "(\<lambda>_. True) x \<Longrightarrow> XAttrEntry_write_to x buf = put_bytes buf 0 (XAttrEntry_bytes x)"
    by (simp add: XAttrEntry_write_to_def XAttrEntry_bytes_def access_bytes)
  show "(\<lambda>_. True) x \<Longrightarrow> XAttrEntry_read_from (XAttrEntry_bytes x @ rest) = Some x"
    by (simp add: XAttrEntry_read_from_def XAttrEntry_bytes_def access_bytes)
  show "XAttrEntry_read_from buf = None \<longleftrightarrow> length buf < 16"
  proof (cases "length buf < 16")
    case True
    then show ?thesis by (simp add: XAttrEntry_read_from_def access_bytes get_bytes_None)
  next
    case False
    then show ?thesis by (simp add: XAttrEntry_read_from_def access_bytes get_bytes_def)
  qed
  show "16 \<le> length buf \<Longrightarrow> XAttrEntry_read_from (take 16 buf) = XAttrEntry_read_from buf"
    by (simp add: XAttrEntry_read_from_def access_bytes get_bytes_take)
qed

definition GroupDescriptor_bytes :: "GroupDescriptor \<Rightarrow> bytes" where
  "GroupDescriptor_bytes x =
     to_le_bytes (gd_block_bitmap_lo x) @ to_le_bytes (gd_inode_bitmap_lo x) @ to_le_bytes
     (gd_inode_table_lo x) @ to_le_bytes (gd_free_blocks_count_lo x) @ to_le_bytes
     (gd_free_inodes_count_lo x) @ to_le_bytes (gd_used_dirs_count_lo x) @ to_le_bytes
     (gd_flags x) @ to_le_bytes (gd_exclude_bitmap_lo x) @ to_le_bytes
     (gd_block_bitmap_csum_lo x) @ to_le_bytes (gd_inode_bitmap_csum_lo x) @ to_le_bytes
     (gd_itable_unused_lo x) @ to_le_bytes (gd_checksum x)"

interpretation gdc: codec 32 "(\<lambda>_. True)" GroupDescriptor_bytes GroupDescriptor_write_to GroupDescriptor_read_from
proof unfold_locales
  fix x :: GroupDescriptor and buf rest :: bytes
  show "(\<lambda>_. True) x \<Longrightarrow> length (GroupDescriptor_bytes x) = 32"
    by (simp add: GroupDescriptor_bytes_def)
  show "(\<lambda>_. True) x \<Longrightarrow> GroupDescriptor_write_to x buf = put_bytes buf 0 (GroupDescriptor_bytes x)"
    by (simp add: GroupDescriptor_write_to_def GroupDescriptor_bytes_def access_bytes)
  show "(\<lambda>_. True) x \<Longrightarrow> GroupDescriptor_read_from (GroupDescriptor_bytes x @ rest) = Some x"
    by (simp add: GroupDescriptor_read_from_def GroupDescriptor_bytes_def access_bytes)
  show "GroupDescriptor_read_from buf = None \<longleftrightarrow> length buf < 32"
  proof (cases "length buf < 32")
    case True
    then show ?thesis by (simp add: GroupDescriptor_read_from_def access_bytes get_bytes_None)
  next
    case False
    then show ?thesis by (simp add: GroupDescriptor_read_from_def access_bytes get_bytes_def)
  qed
  show "32 \<le> length buf \<Longrightarrow> GroupDescriptor_read_from (take 32 buf) = GroupDescriptor_read_from buf"
    by (simp add: GroupDescriptor_read_from_def access_bytes get_bytes_take)
qed

definition Inode_bytes :: "Inode \<Rightarrow> bytes" where
  "Inode_bytes x =
     to_le_bytes (i_mode x) @ to_le_bytes (i_uid x) @ to_le_bytes (i_size_lo x) @ to_le_bytes
     (i_atime x) @ to_le_bytes (i_ctime x) @ to_le_bytes (i_mtime x) @ to_le_bytes (i_dtime
     x) @ to_le_bytes (i_gid x) @ to_le_bytes (i_links_count x) @ to_le_bytes (i_blocks_lo x)
     @ to_le_bytes (i_flags x) @ to_le_bytes (i_version x) @ i_block x @ to_le_bytes
     (i_generation x) @ to_le_bytes (i_xattr_block_lo x) @ to_le_bytes (i_size_hi x) @
     to_le_bytes (i_obsolete_fragment_addr x) @ to_le_bytes (i_blocks_hi x) @ to_le_bytes
     (i_xattr_block_hi x) @ to_le_bytes (i_uid_hi x) @ to_le_bytes (i_gid_hi x) @ to_le_bytes
     (i_checksum_lo x) @ to_le_bytes (i_reserved x) @ to_le_bytes (i_extra_isize x) @
     to_le_bytes (i_checksum_hi x) @ to_le_bytes (i_ctime_extra x) @ to_le_bytes
     (i_mtime_extra x) @ to_le_bytes (i_atime_extra x) @ to_le_bytes (i_crtime x) @
     to_le_bytes (i_crtime_extra x) @ to_le_bytes (i_version_hi x) @ to_le_bytes (i_projid x)
     @ i_inline_xattrs x"

definition Inode_wf :: "Inode \<Rightarrow> bool" where
  "Inode_wf x \<longleftrightarrow> length (i_block x) = 60 \<and> length (i_inline_xattrs x) = 96"

interpretation inc: codec 256 "Inode_wf" Inode_bytes Inode_write_to Inode_read_from
proof unfold_locales
  fix x :: Inode and buf rest :: bytes
  show "Inode_wf x \<Longrightarrow> length (Inode_bytes x) = 256"
    by (simp add: Inode_bytes_def Inode_wf_def)
  show "Inode_wf x \<Longrightarrow> Inode_write_to x buf = put_bytes buf 0 (Inode_bytes x)"
    by (simp add: Inode_write_to_def Inode_bytes_def access_bytes Inode_wf_def)
  show "Inode_wf x \<Longrightarrow> Inode_read_from (Inode_bytes x @ rest) = Some x"
    by (simp add: Inode_read_from_def Inode_bytes_def access_bytes Inode_wf_def)
  show "Inode_read_from buf = None \<longleftrightarrow> length buf < 256"
  proof (cases "length buf < 256")
    case True
    then show ?thesis by (simp add: Inode_read_from_def access_bytes get_bytes_None)
  next
    case False
    then show ?thesis by (simp add: Inode_read_from_def access_bytes get_bytes_def)
  qed
  show "256 \<le> length buf \<Longrightarrow> Inode_read_from (take 256 buf) = Inode_read_from buf"
    by (simp add: Inode_read_from_def access_bytes get_bytes_take)
qed

section \<open>Errors\<close>

text \<open>
  \<open>FormatError\<close> of \<open>error.rs\<close>; a path is its string. An operation that can also panic
  fails with \<open>abort\<close>.
\<close>

datatype FormatError =
  FE_NotDirectory string
| FE_NotFile string
| FE_NotFound string
| FE_AlreadyExists string
| FE_UnsupportedFiletype
| FE_MaximumLinksExceeded string
| FE_FileTooBig u64
| FE_InvalidLink string
| FE_InvalidName string
| FE_NoSpaceForTrailingDirEntry
| FE_InsufficientSpaceForGroupDescriptorBlocks
| FE_CannotHardlinkDirectory string
| FE_UnsupportedBlockSize u32
| FE_InvalidSize u64 string
| FE_InvalidLabel string
| FE_CannotTruncateFile string
| FE_CannotCreateSparseFile string
| FE_CannotResizeFs u64
| FE_XattrInsufficientSpace u32
| FE_MalformedXattrBuffer
| FE_InvalidAsciiString string
| FE_InvalidPathEncoding string
| FE_Io string

text \<open>\<open>ReadError\<close> of \<open>error.rs\<close>.\<close>

datatype ReadError =
  RE_NotFound string
| RE_CouldNotReadSuperBlock string u64 nat
| RE_InvalidSuperBlock
| RE_DeepExtentsUnsupported
| RE_InvalidExtents
| RE_InvalidXattrEntry
| RE_CouldNotReadBlock u32
| RE_CouldNotReadInode u32
| RE_CouldNotReadGroup u32
| RE_PathNotFound string
| RE_NotAFile string
| RE_IsDirectory string
| RE_NotADirectory string
| RE_SymlinkLoop string
| RE_InvalidPath string
| RE_Io string

datatype 'e abort = Panic | Error 'e

section \<open>Constants and modes\<close>

definition EXTENT_HEADER_MAGIC :: u16 where "EXTENT_HEADER_MAGIC = 0xF30A"
definition XATTR_HEADER_MAGIC :: u32 where "XATTR_HEADER_MAGIC = 0xEA020000"
definition ROOT_INODE :: u32 where "ROOT_INODE = 2"
definition FIRST_INODE :: u32 where "FIRST_INODE = 11"
definition INODE_EXTRA_SIZE :: u32 where "INODE_EXTRA_SIZE = 96"
definition EXTRA_ISIZE :: u16 where "EXTRA_ISIZE = 32"
definition XATTR_INODE_HEADER_SIZE :: u32 where "XATTR_INODE_HEADER_SIZE = 4"
definition XATTR_BLOCK_HEADER_SIZE :: u32 where "XATTR_BLOCK_HEADER_SIZE = 32"
definition MAX_LINKS :: u32 where "MAX_LINKS = 65000"
definition EXT4_NAME_LEN :: nat where "EXT4_NAME_LEN = 255"
definition MAX_BLOCKS_PER_EXTENT :: u32 where "MAX_BLOCKS_PER_EXTENT = 0x8000"
definition MAX_FILE_SIZE :: u64 where "MAX_FILE_SIZE = 128 * 1024 * 1024 * 1024"
definition INODE_BLOCK_SIZE :: nat where "INODE_BLOCK_SIZE = 60"

definition inode_flags_HUGE_FILE :: u32 where "inode_flags_HUGE_FILE = 0x40000"
definition inode_flags_EXTENTS :: u32 where "inode_flags_EXTENTS = 0x80000"

definition S_IFIFO :: u16 where "S_IFIFO = 0x1000"
definition S_IFCHR :: u16 where "S_IFCHR = 0x2000"
definition S_IFDIR :: u16 where "S_IFDIR = 0x4000"
definition S_IFBLK :: u16 where "S_IFBLK = 0x6000"
definition S_IFREG :: u16 where "S_IFREG = 0x8000"
definition S_IFLNK :: u16 where "S_IFLNK = 0xA000"
definition S_IFSOCK :: u16 where "S_IFSOCK = 0xC000"
definition TYPE_MASK :: u16 where "TYPE_MASK = 0xF000"

lemmas ext4_consts [ext4_defs] =
  EXTENT_HEADER_MAGIC_def XATTR_HEADER_MAGIC_def ROOT_INODE_def FIRST_INODE_def INODE_EXTRA_SIZE_def
  EXTRA_ISIZE_def XATTR_INODE_HEADER_SIZE_def XATTR_BLOCK_HEADER_SIZE_def MAX_LINKS_def
  EXT4_NAME_LEN_def MAX_BLOCKS_PER_EXTENT_def MAX_FILE_SIZE_def INODE_BLOCK_SIZE_def
  inode_flags_HUGE_FILE_def inode_flags_EXTENTS_def

lemmas mode_consts [ext4_defs] =
  S_IFIFO_def S_IFCHR_def S_IFDIR_def S_IFBLK_def S_IFREG_def S_IFLNK_def S_IFSOCK_def TYPE_MASK_def

datatype FileType = Unknown | Regular | Directory | Character | Block | Fifo | Socket | SymbolicLink

definition FileType_from_mode :: "u16 \<Rightarrow> FileType" where
  "FileType_from_mode mode =
     (let t = mode AND TYPE_MASK in
      if t = S_IFREG then Regular
      else if t = S_IFDIR then Directory
      else if t = S_IFCHR then Character
      else if t = S_IFBLK then Block
      else if t = S_IFIFO then Fifo
      else if t = S_IFSOCK then Socket
      else if t = S_IFLNK then SymbolicLink
      else Unknown)"

text \<open>\<open>file_type as u8\<close>: the discriminants of the \<open>repr(u8)\<close> enum.\<close>

fun FileType_as_u8 :: "FileType \<Rightarrow> u8" where
  "FileType_as_u8 Unknown = 0"
| "FileType_as_u8 Regular = 1"
| "FileType_as_u8 Directory = 2"
| "FileType_as_u8 Character = 3"
| "FileType_as_u8 Block = 4"
| "FileType_as_u8 Fifo = 5"
| "FileType_as_u8 Socket = 6"
| "FileType_as_u8 SymbolicLink = 7"

definition make_mode :: "u16 \<Rightarrow> u16 \<Rightarrow> u16" where
  "make_mode file_type perm = file_type OR perm"

definition is_dir :: "u16 \<Rightarrow> bool" where
  "is_dir mode \<longleftrightarrow> mode AND TYPE_MASK = S_IFDIR"

definition is_reg :: "u16 \<Rightarrow> bool" where
  "is_reg mode \<longleftrightarrow> mode AND TYPE_MASK = S_IFREG"

definition is_link :: "u16 \<Rightarrow> bool" where
  "is_link mode \<longleftrightarrow> mode AND TYPE_MASK = S_IFLNK"

lemmas mode_tests [ext4_defs] = make_mode_def is_dir_def is_reg_def is_link_def

lemma mode_exclusive:
  "is_dir m \<Longrightarrow> \<not> is_reg m \<and> \<not> is_link m"
  "is_reg m \<Longrightarrow> \<not> is_dir m \<and> \<not> is_link m"
  "is_link m \<Longrightarrow> \<not> is_dir m \<and> \<not> is_reg m"
  by (simp_all add: ext4_defs)

section \<open>Inode helpers\<close>

text \<open>
  \<open>timestamp_now\<close> reads the clock; its seconds and nanoseconds since the epoch are arguments.
\<close>

definition timestamp_now :: "u64 \<Rightarrow> u32 \<Rightarrow> u32 \<times> u32" where
  "timestamp_now secs nanos =
     (let lo = ucast secs;
          epoch_bits = ucast (drop_bit 32 secs AND 3);
          extra = epoch_bits OR push_bit 2 nanos
      in (lo, extra))"

definition Inode_default :: Inode where
  "Inode_default = \<lparr>
     i_mode = 0, i_uid = 0, i_size_lo = 0, i_atime = 0, i_ctime = 0, i_mtime = 0, i_dtime = 0,
     i_gid = 0, i_links_count = 0, i_blocks_lo = 0, i_flags = 0, i_version = 0,
     i_block = replicate INODE_BLOCK_SIZE 0, i_generation = 0, i_xattr_block_lo = 0, i_size_hi = 0,
     i_obsolete_fragment_addr = 0, i_blocks_hi = 0, i_xattr_block_hi = 0, i_uid_hi = 0, i_gid_hi = 0,
     i_checksum_lo = 0, i_reserved = 0, i_extra_isize = 0, i_checksum_hi = 0, i_ctime_extra = 0,
     i_mtime_extra = 0, i_atime_extra = 0, i_crtime = 0, i_crtime_extra = 0, i_version_hi = 0,
     i_projid = 0, i_inline_xattrs = replicate 96 0\<rparr>"

definition root_inode :: "u32 \<times> u32 \<Rightarrow> Inode" where
  "root_inode now =
     Inode_default\<lparr>i_mode := S_IFDIR OR 0x1ED, i_links_count := 2, i_flags := inode_flags_HUGE_FILE,
       i_extra_isize := EXTRA_ISIZE, i_atime := fst now, i_ctime := fst now, i_mtime := fst now,
       i_crtime := fst now, i_atime_extra := snd now, i_ctime_extra := snd now,
       i_mtime_extra := snd now, i_crtime_extra := snd now\<rparr>"

definition file_size :: "Inode \<Rightarrow> u64" where
  "file_size x = ucast (i_size_lo x) OR push_bit 32 (ucast (i_size_hi x))"

definition set_file_size :: "u64 \<Rightarrow> Inode \<Rightarrow> Inode" where
  "set_file_size n x = x\<lparr>i_size_lo := ucast n, i_size_hi := ucast (drop_bit 32 n)\<rparr>"

definition uid_full :: "Inode \<Rightarrow> u32" where
  "uid_full x = ucast (i_uid x) OR push_bit 16 (ucast (i_uid_hi x))"

definition gid_full :: "Inode \<Rightarrow> u32" where
  "gid_full x = ucast (i_gid x) OR push_bit 16 (ucast (i_gid_hi x))"

definition set_uid :: "u32 \<Rightarrow> Inode \<Rightarrow> Inode" where
  "set_uid uid x = x\<lparr>i_uid := ucast uid, i_uid_hi := ucast (drop_bit 16 uid)\<rparr>"

definition set_gid :: "u32 \<Rightarrow> Inode \<Rightarrow> Inode" where
  "set_gid gid x = x\<lparr>i_gid := ucast gid, i_gid_hi := ucast (drop_bit 16 gid)\<rparr>"

lemma split_u64: "ucast (ucast w :: u32) OR push_bit 32 (ucast (ucast (drop_bit 32 w) :: u32)) = (w :: u64)"
  by (rule bit_word_eqI) (auto simp: bit_simps)

lemma split_u32: "ucast (ucast w :: u16) OR push_bit 16 (ucast (ucast (drop_bit 16 w) :: u16)) = (w :: u32)"
  by (rule bit_word_eqI) (auto simp: bit_simps)

lemma file_size_set [simp]: "file_size (set_file_size n x) = n"
  by (simp add: file_size_def set_file_size_def split_u64)

lemma owner_set [simp]:
  "uid_full (set_uid u x) = u" "gid_full (set_gid g x) = g"
  "uid_full (set_gid g x) = uid_full x" "gid_full (set_uid u x) = gid_full x"
  by (simp_all add: uid_full_def gid_full_def set_uid_def set_gid_def split_u32)

lemma Inode_default_wf [simp]: "Inode_wf Inode_default"
  by (simp add: Inode_wf_def Inode_default_def INODE_BLOCK_SIZE_def)

lemma root_inode_wf [simp]: "Inode_wf (root_inode now)"
  using Inode_default_wf by (simp add: Inode_wf_def root_inode_def)

section \<open>Group descriptor checksums\<close>

fun crc16_bits :: "nat \<Rightarrow> u16 \<Rightarrow> u16" where
  "crc16_bits 0 crc = crc"
| "crc16_bits (Suc n) crc =
     crc16_bits n (if crc AND 1 \<noteq> 0 then drop_bit 1 crc XOR 0xA001 else drop_bit 1 crc)"

fun crc16 :: "u16 \<Rightarrow> bytes \<Rightarrow> u16" where
  "crc16 crc [] = crc"
| "crc16 crc (b # buf) = crc16 (crc16_bits 8 (crc XOR ucast b)) buf"

definition group_descriptor :: "bytes \<Rightarrow> u32 \<Rightarrow> GroupDescriptor \<Rightarrow> u16 option" where
  "group_descriptor uuid group_nr gd = do {
     tmp \<leftarrow> GroupDescriptor_write_to gd (replicate 32 0);
     body \<leftarrow> get_bytes 0x1E tmp 0;
     Some (crc16 (crc16 (crc16 0xFFFF uuid) (to_le_bytes group_nr)) body)
   }"

lemma crc16_append: "crc16 crc (a @ b) = crc16 (crc16 crc a) b"
  by (induction crc a rule: crc16.induct) (simp_all del: crc16_bits.simps)

text \<open>
  Each step of the checksum is injective (the polynomial has its top bit set), so an input that
  differs in one byte has another checksum.
\<close>

definition crc_step :: "u16 \<Rightarrow> u16" where
    "crc_step c = (if c AND 1 \<noteq> 0 then drop_bit 1 c XOR 0xA001 else drop_bit 1 c)"

lemma crc_step_inject: "crc_step c = crc_step d \<longleftrightarrow> c = d"
proof
  have low: "c AND 1 \<noteq> 0 \<longleftrightarrow> bit c 0" for c :: u16
    by (simp add: and_one_eq bit_0 odd_iff_mod_2_eq_one)
  have top: "bit (crc_step c) 15 \<longleftrightarrow> bit c 0" for c
    by (simp add: crc_step_def low bit_simps impossible_bit)
  have rest: "bit c (Suc i) \<longleftrightarrow> (bit (crc_step c) i \<noteq> (bit c 0 \<and> bit (0xA001 :: u16) i))"
    if "i < 15" for c i
    using that by (auto simp: crc_step_def low bit_simps)
  assume eq: "crc_step c = crc_step d"
  show "c = d"
  proof (rule bit_word_eqI)
    fix i assume "i < LENGTH(16)"
    then show "bit c i = bit d i"
      using top [of c] top [of d] rest [of "i - 1" c] rest [of "i - 1" d] eq
      by (cases i) simp_all
  qed
qed simp

lemma crc16_bits_inject: "crc16_bits n c = crc16_bits n d \<longleftrightarrow> c = d"
proof (induction n arbitrary: c d)
  case (Suc n)
  have "crc16_bits (Suc n) x = crc16_bits n (crc_step x)" for x
    by (simp only: crc16_bits.simps crc_step_def)
  then show ?case by (simp only: Suc.IH crc_step_inject)
qed simp

lemma xor_right_inject: "(c :: 'a::len word) XOR b = d XOR b \<longleftrightarrow> c = d"
  by (metis xor.assoc xor.right_neutral xor_self_eq)

lemma crc16_inject: "crc16 c buf = crc16 d buf \<longleftrightarrow> c = d"
  by (induction buf arbitrary: c d)
     (simp_all only: crc16.simps crc16_bits_inject xor_right_inject)

lemma ucast_u8_u16_inject: "(ucast (x :: u8) :: u16) = ucast y \<longleftrightarrow> x = y"
  by transfer (simp add: min_def)

lemma crc16_byte: "crc16 c (a @ x # b) = crc16 c (a @ y # b) \<longleftrightarrow> x = y"
  by (simp only: crc16_append crc16.simps crc16_inject crc16_bits_inject)
     (metis ucast_u8_u16_inject xor_right_inject xor.commute)
section \<open>Alignment and signed readings\<close>

fun unwrap_or :: "'a option \<Rightarrow> 'a \<Rightarrow> 'a" where
  "unwrap_or (Some x) d = x"
| "unwrap_or None d = d"

definition align_up :: "nat \<Rightarrow> nat \<Rightarrow> nat" where
  "align_up n align = nat ((int n + int align - 1) AND NOT (int align - 1))"

lemma sint_small:
  assumes "unat (w :: u32) < 2 ^ 31"
  shows "sint w = int (unat w)"
proof -
  have u: "uint w = int (unat w)" by simp
  have "int (unat w) < int (2 ^ 31)" using assms by (simp only: of_nat_less_iff)
  then have "uint w < 2 ^ 31" by (simp only: u of_nat_power of_nat_numeral)
  then have "signed_take_bit 31 (uint w) = uint w"
    by (intro signed_take_bit_int_eq_self) (simp_all add: order_trans [OF _ uint_ge_0])
  with u show ?thesis by (simp add: sint_uint)
qed

lemma scast_small:
  assumes "unat (w :: u32) < 2 ^ 31"
  shows "unat (scast w :: u64) = unat w"
proof -
  have "(scast w :: u64) = word_of_nat (unat w)" using sint_small [OF assms] by (simp add: scast_eq)
  then show ?thesis using assms by (simp add: unsigned_ucast_eq take_bit_nat_eq_self)
qed

lemma and_not_mask: "(k :: int) AND NOT (mask n) = push_bit n (drop_bit n k)"
proof (rule bit_eqI)
  fix i
  show "bit (k AND NOT (mask n)) i = bit (push_bit n (drop_bit n k)) i"
    by (cases "i < n")
       (auto simp: bit_push_bit_iff bit_drop_bit_eq bit_and_iff bit_not_iff bit_mask_iff)
qed

lemma align_up_4: "align_up n 4 = 4 * ((n + 3) div 4)"
proof -
  have "int 4 - 1 = (mask 2 :: int)" by (simp add: mask_eq_exp_minus_1)
  moreover have "int n + int 4 - 1 = int (n + 3)" by simp
  ultimately have "align_up n 4 = nat (push_bit 2 (drop_bit 2 (int (n + 3))))"
    by (simp only: align_up_def and_not_mask)
  also have "push_bit 2 (drop_bit 2 (int (n + 3))) = int (4 * ((n + 3) div 4))"
    by (simp only: push_bit_eq_mult drop_bit_eq_div zdiv_int of_nat_mult) simp
  finally show ?thesis by (simp only: nat_int)
qed

lemma align_up_bounds: "n \<le> align_up n 4" "align_up n 4 < n + 4"
  by (simp_all add: align_up_4)

lemma unat_of_nat_diff:
  assumes "b \<le> a" "a < 2 ^ 16"
  shows "unat (word_of_nat a - word_of_nat b :: u16) = a - b"
proof -
  have "word_of_nat a - word_of_nat b = (word_of_nat (a - b) :: u16)" using assms(1) by (simp add: of_nat_diff)
  then show ?thesis using assms(2) by (simp add: unat_of_nat)
qed

text \<open>The bytes the checksum of a group covers: all of the descriptor but the checksum itself.\<close>

definition checksum_input :: "bytes \<Rightarrow> u32 \<Rightarrow> GroupDescriptor \<Rightarrow> bytes" where
  "checksum_input uuid group_nr gd = uuid @ to_le_bytes group_nr @ take 0x1E (GroupDescriptor_bytes gd)"

lemma group_descriptor_crc: "group_descriptor uuid n gd = Some (crc16 0xFFFF (checksum_input uuid n gd))"
proof -
  have len: "length (GroupDescriptor_bytes gd) = 32" by (rule gdc.length_enc) simp
  then have "GroupDescriptor_write_to gd (replicate 32 0) = Some (GroupDescriptor_bytes gd)"
    by (simp add: gdc.write_enc put_bytes_0)
  then show ?thesis
    using len by (simp add: group_descriptor_def get_bytes_def checksum_input_def crc16_append del: crc16.simps)
qed

text \<open>
  Claim C30. The checksum of a group descriptor can always be computed, does not depend on the checksum
  stored in the descriptor, and tells apart any two inputs (filesystem UUID, group number, descriptor)
  whose covered bytes differ in a single byte.
\<close>

theorem group_checksum_detects_byte:
  assumes "checksum_input uuid n gd = a @ x # b" "checksum_input uuid' n' gd' = a @ y # b"
  shows "(group_descriptor uuid n gd = group_descriptor uuid' n' gd' \<longleftrightarrow> x = y) \<and>
    group_descriptor uuid n gd \<noteq> None \<and>
    group_descriptor uuid n (gd\<lparr>gd_checksum := c\<rparr>) = group_descriptor uuid n gd"
proof -
  have "checksum_input uuid n (gd\<lparr>gd_checksum := c\<rparr>) = checksum_input uuid n gd"
    by (simp add: checksum_input_def GroupDescriptor_bytes_def)
  then show ?thesis using assms by (simp add: group_descriptor_crc crc16_byte)
qed

definition demo_group :: GroupDescriptor where
  "demo_group =
     \<lparr>gd_block_bitmap_lo = 0x123, gd_inode_bitmap_lo = 0x124, gd_inode_table_lo = 0x200,
      gd_free_blocks_count_lo = 1000, gd_free_inodes_count_lo = 200, gd_used_dirs_count_lo = 0,
      gd_flags = 3, gd_exclude_bitmap_lo = 0, gd_block_bitmap_csum_lo = 0, gd_inode_bitmap_csum_lo = 0,
      gd_itable_unused_lo = 8192, gd_checksum = 0xFFFF\<rparr>"

theorem group_checksum_detects_byte_witness:
  "group_descriptor (1 # replicate 15 0) 7 demo_group \<noteq> group_descriptor (2 # replicate 15 0) 7 demo_group"
proof -
  have "checksum_input (u # replicate 15 0) 7 demo_group =
      [] @ u # replicate 15 0 @ to_le_bytes (7 :: u32) @ take 0x1E (GroupDescriptor_bytes demo_group)" for u
    by (simp add: checksum_input_def)
  then show ?thesis
    using group_checksum_detects_byte [of "1 # replicate 15 0" 7 demo_group "[]" 1 _ "2 # replicate 15 0" 7 demo_group 2]
    by simp
qed

end
