(* ===== verification/Ext4_Dir.thy ===== *)
theory Ext4_Dir
  imports Ext4_Types
begin

text \<open>
  Directory blocks (\<open>common/disk-image/src/ext4/dir.rs\<close>): writing entries into blocks and
  parsing a block. The writer is the \<open>Vec<u8>\<close> the formatter passes, whose writes do not fail; the
  \<open>i32\<close> counter \<open>left\<close> is a 32-bit word read as a signed number. The parser's loop is a
  partial function whose \<open>None\<close> is a loop that does not end.
\<close>

section \<open>Writing\<close>

definition dir_file_type :: "u16 \<Rightarrow> u8" where
  "dir_file_type mode = FileType_as_u8 (FileType_from_mode mode)"

definition finish_dir_entry_block :: "u32 \<Rightarrow> bytes \<times> u32 \<Rightarrow> (bytes \<times> u32) option" where
  "finish_dir_entry_block block_size st = (case st of (writer, left) \<Rightarrow>
     if sint left \<le> 0 then Some (writer, block_size)
     else
       let remaining = unat (scast left :: u64);
           term = \<lparr>de_inode = 0, de_rec_len = word_of_nat remaining, de_name_len = 0, de_file_type = 0\<rparr>
       in do {
         header_buf \<leftarrow> DirectoryEntry_write_to term (replicate 8 0);
         if remaining < 8 then None
         else Some (writer @ header_buf @ replicate (remaining - 8) 0, block_size)
       })"

definition write_dir_entry ::
  "string \<Rightarrow> u32 \<Rightarrow> u16 \<Rightarrow> u32 option \<Rightarrow> u16 option \<Rightarrow> u32 \<Rightarrow> bytes \<times> u32 \<Rightarrow> (bytes \<times> u32) option" where
  "write_dir_entry name inode mode link_inode link_mode block_size st =
     (let name_bytes = as_bytes name;
          entry_size = align_up (8 + length name_bytes) 4;
          min_trailing = 12
      in do {
        (writer, left) \<leftarrow>
          (if unat (scast (snd st) :: u64) < entry_size + min_trailing
           then finish_dir_entry_block block_size st else Some st);
        let actual_inode = unwrap_or link_inode inode;
            actual_mode = unwrap_or link_mode mode;
            entry = \<lparr>de_inode = actual_inode, de_rec_len = word_of_nat entry_size,
                     de_name_len = word_of_nat (length name_bytes),
                     de_file_type = dir_file_type actual_mode\<rparr>;
            padding = entry_size - 8 - length name_bytes
        in do {
          header_buf \<leftarrow> DirectoryEntry_write_to entry (replicate 8 0);
          Some (writer @ header_buf @ name_bytes @ take padding (replicate 4 0),
                left - word_of_nat entry_size)
        }
      })"

section \<open>Parsing\<close>

partial_function (option) parse_dir_loop ::
  "bytes \<Rightarrow> nat \<Rightarrow> (string \<times> u32) list \<Rightarrow> (string \<times> u32) list option" where
  "parse_dir_loop data offset entries =
     (if offset + 8 \<le> length data then do {
        entry \<leftarrow> DirectoryEntry_read_from (drop offset data);
        if de_rec_len entry = 0 then Some entries
        else
          let name_start = offset + 8;
              name_end = name_start + unat (de_name_len entry);
              entries =
                (if de_inode entry \<noteq> 0 \<and> de_name_len entry > 0 \<and> name_end \<le> length data
                 then entries @ [(from_utf8_lossy (of_bytes (take (name_end - name_start)
                                    (drop name_start data))), de_inode entry)]
                 else entries)
          in parse_dir_loop data (offset + unat (de_rec_len entry)) entries
      } else Some entries)"

definition parse_dir_entries :: "bytes \<Rightarrow> (string \<times> u32) list option" where
  "parse_dir_entries data = parse_dir_loop data 0 []"


section \<open>Round trip\<close>

text \<open>The bytes of one entry and of the terminator that fills the rest of a block.\<close>

definition entry_bytes :: "string \<Rightarrow> u32 \<Rightarrow> u8 \<Rightarrow> bytes" where
  "entry_bytes name ino ft =
     (let n = align_up (8 + length name) 4 in
      DirectoryEntry_bytes \<lparr>de_inode = ino, de_rec_len = word_of_nat n,
        de_name_len = word_of_nat (length name), de_file_type = ft\<rparr> @
      as_bytes name @ replicate (n - 8 - length name) 0)"

definition term_bytes :: "nat \<Rightarrow> bytes" where
  "term_bytes n =
     DirectoryEntry_bytes \<lparr>de_inode = 0, de_rec_len = word_of_nat n, de_name_len = 0, de_file_type = 0\<rparr> @
     replicate (n - 8) 0"

lemma DirectoryEntry_write_new [simp]: "DirectoryEntry_write_to e (replicate 8 0) = Some (DirectoryEntry_bytes e)"
  by (simp add: dec.write_enc put_bytes_0 dec.length_enc)

lemma length_DirectoryEntry_bytes [simp]: "length (DirectoryEntry_bytes e) = 8"
  by (rule dec.length_enc) simp

lemma length_entry_bytes [simp]: "length (entry_bytes name ino ft) = align_up (8 + length name) 4"
  using align_up_bounds(1) [of "8 + length name"] by (simp add: entry_bytes_def Let_def)

lemma length_term_bytes [simp]: "8 \<le> n \<Longrightarrow> length (term_bytes n) = n"
  by (simp add: term_bytes_def)

lemma finish_dir_entry_block_bytes:
  assumes "8 \<le> unat left" "unat left < 2 ^ 31"
  shows "finish_dir_entry_block bs (w, left) = Some (w @ term_bytes (unat left), bs)"
proof -
  have "\<not> sint left \<le> 0" using assms sint_small [of left] by linarith
  then show ?thesis
    using assms by (simp add: finish_dir_entry_block_def scast_small term_bytes_def Let_def)
qed

lemma write_dir_entry_room:
  assumes "align_up (8 + length name) 4 + 12 \<le> unat left" "unat left < 2 ^ 31"
  shows "write_dir_entry name ino mode li lm bs (w, left) =
           Some (w @ entry_bytes name (unwrap_or li ino) (dir_file_type (unwrap_or lm mode)),
                 left - word_of_nat (align_up (8 + length name) 4))"
proof -
  have "align_up (8 + length name) 4 - (8 + length name) \<le> 4"
    using align_up_bounds [of "8 + length name"] by linarith
  then show ?thesis
    using assms by (simp add: write_dir_entry_def scast_small entry_bytes_def Let_def min_def)
qed

lemma write_dir_entry_full:
  assumes "unat left < align_up (8 + length name) 4 + 12" "8 \<le> unat left"
    "align_up (8 + length name) 4 + 12 \<le> unat bs" "unat bs < 2 ^ 31" "unat left < 2 ^ 31"
  shows "write_dir_entry name ino mode li lm bs (w, left) =
           write_dir_entry name ino mode li lm bs (w @ term_bytes (unat left), bs)"
  using assms by (simp add: write_dir_entry_def scast_small finish_dir_entry_block_bytes)

lemma parse_entry:
  assumes "length name \<le> 255" "name \<noteq> []" "valid_utf8 name" "ino \<noteq> 0"
  shows "parse_dir_loop (pre @ entry_bytes name ino ft @ rest) (length pre) acc =
         parse_dir_loop (pre @ entry_bytes name ino ft @ rest)
           (length pre + align_up (8 + length name) 4) (acc @ [(name, ino)])"
proof -
  let ?n = "align_up (8 + length name) 4"
  let ?e = "\<lparr>de_inode = ino, de_rec_len = word_of_nat ?n, de_name_len = word_of_nat (length name),
             de_file_type = ft\<rparr>"
  let ?data = "pre @ entry_bytes name ino ft @ rest"
  have n: "8 + length name \<le> ?n" "?n < 2 ^ 16" using align_up_bounds [of "8 + length name"] assms(1) by simp_all
  then have rl: "unat (word_of_nat ?n :: u16) = ?n" by (simp add: unat_of_nat)
  then have "word_of_nat ?n \<noteq> (0 :: u16)" using n(1) by auto
  moreover have nl: "unat (word_of_nat (length name) :: u8) = length name" using assms(1) by (simp add: unat_of_nat)
  moreover have "word_of_nat (length name) > (0 :: u8)" using nl assms(2) by (auto simp: word_greater_zero_iff)
  moreover have rd: "DirectoryEntry_read_from (drop (length pre) ?data) = Some ?e"
    by (simp add: entry_bytes_def Let_def dec.read_enc)
  moreover have "take (length name) (drop (length pre + 8) ?data) = as_bytes name"
    by (simp add: entry_bytes_def Let_def)
  ultimately show ?thesis
    using assms n rl by (subst parse_dir_loop.simps) (simp add: from_utf8_lossy_valid)
qed

lemma parse_term:
  assumes "8 \<le> n" "n < 2 ^ 16"
  shows "parse_dir_loop (pre @ term_bytes n) (length pre) acc = Some acc"
proof -
  have rl: "unat (word_of_nat n :: u16) = n" using assms by (simp add: unat_of_nat)
  then have "word_of_nat n \<noteq> (0 :: u16)" using assms by auto
  moreover have "DirectoryEntry_read_from (drop (length pre) (pre @ term_bytes n)) =
      Some \<lparr>de_inode = 0, de_rec_len = word_of_nat n, de_name_len = 0, de_file_type = 0\<rparr>"
    by (simp add: term_bytes_def dec.read_enc)
  moreover have "parse_dir_loop (pre @ term_bytes n) (length pre + n) acc = Some acc"
    using assms by (subst parse_dir_loop.simps) simp
  ultimately show ?thesis using assms rl by (subst parse_dir_loop.simps) simp
qed

text \<open>
  A directory is written as one entry after the other and a final terminator
  (\<open>commit_directories\<close> of \<open>formatter.rs\<close>).
\<close>

record dir_item =
  di_name :: string
  di_inode :: u32
  di_mode :: u16
  di_link :: "u32 option"
  di_link_mode :: "u16 option"

fun write_dir_entries :: "u32 \<Rightarrow> dir_item list \<Rightarrow> bytes \<times> u32 \<Rightarrow> (bytes \<times> u32) option" where
  "write_dir_entries bs [] st = Some st"
| "write_dir_entries bs (e # es) st = do {
     st \<leftarrow> write_dir_entry (di_name e) (di_inode e) (di_mode e) (di_link e) (di_link_mode e) bs st;
     write_dir_entries bs es st
   }"

definition write_directory :: "u32 \<Rightarrow> dir_item list \<Rightarrow> bytes option" where
  "write_directory bs es = do {
     st \<leftarrow> write_dir_entries bs es ([], bs);
     (buf, left) \<leftarrow> finish_dir_entry_block bs st;
     Some buf
   }"

definition item_ok :: "dir_item \<Rightarrow> bool" where
  "item_ok e \<longleftrightarrow> di_name e \<noteq> [] \<and> length (di_name e) \<le> EXT4_NAME_LEN \<and> valid_utf8 (di_name e) \<and>
     unwrap_or (di_link e) (di_inode e) \<noteq> 0"

definition item_entry :: "dir_item \<Rightarrow> string \<times> u32" where
  "item_entry e = (di_name e, unwrap_or (di_link e) (di_inode e))"

text \<open>
  \<open>dir_inv\<close>: the output is a list of full blocks followed by a part of one; the full blocks parse
  to the entries written to them, and parsing a block that starts with the part yields the rest.
\<close>

definition parses_to :: "bytes \<Rightarrow> (string \<times> u32) list \<Rightarrow> bool" where
  "parses_to cur es \<longleftrightarrow>
     (\<forall>rest acc. parse_dir_loop (cur @ rest) 0 acc = parse_dir_loop (cur @ rest) (length cur) (acc @ es))"

definition blocks_parse :: "nat \<Rightarrow> bytes list \<Rightarrow> (string \<times> u32) list list \<Rightarrow> bool" where
  "blocks_parse N blocks ess \<longleftrightarrow>
     list_all2 (\<lambda>b es. length b = N \<and> parse_dir_entries b = Some es) blocks ess"

definition dir_inv :: "nat \<Rightarrow> (string \<times> u32) list \<Rightarrow> bytes \<times> u32 \<Rightarrow> bool" where
  "dir_inv N es st \<longleftrightarrow> (\<exists>blocks cur ess es2.
     fst st = concat blocks @ cur \<and> blocks_parse N blocks ess \<and> length cur + unat (snd st) = N \<and>
     12 \<le> unat (snd st) \<and> es = concat ess @ es2 \<and> parses_to cur es2)"

lemma parses_to_entry:
  assumes "parses_to cur es" "length name \<le> 255" "name \<noteq> []" "valid_utf8 name" "ino \<noteq> 0"
  shows "parses_to (cur @ entry_bytes name ino ft) (es @ [(name, ino)])"
  using assms parse_entry [of name ino cur ft] by (simp add: parses_to_def)

lemma parses_to_term:
  assumes "parses_to cur es" "8 \<le> n" "n < 2 ^ 16"
  shows "parse_dir_entries (cur @ term_bytes n) = Some es"
  using assms parse_term [of n cur es] by (simp add: parses_to_def parse_dir_entries_def)

lemma dir_inv_finish:
  assumes "dir_inv N es (w, left)" "N < 2 ^ 16"
  shows "\<exists>blocks ess. w @ term_bytes (unat left) = concat blocks \<and> blocks_parse N blocks ess \<and> es = concat ess"
proof -
  obtain blocks cur ess es2 where w: "w = concat blocks @ cur" "blocks_parse N blocks ess"
    "length cur + unat left = N" "12 \<le> unat left" "es = concat ess @ es2" "parses_to cur es2"
    using assms(1) unfolding dir_inv_def by auto
  have "parse_dir_entries (cur @ term_bytes (unat left)) = Some es2"
    using w assms(2) by (intro parses_to_term) simp_all
  then have "blocks_parse N (blocks @ [cur @ term_bytes (unat left)]) (ess @ [es2])"
    using w by (simp add: blocks_parse_def list_all2_appendI)
  then show ?thesis using w by (intro exI [of _ "blocks @ [cur @ term_bytes (unat left)]"] exI [of _ "ess @ [es2]"]) simp
qed

lemma dir_inv_fresh:
  assumes "blocks_parse N blocks ess" "unat bs = N" "12 \<le> N"
  shows "dir_inv N (concat ess) (concat blocks, bs)"
  unfolding dir_inv_def
  by (rule exI [of _ blocks], rule exI [of _ "[]"], rule exI [of _ ess], rule exI [of _ "[]"])
     (use assms in \<open>simp add: parses_to_def\<close>)

lemma dir_inv_room:
  assumes "dir_inv N es (w, left)" "item_ok e" "N < 2 ^ 16"
    and room: "align_up (8 + length (di_name e)) 4 + 12 \<le> unat left"
  shows "\<exists>st. write_dir_entry (di_name e) (di_inode e) (di_mode e) (di_link e) (di_link_mode e) bs (w, left) =
           Some st \<and> dir_inv N (es @ [item_entry e]) st"
proof -
  let ?n = "align_up (8 + length (di_name e)) 4"
  obtain blocks cur ess es2 where w: "w = concat blocks @ cur" "blocks_parse N blocks ess"
    "length cur + unat left = N" "12 \<le> unat left" "es = concat ess @ es2" "parses_to cur es2"
    using assms(1) unfolding dir_inv_def by auto
  have small: "unat left < 2 ^ 31" using w(3) assms(3) by simp
  obtain b where b: "b = entry_bytes (di_name e) (unwrap_or (di_link e) (di_inode e))
      (dir_file_type (unwrap_or (di_link_mode e) (di_mode e)))" by simp
  have "unat (left - word_of_nat ?n) = unat left - ?n"
    using room small by (simp add: unat_sub word_le_nat_alt unat_of_nat)
  moreover have "parses_to (cur @ b) (es2 @ [item_entry e])"
    using w(6) assms(2) unfolding b item_entry_def
    by (intro parses_to_entry) (simp_all add: item_ok_def EXT4_NAME_LEN_def)
  ultimately have "dir_inv N (es @ [item_entry e]) (w @ b, left - word_of_nat ?n)"
    unfolding dir_inv_def using w room
    by (intro exI [of _ blocks] exI [of _ "cur @ b"] exI [of _ ess] exI [of _ "es2 @ [item_entry e]"])
       (simp add: b)
  then show ?thesis using write_dir_entry_room [OF room small] b by simp
qed

lemma dir_inv_write:
  assumes inv: "dir_inv N es (w, left)" and e: "item_ok e" and N: "unat bs = N" "276 \<le> N" "N < 2 ^ 16"
  shows "\<exists>st. write_dir_entry (di_name e) (di_inode e) (di_mode e) (di_link e) (di_link_mode e) bs (w, left) =
           Some st \<and> dir_inv N (es @ [item_entry e]) st"
proof -
  let ?n = "align_up (8 + length (di_name e)) 4"
  have "length (di_name e) \<le> 255" using e by (simp add: item_ok_def EXT4_NAME_LEN_def)
  then have len: "?n + 12 \<le> N" using N by (simp add: align_up_4) presburger
  show ?thesis
  proof (cases "?n + 12 \<le> unat left")
    case True
    then show ?thesis using dir_inv_room [OF inv e N(3)] by blast
  next
    case False
    have left: "12 \<le> unat left" "unat left \<le> N" using inv by (auto simp: dir_inv_def)
    obtain blocks ess where "w @ term_bytes (unat left) = concat blocks" "blocks_parse N blocks ess" "es = concat ess"
      using dir_inv_finish [OF inv N(3)] by blast
    then have "dir_inv N es (w @ term_bytes (unat left), bs)" using dir_inv_fresh N by simp
    moreover have "write_dir_entry (di_name e) (di_inode e) (di_mode e) (di_link e) (di_link_mode e) bs (w, left) =
        write_dir_entry (di_name e) (di_inode e) (di_mode e) (di_link e) (di_link_mode e) bs
          (w @ term_bytes (unat left), bs)"
      using False left len N by (intro write_dir_entry_full) simp_all
    ultimately show ?thesis using dir_inv_room [of N es _ bs e bs] e N len by simp
  qed
qed

lemma dir_inv_write_all:
  assumes "dir_inv N es st" "list_all item_ok xs" "unat bs = N" "276 \<le> N" "N < 2 ^ 16"
  shows "\<exists>st'. write_dir_entries bs xs st = Some st' \<and> dir_inv N (es @ map item_entry xs) st'"
  using assms
proof (induction xs arbitrary: es st)
  case (Cons x xs)
  obtain w left where st: "st = (w, left)" by (cases st)
  obtain st1 where st1: "write_dir_entry (di_name x) (di_inode x) (di_mode x) (di_link x) (di_link_mode x) bs st =
      Some st1" "dir_inv N (es @ [item_entry x]) st1"
    using dir_inv_write [of N es w left x bs] Cons.prems st by auto
  then show ?case using Cons.IH [OF st1(2)] Cons.prems by simp
qed simp

section \<open>What a reader finds\<close>

text \<open>\<open>get_dir_entries\<close> of \<open>reader.rs\<close> reads a directory block by block.\<close>

definition chunks :: "nat \<Rightarrow> 'a list \<Rightarrow> 'a list list" where
  "chunks n xs = map (\<lambda>i. take n (drop (i * n) xs)) [0..<length xs div n]"

lemma take_drop_concat:
  "list_all (\<lambda>b. length b = n) bs \<Longrightarrow> i < length bs \<Longrightarrow> take n (drop (i * n) (concat bs)) = bs ! i"
proof (induction bs arbitrary: i)
  case (Cons b bs)
  show ?case
  proof (cases i)
    case (Suc k)
    then have "drop (i * n) (concat (b # bs)) = drop (k * n) (concat bs)" using Cons.prems by simp
    then show ?thesis using Cons Suc by simp
  qed (use Cons.prems in simp)
qed simp

lemma length_concat_blocks: "list_all (\<lambda>b. length b = n) bs \<Longrightarrow> length (concat bs) = length bs * n"
  by (induction bs) auto

lemma chunks_concat:
  assumes "list_all (\<lambda>b. length b = n) bs" "0 < n"
  shows "chunks n (concat bs) = bs"
proof (rule nth_equalityI)
  show len: "length (chunks n (concat bs)) = length bs"
    using assms by (simp add: chunks_def length_concat_blocks)
  fix i assume "i < length (chunks n (concat bs))"
  then have "i < length bs" using len by simp
  then show "chunks n (concat bs) ! i = bs ! i"
    using assms by (simp add: chunks_def length_concat_blocks take_drop_concat del: length_concat)
qed

lemma write_directory_parses:
  assumes "list_all item_ok es" "276 \<le> unat bs" "unat bs < 2 ^ 16"
  shows "\<exists>out ess. write_directory bs es = Some out \<and> unat bs dvd length out \<and>
           map parse_dir_entries (chunks (unat bs) out) = map Some ess \<and> concat ess = map item_entry es"
proof -
  let ?N = "unat bs"
  have "dir_inv ?N [] ([], bs)" using dir_inv_fresh [of ?N "[]" "[]" bs] assms by (simp add: blocks_parse_def)
  then obtain w left where st: "write_dir_entries bs es ([], bs) = Some (w, left)" "dir_inv ?N (map item_entry es) (w, left)"
    using dir_inv_write_all [of ?N "[]" "([], bs)" es bs] assms by auto
  have left: "12 \<le> unat left" "unat left \<le> ?N" using st(2) by (auto simp: dir_inv_def)
  obtain blocks ess where out: "w @ term_bytes (unat left) = concat blocks" "blocks_parse ?N blocks ess"
    "map item_entry es = concat ess"
    using dir_inv_finish [OF st(2) assms(3)] by blast
  have len: "list_all (\<lambda>b. length b = ?N) blocks" and ps: "map parse_dir_entries blocks = map Some ess"
    using out(2) by (auto simp: blocks_parse_def list_all2_conv_all_nth list_all_length list_eq_iff_nth_eq)
  have "write_directory bs es = Some (concat blocks)"
    using st(1) left assms by (simp add: write_directory_def finish_dir_entry_block_bytes out(1))
  moreover have "?N dvd length (concat blocks)" by (simp only: length_concat_blocks [OF len] dvd_triv_right)
  ultimately show ?thesis using chunks_concat [OF len] ps out(3) assms by auto
qed

section \<open>Claims\<close>

lemma parse_dir_loop_bound:
  "\<exists>es. parse_dir_loop data offset entries = Some (entries @ es) \<and>
     length es \<le> length data - offset \<and> list_all (\<lambda>(name, ino). ino \<noteq> 0) es"
proof (induction "length data - offset" arbitrary: offset entries rule: less_induct)
  case less
  show ?case
  proof (cases "offset + 8 \<le> length data")
    case True
    then obtain e where e: "DirectoryEntry_read_from (drop offset data) = Some e"
      using dec.read_None [of "drop offset data"] by (cases "DirectoryEntry_read_from (drop offset data)") auto
    show ?thesis
    proof (cases "de_rec_len e = 0")
      case True
      then show ?thesis using e \<open>offset + 8 \<le> length data\<close> by (subst parse_dir_loop.simps) simp
    next
      case False
      let ?off = "offset + unat (de_rec_len e)"
      have "0 < unat (de_rec_len e)" using False by (simp add: unat_gt_0)
      then have less': "length data - ?off < length data - offset"
        using \<open>offset + 8 \<le> length data\<close> by linarith
      define new where "new =
        (if de_inode e \<noteq> 0 \<and> de_name_len e > 0 \<and> offset + 8 + unat (de_name_len e) \<le> length data
         then [(from_utf8_lossy (of_bytes (take (unat (de_name_len e)) (drop (offset + 8) data))), de_inode e)]
         else [])"
      have new: "length new \<le> 1" "list_all (\<lambda>(name, ino). ino \<noteq> 0) new" by (simp_all add: new_def)
      have step: "parse_dir_loop data offset entries = parse_dir_loop data ?off (entries @ new)"
        using e False \<open>offset + 8 \<le> length data\<close>
        by (subst parse_dir_loop.simps) (simp add: Let_def new_def)
      obtain es where "parse_dir_loop data ?off (entries @ new) = Some ((entries @ new) @ es)"
        "length es \<le> length data - ?off" "list_all (\<lambda>(name, ino). ino \<noteq> 0) es"
        using less [OF less', of "entries @ new"] by blast
      then show ?thesis using step new less' by (intro exI [of _ "new @ es"]) simp
    qed
  qed (subst parse_dir_loop.simps, simp)
qed

text \<open>
  Claim C29. On every block, well formed or not, the directory parser returns; it reports at most one
  entry per byte and no entry with inode number zero.
\<close>

theorem parse_dir_entries_terminates:
  "\<exists>es. parse_dir_entries data = Some es \<and> length es \<le> length data \<and> list_all (\<lambda>(name, ino). ino \<noteq> 0) es"
  using parse_dir_loop_bound [of data 0 "[]"] by (simp add: parse_dir_entries_def)

text \<open>
  Claim C7. Writing a directory never panics and yields whole blocks, and parsing the blocks one by
  one gives back exactly the entries written, in order, with the target's inode number for a hard
  link. The names are non-empty UTF-8 of at most 255 bytes and the block size leaves room for the
  longest entry and a terminator.
\<close>

theorem directory_roundtrip:
  assumes "list_all item_ok es" "276 \<le> unat bs" "unat bs < 2 ^ 16"
  shows "\<exists>out ess. write_directory bs es = Some out \<and> unat bs dvd length out \<and>
           map parse_dir_entries (chunks (unat bs) out) = map Some ess \<and> concat ess = map item_entry es"
  using assms by (rule write_directory_parses)

definition demo_items :: "dir_item list" where
  "demo_items =
     [\<lparr>di_name = ''.'', di_inode = 2, di_mode = 0x41ED, di_link = None, di_link_mode = None\<rparr>,
      \<lparr>di_name = ''..'', di_inode = 2, di_mode = 0x41ED, di_link = None, di_link_mode = None\<rparr>,
      \<lparr>di_name = ''link'', di_inode = 2, di_mode = 0x41ED, di_link = Some 12, di_link_mode = Some 0x81A4\<rparr>]"

theorem directory_roundtrip_witness:
  "\<exists>out ess. write_directory 4096 demo_items = Some out \<and> 4096 dvd length out \<and>
     map parse_dir_entries (chunks 4096 out) = map Some ess \<and>
     concat ess = [(''.'', 2), (''..'', 2), (''link'', 12)]"
proof -
  have "list_all item_ok demo_items" by code_simp
  then show ?thesis
    using directory_roundtrip [of demo_items 4096] by (simp add: demo_items_def item_entry_def)
qed

end
