(* ===== verification/Ext4_Xattr.thy ===== *)
theory Ext4_Xattr
  imports Ext4_Dir "HOL-Library.Product_Lexorder" "HOL-Library.Multiset"
begin

text \<open>
  Extended attributes (\<open>common/disk-image/src/ext4/xattr.rs\<close>): compression of names, sizes and
  hashes, the split between the inode and a separate block, and the two layouts. Arithmetic is that of
  a build without overflow checks; the claims show that no overflow and no panic occurs.
\<close>

section \<open>Names\<close>

definition XATTR_PREFIXES :: "(u8 \<times> string) list" where
  "XATTR_PREFIXES =
     [(1, ''user.''),
      (2, ''system.posix_acl_access''),
      (3, ''system.posix_acl_default''),
      (4, ''trusted.''),
      (6, ''security.''),
      (7, ''system.''),
      (8, ''system.richacl'')]"

record ExtendedAttribute =
  xa_name :: string
  xa_index :: u8
  xa_value :: bytes

definition compress_name :: "string \<Rightarrow> u8 \<times> string" where
  "compress_name name =
     (let (best_index, best_prefix_len) =
        foldl (\<lambda>(best_index, best_prefix_len) (idx, p).
                 if prefix p name \<and> length p > best_prefix_len then (idx, length p)
                 else (best_index, best_prefix_len))
              (0, 0) XATTR_PREFIXES
      in (best_index, drop best_prefix_len name))"

definition decompress_name :: "u8 \<Rightarrow> string \<Rightarrow> string" where
  "decompress_name index sfx =
     (case find (\<lambda>(idx, p). idx = index) XATTR_PREFIXES of
        Some (idx, p) \<Rightarrow> p @ sfx
      | None \<Rightarrow> sfx)"

definition ExtendedAttribute_new :: "string \<Rightarrow> bytes \<Rightarrow> ExtendedAttribute" where
  "ExtendedAttribute_new full_name value =
     (let (index, sfx) = compress_name full_name
      in \<lparr>xa_name = sfx, xa_index = index, xa_value = value\<rparr>)"

section \<open>Sizes and hashes\<close>

definition entry_size :: "ExtendedAttribute \<Rightarrow> u32" where
  "entry_size a = word_of_nat (align_up (length (xa_name a) + 16) 4)"

definition value_size :: "ExtendedAttribute \<Rightarrow> u32" where
  "value_size a = word_of_nat (align_up (length (xa_value a)) 4)"

definition total_size :: "ExtendedAttribute \<Rightarrow> u32" where
  "total_size a = entry_size a + value_size a"

definition NAME_HASH_SHIFT :: nat where "NAME_HASH_SHIFT = 5"
definition VALUE_HASH_SHIFT :: nat where "VALUE_HASH_SHIFT = 16"

definition hash_step :: "nat \<Rightarrow> u32 \<Rightarrow> u32 \<Rightarrow> u32" where
  "hash_step shift h w = push_bit shift h XOR drop_bit (8 * 4 - shift) h XOR w"

definition xattr_hash :: "ExtendedAttribute \<Rightarrow> u32" where
  "xattr_hash a =
     (let h = foldl (\<lambda>h b. hash_step NAME_HASH_SHIFT h (ucast b)) 0 (as_bytes (xa_name a));
          value = xa_value a;
          full_words = length value div 4;
          h = foldl (\<lambda>h i. hash_step VALUE_HASH_SHIFT h (from_le_bytes (take 4 (drop (i * 4) value))))
                h [0..<full_words];
          tail = length value mod 4
      in if tail > 0
         then hash_step VALUE_HASH_SHIFT h
                (from_le_bytes (drop (full_words * 4) value @ replicate (4 - tail) 0))
         else h)"

section \<open>Placement\<close>

record XattrState =
  xs_inode_capacity :: u32
  xs_block_capacity :: u32
  xs_inline_attrs :: "ExtendedAttribute list"
  xs_block_attrs :: "ExtendedAttribute list"
  xs_used_inline :: u32
  xs_used_block :: u32
  xs_inode_number :: u32

definition XattrState_new :: "u32 \<Rightarrow> u32 \<Rightarrow> u32 \<Rightarrow> XattrState" where
  "XattrState_new ino inode_capacity block_capacity =
     \<lparr>xs_inode_capacity = inode_capacity, xs_block_capacity = block_capacity,
      xs_inline_attrs = [], xs_block_attrs = [],
      xs_used_inline = XATTR_INODE_HEADER_SIZE, xs_used_block = XATTR_BLOCK_HEADER_SIZE,
      xs_inode_number = ino\<rparr>"

definition xattr_add :: "XattrState \<Rightarrow> ExtendedAttribute \<Rightarrow> (FormatError, XattrState) result" where
  "xattr_add s a =
     (if length (xa_name a) > EXT4_NAME_LEN
      then Err (FE_InvalidName (decompress_name (xa_index a) (xa_name a)))
      else
        let total = total_size a in
        if xs_used_inline s + total + 4 \<le> xs_inode_capacity s
        then Ok (s\<lparr>xs_used_inline := xs_used_inline s + total, xs_inline_attrs := xs_inline_attrs s @ [a]\<rparr>)
        else if xs_used_block s + total + 4 \<le> xs_block_capacity s
        then Ok (s\<lparr>xs_used_block := xs_used_block s + total, xs_block_attrs := xs_block_attrs s @ [a]\<rparr>)
        else Err (FE_XattrInsufficientSpace (xs_inode_number s)))"

definition has_inline :: "XattrState \<Rightarrow> bool" where
  "has_inline s \<longleftrightarrow> xs_inline_attrs s \<noteq> []"

definition has_block :: "XattrState \<Rightarrow> bool" where
  "has_block s \<longleftrightarrow> xs_block_attrs s \<noteq> []"

section \<open>Layout\<close>

definition write_xattr_entry :: "bytes \<Rightarrow> string \<Rightarrow> u8 \<Rightarrow> u16 \<Rightarrow> u32 \<Rightarrow> u32 \<Rightarrow> bytes option" where
  "write_xattr_entry buf name name_index voffset vsize hash =
     (let name_bytes = as_bytes name in do {
        buf \<leftarrow> put_u8 buf 0 (word_of_nat (length name_bytes));
        buf \<leftarrow> put_u8 buf 1 name_index;
        buf \<leftarrow> put_bytes buf 2 (to_le_bytes voffset);
        buf \<leftarrow> put_bytes buf 4 (to_le_bytes (0 :: u32));
        buf \<leftarrow> put_bytes buf 8 (to_le_bytes vsize);
        buf \<leftarrow> put_bytes buf 12 (to_le_bytes hash);
        put_bytes buf 16 name_bytes
      })"

text \<open>
  The loop of \<open>write_inline\<close> and \<open>write_block\<close>, which differ in the origin \<open>base\<close> of value
  offsets and in the hash they store. When \<open>value_end\<close> underflows, the loop stops at its
  entry check or panics at the slice that starts there.
\<close>

fun write_attrs :: "nat \<Rightarrow> (ExtendedAttribute \<Rightarrow> u32) \<Rightarrow> ExtendedAttribute list \<Rightarrow> bytes \<Rightarrow> nat \<Rightarrow> nat \<Rightarrow>
    (FormatError abort, bytes) result" where
  "write_attrs base hashf [] buf entry_offset value_end = Ok buf"
| "write_attrs base hashf (a # attrs) buf entry_offset value_end =
     (let val_size_aligned = align_up (length (xa_value a)) 4 in
      if entry_offset + 16 + length (xa_name a) > length buf then Err (Error FE_MalformedXattrBuffer)
      else if value_end < val_size_aligned then Err Panic
      else
        let value_end = value_end - val_size_aligned;
            rel_value_offset = word_of_nat value_end - word_of_nat base
        in rbind (ok_or (write_xattr_entry (drop entry_offset buf) (xa_name a) (xa_index a) rel_value_offset
                           (word_of_nat (length (xa_value a))) (hashf a)) Panic) (\<lambda>sub.
           rbind (ok_or (put_bytes (take entry_offset buf @ sub) value_end (xa_value a)) Panic) (\<lambda>buf.
             write_attrs base hashf attrs buf (entry_offset + align_up (16 + length (xa_name a)) 4) value_end)))"

definition write_inline :: "XattrState \<Rightarrow> (FormatError abort, bytes) result" where
  "write_inline s =
     (let capacity = unat (xs_inode_capacity s) in
      rbind (ok_or (put_bytes (replicate capacity 0) 0 (to_le_bytes XATTR_HEADER_MAGIC)) Panic) (\<lambda>buf.
        write_attrs 4 (\<lambda>_. 0) (xs_inline_attrs s) buf (unat XATTR_INODE_HEADER_SIZE) capacity))"

definition attr_key :: "ExtendedAttribute \<Rightarrow> u8 \<times> nat \<times> string" where
  "attr_key a = (xa_index a, length (xa_name a), xa_name a)"

definition write_block :: "XattrState \<Rightarrow> (FormatError abort, bytes) result" where
  "write_block s =
     (let capacity = unat (xs_block_capacity s) in
      rbind (ok_or (do {
          buf \<leftarrow> put_bytes (replicate capacity 0) 0 (to_le_bytes XATTR_HEADER_MAGIC);
          buf \<leftarrow> put_bytes buf 4 (to_le_bytes (1 :: u32));
          put_bytes buf 8 (to_le_bytes (1 :: u32))
        }) Panic) (\<lambda>buf.
        write_attrs 0 xattr_hash (sort_key attr_key (xs_block_attrs s)) buf
          (unat XATTR_BLOCK_HEADER_SIZE) capacity))"

section \<open>Names round trip\<close>

text \<open>
  Compressing the name of an attribute and decompressing it again gives the name back,
  whatever the name.
\<close>

theorem xattr_name_roundtrip: "(\<lambda>(index, sfx). decompress_name index sfx) (compress_name name) = name"
  by (auto simp: compress_name_def decompress_name_def XATTR_PREFIXES_def prefix_def split: if_splits)

section \<open>Reading attributes back\<close>

text \<open>
  How an ext4 reader walks a list of entries: from \<open>off\<close> on, entry headers with their names, up to
  four zero bytes; the value of an entry lies at its offset from \<open>base\<close>. Each entry yields its
  index, name, value and hash.
\<close>

function read_attrs :: "nat \<Rightarrow> bytes \<Rightarrow> nat \<Rightarrow> (u8 \<times> string \<times> bytes \<times> u32) list" where
  "read_attrs base buf off =
     (if get_bytes 4 buf off = None \<or> get_bytes 4 buf off = Some (replicate 4 0) then []
      else case XAttrEntry_read_from (drop off buf) of
        None \<Rightarrow> []
      | Some e \<Rightarrow>
          (xe_name_index e,
           of_bytes (take (unat (xe_name_len e)) (drop (off + 16) buf)),
           take (unat (xe_value_size e)) (drop (base + unat (xe_value_offset e)) buf),
           xe_hash e) #
          read_attrs base buf (off + align_up (16 + unat (xe_name_len e)) 4))"
  by pat_completeness auto
termination
proof (relation "measure (\<lambda>(base, buf, off). length buf - off)")
  fix base :: nat and buf off e
  assume "\<not> (get_bytes 4 buf off = None \<or> get_bytes 4 buf off = Some (replicate 4 0))"
  then have "off < length buf" by (auto simp: get_bytes_def split: if_splits)
  moreover have "16 \<le> align_up (16 + unat (xe_name_len e)) 4"
    using align_up_bounds(1) [of "16 + unat (xe_name_len e)"] by linarith
  ultimately show "((base, buf, off + align_up (16 + unat (xe_name_len e)) 4), base, buf, off)
      \<in> measure (\<lambda>(base, buf, off). length buf - off)" by auto
qed simp

declare read_attrs.simps [simp del]

definition attr_view :: "(ExtendedAttribute \<Rightarrow> u32) \<Rightarrow> ExtendedAttribute \<Rightarrow> u8 \<times> string \<times> bytes \<times> u32" where
  "attr_view hashf a = (xa_index a, xa_name a, xa_value a, hashf a)"

text \<open>The bytes of an entry, and the space an attribute takes.\<close>

definition xentry :: "ExtendedAttribute \<Rightarrow> u16 \<Rightarrow> u32 \<Rightarrow> bytes" where
  "xentry a voff h =
     XAttrEntry_bytes \<lparr>xe_name_len = word_of_nat (length (xa_name a)), xe_name_index = xa_index a,
       xe_value_offset = voff, xe_value_inum = 0, xe_value_size = word_of_nat (length (xa_value a)),
       xe_hash = h\<rparr> @ as_bytes (xa_name a)"

definition footprint :: "ExtendedAttribute \<Rightarrow> nat" where
  "footprint a = align_up (16 + length (xa_name a)) 4 + align_up (length (xa_value a)) 4"

lemma length_XAttrEntry_bytes [simp]: "length (XAttrEntry_bytes e) = 16"
  by (rule xec.length_enc) simp

lemma length_xentry [simp]: "length (xentry a voff h) = 16 + length (xa_name a)"
  by (simp add: xentry_def)

lemma write_xattr_entry_bytes:
  "write_xattr_entry buf (xa_name a) (xa_index a) voff (word_of_nat (length (xa_value a))) h =
     put_bytes buf 0 (xentry a voff h)"
  by (simp add: write_xattr_entry_def xentry_def XAttrEntry_bytes_def put_u8_bytes Let_def)

lemma write_attrs_step:
  assumes fit: "footprint a \<le> k" and h: "length (xa_name a) \<le> 255"
  defines "es \<equiv> align_up (16 + length (xa_name a)) 4" and "vs \<equiv> align_up (length (xa_value a)) 4"
  shows "write_attrs base hashf (a # attrs) (A @ replicate k 0 @ B) (length A) (length A + k) =
    write_attrs base hashf attrs
      ((A @ xentry a (word_of_nat (length A + k - vs) - word_of_nat base) (hashf a) @
          replicate (es - 16 - length (xa_name a)) 0) @
       replicate (k - es - vs) 0 @
       (xa_value a @ replicate (vs - length (xa_value a)) 0) @ B)
      (length A + es) (length A + k - vs)"
proof -
  let ?x = "xentry a (word_of_nat (length A + k - vs) - word_of_nat base) (hashf a)"
  have es: "16 + length (xa_name a) \<le> es" and vs: "length (xa_value a) \<le> vs"
    using align_up_bounds(1) [of "16 + length (xa_name a)"] align_up_bounds(1) [of "length (xa_value a)"]
    by (simp_all add: es_def vs_def)
  have k: "k = es + (k - es - vs) + vs" using fit by (simp add: footprint_def es_def vs_def)
  obtain m where m: "k = es + m + vs" using k by blast
  obtain p where p: "es = 16 + length (xa_name a) + p" using es le_Suc_ex by blast
  obtain q where q: "vs = length (xa_value a) + q" using vs le_Suc_ex by blast
  have rep: "replicate k 0 = replicate (16 + length (xa_name a)) 0 @ replicate p 0 @ replicate m 0 @
      replicate (length (xa_value a)) (0 :: u8) @ replicate q 0"
    by (simp add: m p q replicate_add [symmetric] add.assoc)
  have sub: "put_bytes (replicate k 0 @ B) 0 ?x = Some (?x @ replicate p 0 @ replicate m 0 @
      replicate (length (xa_value a)) 0 @ replicate q 0 @ B)"
    by (simp add: put_bytes_def rep)
  have val: "put_bytes (A @ ?x @ replicate p 0 @ replicate m 0 @ replicate (length (xa_value a)) 0 @
        replicate q 0 @ B) (length A + k - vs) (xa_value a) =
      Some (A @ ?x @ replicate p 0 @ replicate m 0 @ xa_value a @ replicate q 0 @ B)"
    by (simp add: put_bytes_def m p)
  show ?thesis
    using es vs m sub val
    by (simp add: Let_def write_xattr_entry_bytes vs_def [symmetric] es_def [symmetric]) (simp add: p q)
qed

lemma get_bytes_at: "get_bytes n (A @ X @ R) (length A) = Some (take n X)" if "n \<le> length X"
  using that by (simp add: get_bytes_def)

lemma xentry_not_last:
  assumes "voff \<noteq> 0"
  shows "take 4 (xentry a voff h) \<noteq> replicate 4 0"
proof
  assume "take 4 (xentry a voff h) = replicate 4 0"
  then have "drop 2 (take 4 (xentry a voff h)) = drop 2 (replicate 4 0)" by simp
  moreover have "drop 2 (take 4 (xentry a voff h)) = to_le_bytes voff"
    by (simp add: xentry_def XAttrEntry_bytes_def)
  ultimately have "to_le_bytes voff = [0, 0]" by (simp add: numeral_2_eq_2)
  then have "voff = from_le_bytes [0, 0]" using from_to_le_u16 [of voff] by simp
  then show False using assms by (simp add: from_le_bytes_def)
qed

lemma read_attrs_step:
  assumes "voff \<noteq> 0" "length (xa_name a) \<le> 255" "length (xa_value a) < 2 ^ 32"
    and buf: "buf = A @ xentry a voff h @ R"
    and val: "take (length (xa_value a)) (drop (base + unat voff) buf) = xa_value a"
  shows "read_attrs base buf (length A) =
    (xa_index a, xa_name a, xa_value a, h) #
    read_attrs base buf (length A + align_up (16 + length (xa_name a)) 4)"
proof -
  let ?e = "\<lparr>xe_name_len = word_of_nat (length (xa_name a)), xe_name_index = xa_index a,
       xe_value_offset = voff, xe_value_inum = 0, xe_value_size = word_of_nat (length (xa_value a)),
       xe_hash = h\<rparr>"
  have "get_bytes 4 buf (length A) = Some (take 4 (xentry a voff h))"
    by (simp add: buf get_bytes_def)
  moreover have "XAttrEntry_read_from (drop (length A) buf) = Some ?e"
    by (simp add: buf xentry_def xec.read_enc)
  moreover have "unat (word_of_nat (length (xa_name a)) :: u8) = length (xa_name a)"
    using assms(2) by (simp add: unat_of_nat)
  moreover have "unat (word_of_nat (length (xa_value a)) :: u32) = length (xa_value a)"
    using assms(3) by (simp add: unat_of_nat)
  moreover have "take (length (xa_name a)) (drop (length A + 16) buf) = as_bytes (xa_name a)"
    by (simp add: buf xentry_def)
  ultimately show ?thesis
    using xentry_not_last [OF assms(1)] val by (subst read_attrs.simps) simp
qed

definition attr_ok :: "ExtendedAttribute \<Rightarrow> bool" where
  "attr_ok a \<longleftrightarrow> length (xa_name a) \<le> EXT4_NAME_LEN \<and> length (xa_value a) < 2 ^ 31"

lemma write_attrs_reads:
  assumes "list_all attr_ok attrs" "sum_list (map footprint attrs) + 4 \<le> k" "base \<le> length A"
    and "length A + k < 2 ^ 16"
  shows "\<exists>M. length M = k \<and>
    write_attrs base hashf attrs (A @ replicate k 0 @ B) (length A) (length A + k) = Ok (A @ M @ B) \<and>
    read_attrs base (A @ M @ B) (length A) = map (attr_view hashf) attrs"
  using assms
proof (induction attrs arbitrary: A B k)
  case Nil
  have "get_bytes 4 (A @ replicate k 0 @ B) (length A) = Some (replicate 4 0)"
    using Nil by (simp add: get_bytes_def min_def)
  then have "read_attrs base (A @ replicate k 0 @ B) (length A) = []"
    by (subst read_attrs.simps) simp
  then show ?case by (intro exI [of _ "replicate k 0"]) simp
next
  case (Cons a attrs)
  define es where "es = align_up (16 + length (xa_name a)) 4"
  define vs where "vs = align_up (length (xa_value a)) 4"
  define voff :: u16 where "voff = word_of_nat (length A + k - vs) - word_of_nat base"
  let ?X = "xentry a voff (hashf a) @ replicate (es - 16 - length (xa_name a)) 0"
  let ?V = "xa_value a @ replicate (vs - length (xa_value a)) 0"
  have "attr_ok a" "list_all attr_ok attrs" using Cons.prems(1) by simp_all
  then have ok: "length (xa_name a) \<le> 255" "length (xa_value a) < 2 ^ 31" "list_all attr_ok attrs"
    by (simp_all add: attr_ok_def EXT4_NAME_LEN_def)
  have fp: "footprint a = es + vs" by (simp add: footprint_def es_def vs_def)
  have es: "16 + length (xa_name a) \<le> es" and vs: "length (xa_value a) \<le> vs"
    using align_up_bounds(1) [of "16 + length (xa_name a)"] align_up_bounds(1) [of "length (xa_value a)"]
    by (simp_all add: es_def vs_def)
  have fit: "es + vs + sum_list (map footprint attrs) + 4 \<le> k" using Cons.prems(2) by (simp add: fp)
  have lenX: "length (A @ ?X) = length A + es" and lenV: "length ?V = vs" using es vs by simp_all
  have voff: "unat voff = length A + k - vs - base"
    unfolding voff_def by (rule unat_of_nat_diff) (use Cons.prems(3,4) fit in linarith)+
  have v0: "voff \<noteq> 0"
    using voff Cons.prems(3) fit es by auto
  have p: "sum_list (map footprint attrs) + 4 \<le> k - es - vs" "base \<le> length (A @ ?X)"
    "length (A @ ?X) + (k - es - vs) < 2 ^ 16"
    unfolding lenX using fit Cons.prems(3,4) by linarith+
  obtain M where M: "length M = k - es - vs"
    "write_attrs base hashf attrs ((A @ ?X) @ replicate (k - es - vs) 0 @ ?V @ B) (length (A @ ?X))
       (length (A @ ?X) + (k - es - vs)) = Ok ((A @ ?X) @ M @ ?V @ B)"
    "read_attrs base ((A @ ?X) @ M @ ?V @ B) (length (A @ ?X)) = map (attr_view hashf) attrs"
    using Cons.IH [OF ok(3) p, of "?V @ B"] by blast
  have w: "write_attrs base hashf (a # attrs) (A @ replicate k 0 @ B) (length A) (length A + k) =
      Ok (A @ (?X @ M @ ?V) @ B)"
    using write_attrs_step [of a k base hashf attrs A B] M(2) ok(1) fit lenX
    unfolding es_def [symmetric] vs_def [symmetric] voff_def [symmetric] fp by simp
  have pos: "base + unat voff = length (A @ ?X @ M)" using voff M(1) lenX fit Cons.prems(3) by simp
  have val: "take (length (xa_value a)) (drop (base + unat voff) (A @ (?X @ M @ ?V) @ B)) = xa_value a"
    unfolding pos by simp
  have shape: "A @ (?X @ M @ ?V) @ B = A @ xentry a voff (hashf a) @
      (replicate (es - 16 - length (xa_name a)) 0 @ M @ ?V @ B)" by simp
  have "length (xa_value a) < 2 ^ 32" using ok(2) by simp
  note read_attrs_step [OF v0 ok(1) this shape val]
  then have "read_attrs base (A @ (?X @ M @ ?V) @ B) (length A) =
      (xa_index a, xa_name a, xa_value a, hashf a) # read_attrs base (A @ (?X @ M @ ?V) @ B) (length A + es)"
    by (simp only: es_def)
  moreover have "length (?X @ M @ ?V) = k" using M(1) lenX lenV fit by simp
  ultimately show ?case using w M(3) unfolding lenX
    by (intro exI [of _ "?X @ M @ ?V"]) (simp add: attr_view_def)
qed

section \<open>Every placement can be written\<close>

fun xattr_add_all :: "XattrState \<Rightarrow> ExtendedAttribute list \<Rightarrow> (FormatError, XattrState) result" where
  "xattr_add_all s [] = Ok s"
| "xattr_add_all s (a # attrs) = rbind (xattr_add s a) (\<lambda>s. xattr_add_all s attrs)"

text \<open>The space accounted for is the space the attributes take, and leaves room for the terminator.\<close>

definition area_ok :: "nat \<Rightarrow> nat \<Rightarrow> nat \<Rightarrow> ExtendedAttribute list \<Rightarrow> bool" where
  "area_ok header used cap attrs \<longleftrightarrow>
     list_all attr_ok attrs \<and> used = header + sum_list (map footprint attrs) \<and> used + 4 \<le> cap"

definition xattr_inv :: "XattrState \<Rightarrow> bool" where
  "xattr_inv s \<longleftrightarrow>
     unat (xs_inode_capacity s) < 2 ^ 16 \<and> unat (xs_block_capacity s) < 2 ^ 16 \<and>
     area_ok 4 (unat (xs_used_inline s)) (unat (xs_inode_capacity s)) (xs_inline_attrs s) \<and>
     area_ok 32 (unat (xs_used_block s)) (unat (xs_block_capacity s)) (xs_block_attrs s)"

lemma unat_total_size:
  assumes "attr_ok a"
  shows "unat (total_size a) = footprint a" "footprint a < 2 ^ 31 + 300"
proof -
  have len: "length (xa_name a) \<le> 255" "length (xa_value a) < 2 ^ 31"
    using assms by (simp_all add: attr_ok_def EXT4_NAME_LEN_def)
  have b: "align_up (16 + length (xa_name a)) 4 < 16 + 255 + 4" "align_up (length (xa_value a)) 4 < 2 ^ 31 + 4"
    using len align_up_bounds(2) [of "16 + length (xa_name a)"] align_up_bounds(2) [of "length (xa_value a)"]
    by linarith+
  then show "footprint a < 2 ^ 31 + 300" by (simp add: footprint_def)
  have "total_size a = word_of_nat (footprint a)"
    by (simp add: total_size_def entry_size_def value_size_def footprint_def add.commute)
  moreover have "footprint a < 2 ^ 32" using b by (simp add: footprint_def)
  ultimately show "unat (total_size a) = footprint a" by (simp add: unat_of_nat)
qed

lemma area_ok_add:
  assumes "area_ok header (unat used) (unat cap) attrs" "attr_ok a" "unat cap < 2 ^ 16"
    and room: "used + total_size a + 4 \<le> cap"
  shows "area_ok header (unat (used + total_size a)) (unat cap) (attrs @ [a])"
proof -
  have u: "unat used < 2 ^ 16" using assms(1,3) by (simp add: area_ok_def)
  then have s: "unat (used + total_size a) = unat used + footprint a"
    using unat_total_size [OF assms(2)] by (simp add: unat_add_lem [THEN iffD1])
  moreover have "unat (used + total_size a + 4) = unat used + footprint a + 4"
    using s u unat_total_size [OF assms(2)] unat_add_lem [of "used + total_size a" 4] by simp
  ultimately show ?thesis using assms room by (simp add: area_ok_def word_le_nat_alt)
qed

lemma xattr_add_inv:
  assumes "xattr_inv s" "length (xa_value a) < 2 ^ 31" "xattr_add s a = Ok s'"
  shows "xattr_inv s'" "xs_inode_capacity s' = xs_inode_capacity s" "xs_block_capacity s' = xs_block_capacity s"
    "mset (xs_inline_attrs s') + mset (xs_block_attrs s') = mset (xs_inline_attrs s) + mset (xs_block_attrs s) + {#a#}"
  using assms area_ok_add [of 4 "xs_used_inline s" "xs_inode_capacity s" "xs_inline_attrs s" a]
    area_ok_add [of 32 "xs_used_block s" "xs_block_capacity s" "xs_block_attrs s" a]
  by (auto simp: xattr_add_def xattr_inv_def attr_ok_def Let_def split: if_splits)

lemma xattr_add_all_inv:
  assumes "xattr_inv s" "list_all (\<lambda>a. length (xa_value a) < 2 ^ 31) attrs" "xattr_add_all s attrs = Ok s'"
  shows "xattr_inv s' \<and> xs_inode_capacity s' = xs_inode_capacity s \<and> xs_block_capacity s' = xs_block_capacity s \<and>
    mset (xs_inline_attrs s') + mset (xs_block_attrs s') =
      mset (xs_inline_attrs s) + mset (xs_block_attrs s) + mset attrs"
  using assms
proof (induction attrs arbitrary: s)
  case (Cons a attrs)
  then obtain s1 where s1: "xattr_add s a = Ok s1" "xattr_add_all s1 attrs = Ok s'" by auto
  have "length (xa_value a) < 2 ^ 31" using Cons.prems by simp
  note add = xattr_add_inv [OF Cons.prems(1) this s1(1)]
  show ?case using Cons.IH [OF add(1) _ s1(2)] Cons.prems(2) add(2-4) by simp
qed simp

lemma xattr_new_inv:
  assumes "8 \<le> unat cap" "unat cap < 2 ^ 16" "36 \<le> unat bcap" "unat bcap < 2 ^ 16"
  shows "xattr_inv (XattrState_new ino cap bcap)"
  using assms by (simp add: xattr_inv_def area_ok_def XattrState_new_def XATTR_INODE_HEADER_SIZE_def XATTR_BLOCK_HEADER_SIZE_def)

lemma write_inline_reads:
  assumes "xattr_inv s"
  shows "\<exists>buf. write_inline s = Ok buf \<and> length buf = unat (xs_inode_capacity s) \<and>
    read_attrs 4 buf 4 = map (attr_view (\<lambda>_. 0)) (xs_inline_attrs s)"
proof -
  define k where "k = unat (xs_inode_capacity s) - 4"
  define A where "A = to_le_bytes XATTR_HEADER_MAGIC"
  have len: "length A = 4" by (simp add: A_def)
  have cap: "unat (xs_inode_capacity s) = length A + k" "sum_list (map footprint (xs_inline_attrs s)) + 4 \<le> k"
    "length A + k < 2 ^ 16" "list_all attr_ok (xs_inline_attrs s)"
    using assms by (auto simp: xattr_inv_def area_ok_def k_def len)
  have "put_bytes (replicate (length A + k) 0) 0 A = Some (A @ replicate k 0 @ [])"
    by (simp add: put_bytes_def)
  then show ?thesis
    using write_attrs_reads [of "xs_inline_attrs s" k 4 A "\<lambda>_. 0" "[]"] cap len
    by (auto simp: write_inline_def A_def [symmetric] XATTR_INODE_HEADER_SIZE_def Let_def)
qed

lemma write_block_reads:
  assumes "xattr_inv s"
  shows "\<exists>buf. write_block s = Ok buf \<and> length buf = unat (xs_block_capacity s) \<and>
    read_attrs 0 buf 32 = map (attr_view xattr_hash) (sort_key attr_key (xs_block_attrs s))"
proof -
  define k where "k = unat (xs_block_capacity s) - 32"
  define A where "A = to_le_bytes XATTR_HEADER_MAGIC @ to_le_bytes (1 :: u32) @ to_le_bytes (1 :: u32) @ replicate 20 0"
  let ?as = "sort_key attr_key (xs_block_attrs s)"
  have len: "length A = 32" by (simp add: A_def)
  have "mset (map footprint ?as) = mset (map footprint (xs_block_attrs s))" by simp
  then have "sum_list (map footprint ?as) = sum_list (map footprint (xs_block_attrs s))"
    by (metis sum_mset_sum_list)
  then have cap: "unat (xs_block_capacity s) = length A + k" "sum_list (map footprint ?as) + 4 \<le> k"
    "length A + k < 2 ^ 16" "list_all attr_ok ?as"
    using assms by (auto simp: xattr_inv_def area_ok_def k_def len list_all_iff)
  have "replicate (length A + k) 0 = replicate 12 (0 :: u8) @ replicate 20 0 @ replicate k 0"
    by (simp add: len replicate_add [symmetric])
  then have "put_bytes (replicate (length A + k) 0) 0
      (to_le_bytes XATTR_HEADER_MAGIC @ to_le_bytes (1 :: u32) @ to_le_bytes (1 :: u32)) = Some (A @ replicate k 0 @ [])"
    by (simp add: put_bytes_def A_def)
  then show ?thesis
    using write_attrs_reads [of ?as k 0 A xattr_hash "[]"] cap len
    by (auto simp: write_block_def XATTR_BLOCK_HEADER_SIZE_def Let_def)
qed

section \<open>Claims\<close>

text \<open>
  Claim C8. However many attributes are added, those that are accepted are placed once each, in the
  inode or in the block; both areas can then be written without error or panic, fill exactly their
  capacity, and walking the entry list of each area up to its terminator finds exactly the attributes
  placed there, with their values (those of the block in sorted order and with their hashes).
\<close>

theorem xattr_storage_roundtrip:
  assumes "8 \<le> unat cap" "unat cap < 2 ^ 16" "36 \<le> unat bcap" "unat bcap < 2 ^ 16"
    and "list_all (\<lambda>a. length (xa_value a) < 2 ^ 31) attrs"
    and "xattr_add_all (XattrState_new ino cap bcap) attrs = Ok s"
  shows "mset (xs_inline_attrs s) + mset (xs_block_attrs s) = mset attrs \<and>
    (\<exists>buf. write_inline s = Ok buf \<and> length buf = unat cap \<and>
       read_attrs 4 buf 4 = map (attr_view (\<lambda>_. 0)) (xs_inline_attrs s)) \<and>
    (\<exists>buf. write_block s = Ok buf \<and> length buf = unat bcap \<and>
       read_attrs 0 buf 32 = map (attr_view xattr_hash) (sort_key attr_key (xs_block_attrs s)))"
proof -
  have "xattr_inv (XattrState_new ino cap bcap)" using assms by (intro xattr_new_inv)
  note inv = xattr_add_all_inv [OF this assms(5,6)]
  then show ?thesis using write_inline_reads [of s] write_block_reads [of s] by (simp add: XattrState_new_def)
qed

definition demo_attrs :: "ExtendedAttribute list" where
  "demo_attrs =
     [ExtendedAttribute_new ''system.data'' [], ExtendedAttribute_new ''user.a'' [1],
      ExtendedAttribute_new ''user.big'' (replicate 50 7)]"

definition demo_xattrs :: XattrState where
  "demo_xattrs =
     \<lparr>xs_inode_capacity = 96, xs_block_capacity = 4096,
      xs_inline_attrs = [\<lparr>xa_name = ''data'', xa_index = 7, xa_value = []\<rparr>,
                         \<lparr>xa_name = ''a'', xa_index = 1, xa_value = [1]\<rparr>],
      xs_block_attrs = [\<lparr>xa_name = ''big'', xa_index = 1, xa_value = replicate 50 7\<rparr>],
      xs_used_inline = 48, xs_used_block = 104, xs_inode_number = 12\<rparr>"

lemma demo_xattrs_added: "xattr_add_all (XattrState_new 12 96 4096) demo_attrs = Ok demo_xattrs"
  by code_simp

theorem xattr_storage_roundtrip_witness:
  "mset (xs_inline_attrs demo_xattrs) + mset (xs_block_attrs demo_xattrs) = mset demo_attrs \<and>
    (\<exists>buf. write_inline demo_xattrs = Ok buf \<and> length buf = 96 \<and>
       read_attrs 4 buf 4 = [(7, ''data'', [], 0), (1, ''a'', [1], 0)]) \<and>
    (\<exists>buf. write_block demo_xattrs = Ok buf \<and> length buf = 4096 \<and>
       read_attrs 0 buf 32 = map (attr_view xattr_hash) (sort_key attr_key (xs_block_attrs demo_xattrs)))"
proof -
  have "list_all (\<lambda>a. length (xa_value a) < 2 ^ 31) demo_attrs"
    by (simp add: demo_attrs_def ExtendedAttribute_new_def split_beta)
  then show ?thesis
    using xattr_storage_roundtrip [of 96 4096 demo_attrs 12 demo_xattrs] demo_xattrs_added
    by (simp add: demo_xattrs_def attr_view_def)
qed

end
