(* ===== verification/Ext4_Extent.thy ===== *)
theory Ext4_Extent
  imports Ext4_Xattr
begin

text \<open>
  Extent trees (\<open>common/disk-image/src/ext4/extent.rs\<close>): the leaves that cover the block ranges
  of a file, stored in the inode or behind one level of index nodes, and their parser. The image file
  is its list of bytes; a write past the end extends it with zeros, as a sparse file does.
\<close>

section \<open>The image\<close>

type_synonym disk = bytes

definition write_at :: "nat \<Rightarrow> bytes \<Rightarrow> disk \<Rightarrow> disk" where
  "write_at off bs d = take off d @ replicate (off - length d) 0 @ bs @ drop (off + length bs) d"

definition read_at :: "nat \<Rightarrow> nat \<Rightarrow> disk \<Rightarrow> bytes option" where
  "read_at off n d = get_bytes n d off"

section \<open>Building the leaves\<close>

record BlockRange =
  br_start :: u32
  br_end :: u32

definition div_ceil :: "u32 \<Rightarrow> u32 \<Rightarrow> u32 option" where
  "div_ceil n d =
     (if d = 0 then None else Some (if n mod d > 0 then n div d + 1 else n div d))"

function fill_range :: "u32 \<Rightarrow> u32 \<Rightarrow> u32 \<Rightarrow> ExtentLeaf list \<times> u32" where
  "fill_range remaining phys logical =
     (if remaining > 0 then
        let len = min remaining MAX_BLOCKS_PER_EXTENT;
            (leaves, logical') = fill_range (remaining - len) (phys + len) (logical + len)
        in (\<lparr>el_block = logical, el_len = ucast len, el_start_hi = 0, el_start_lo = phys\<rparr> # leaves, logical')
      else ([], logical))"
  by pat_completeness auto
termination
proof (relation "measure (\<lambda>(remaining, phys, logical). unat remaining)")
  fix remaining phys logical len :: u32
  assume "remaining > 0" "len = min remaining MAX_BLOCKS_PER_EXTENT"
  then have "len \<le> remaining" "0 < len" by (simp_all add: MAX_BLOCKS_PER_EXTENT_def)
  then have "unat (remaining - len) < unat remaining"
    using \<open>remaining > 0\<close> by (simp add: unat_sub unat_gt_0)
  then show "((remaining - len, phys + len, logical + len), remaining, phys, logical)
      \<in> measure (\<lambda>(remaining, phys, logical). unat remaining)" by simp
qed simp

declare fill_range.simps [simp del]

fun fill_ranges :: "u32 \<Rightarrow> BlockRange list \<Rightarrow> ExtentLeaf list" where
  "fill_ranges logical [] = []"
| "fill_ranges logical (r # blocks) =
     (let (leaves, logical) = fill_range (br_end r - br_start r) (br_start r) logical
      in leaves @ fill_ranges logical blocks)"

definition fill_extent_leaves_from_ranges :: "BlockRange list \<Rightarrow> ExtentLeaf list" where
  "fill_extent_leaves_from_ranges blocks = fill_ranges 0 blocks"

section \<open>Writing the tree\<close>

definition write_slice :: "('a \<Rightarrow> bytes \<Rightarrow> bytes option) \<Rightarrow> nat \<Rightarrow> nat \<Rightarrow> 'a \<Rightarrow> bytes \<Rightarrow> bytes option" where
  "write_slice write_to n off x buf = do {
     sub \<leftarrow> get_bytes n buf off;
     sub \<leftarrow> write_to x sub;
     put_bytes buf off sub
   }"

fun write_array :: "('a \<Rightarrow> bytes \<Rightarrow> bytes option) \<Rightarrow> nat \<Rightarrow> nat \<Rightarrow> 'a list \<Rightarrow> bytes \<Rightarrow> bytes option" where
  "write_array write_to n off [] buf = Some buf"
| "write_array write_to n off (x # xs) buf = do {
     buf \<leftarrow> write_slice write_to n off x buf;
     write_array write_to n (off + n) xs buf
   }"

definition add_inode_blocks :: "Inode \<Rightarrow> u32 \<Rightarrow> u32 \<Rightarrow> Inode" where
  "add_inode_blocks x filesystem_blocks block_size =
     (let blocks = (if i_flags x AND inode_flags_HUGE_FILE \<noteq> 0 then filesystem_blocks
                    else filesystem_blocks * (block_size div 512))
      in x\<lparr>i_blocks_lo := i_blocks_lo x + blocks\<rparr>)"

definition write_inline_extents :: "Inode \<Rightarrow> u32 \<Rightarrow> ExtentLeaf list \<Rightarrow> u32 \<Rightarrow> Inode option" where
  "write_inline_extents x data_blocks leaves block_size =
     (let header = \<lparr>eh_magic = EXTENT_HEADER_MAGIC, eh_entries = word_of_nat (length leaves), eh_max = 4,
                    eh_depth = 0, eh_generation = 0\<rparr>
      in do {
        buf \<leftarrow> write_slice ExtentHeader_write_to 12 0 header (replicate INODE_BLOCK_SIZE 0);
        buf \<leftarrow> write_array ExtentLeaf_write_to 12 12 leaves buf;
        let x = add_inode_blocks (x\<lparr>i_block := buf\<rparr>) data_blocks block_size
        in Some (x\<lparr>i_flags := i_flags x OR inode_flags_EXTENTS\<rparr>)
      })"

definition leaf_block :: "u32 \<Rightarrow> nat \<Rightarrow> ExtentLeaf list \<Rightarrow> bytes option" where
  "leaf_block block_size leaves_per_block block_leaves =
     (let leaf_header = \<lparr>eh_magic = EXTENT_HEADER_MAGIC, eh_entries = word_of_nat (length block_leaves),
                         eh_max = word_of_nat leaves_per_block, eh_depth = 0, eh_generation = 0\<rparr>;
          tail_off = unat block_size - 4
      in do {
        buf \<leftarrow> write_slice ExtentHeader_write_to 12 0 leaf_header (replicate (unat block_size) 0);
        buf \<leftarrow> write_array ExtentLeaf_write_to 12 12 block_leaves buf;
        write_slice ExtentTail_write_to 4 tail_off \<lparr>et_checksum = 0\<rparr> buf
      })"

fun write_leaf_blocks ::
  "u32 \<Rightarrow> nat \<Rightarrow> ExtentLeaf list \<Rightarrow> nat list \<Rightarrow> disk \<times> u32 \<Rightarrow> (disk \<times> u32) option" where
  "write_leaf_blocks block_size leaves_per_block leaves [] st = Some st"
| "write_leaf_blocks block_size leaves_per_block leaves (i # is) (d, current_block) = do {
     block_buf \<leftarrow> leaf_block block_size leaves_per_block
                   (take leaves_per_block (drop (i * leaves_per_block) leaves));
     write_leaf_blocks block_size leaves_per_block leaves is
       (write_at (unat current_block * unat block_size) block_buf d, current_block + 1)
   }"

definition write_indexed_extents ::
  "Inode \<Rightarrow> u32 \<Rightarrow> ExtentLeaf list \<Rightarrow> u32 \<Rightarrow> disk \<times> u32 \<Rightarrow> (Inode \<times> disk \<times> u32) option" where
  "write_indexed_extents x data_blocks all_leaves block_size st =
     (let leaves_per_block = (unat block_size - 12 - 4) div 12;
          index_block_start = snd st
      in do {
        num_index_blocks \<leftarrow> div_ceil (word_of_nat (length all_leaves)) (word_of_nat leaves_per_block);
        let indices = map (\<lambda>i. \<lparr>ei_block = el_block (all_leaves ! (i * leaves_per_block)),
                                ei_leaf_lo = index_block_start + word_of_nat i, ei_leaf_hi = 0,
                                ei_unused = 0\<rparr>) [0..<unat num_index_blocks];
            header = \<lparr>eh_magic = EXTENT_HEADER_MAGIC, eh_entries = ucast num_index_blocks, eh_max = 4,
                      eh_depth = 1, eh_generation = 0\<rparr>
        in do {
          buf \<leftarrow> write_slice ExtentHeader_write_to 12 0 header (replicate INODE_BLOCK_SIZE 0);
          buf \<leftarrow> write_array ExtentIndex_write_to 12 12 indices buf;
          (d, current_block) \<leftarrow>
            write_leaf_blocks block_size leaves_per_block all_leaves [0..<unat num_index_blocks] st;
          let total_blocks = data_blocks + num_index_blocks;
              x = add_inode_blocks (x\<lparr>i_block := buf\<rparr>) total_blocks block_size
          in Some (x\<lparr>i_flags := i_flags x OR inode_flags_EXTENTS\<rparr>, d, current_block)
        }
      })"

definition range_len :: "BlockRange \<Rightarrow> u32" where
  "range_len r = br_end r - br_start r"

definition write_extents ::
  "Inode \<Rightarrow> BlockRange list \<Rightarrow> u32 \<Rightarrow> disk \<times> u32 \<Rightarrow> (Inode \<times> disk \<times> u32) option" where
  "write_extents x blocks block_size st =
     (let data_blocks = sum_list (map range_len blocks) in
      if data_blocks = 0 then Some (x, st)
      else
        let leaves = fill_extent_leaves_from_ranges blocks;
            num_extents = (word_of_nat (length leaves) :: u32);
            max_inline = 4
        in if num_extents \<le> max_inline
           then map_option (\<lambda>x. (x, st)) (write_inline_extents x data_blocks leaves block_size)
           else write_indexed_extents x data_blocks leaves block_size st)"

section \<open>Parsing the tree\<close>

definition index_leaf :: "ExtentIndex \<Rightarrow> u64" where
  "index_leaf x = ucast (ei_leaf_lo x) OR push_bit 32 (ucast (ei_leaf_hi x))"

definition parse_leaf :: "bytes \<Rightarrow> nat \<Rightarrow> (ReadError, u32 \<times> u32) result" where
  "parse_leaf buf i =
     (let off = 12 + i * 12 in
      if off + 12 > length buf then Err RE_InvalidExtents
      else rbind (ok_or (ExtentLeaf_read_from (drop off buf)) RE_InvalidExtents) (\<lambda>leaf.
        let phys_start = el_start_lo leaf;
            phys_end = phys_start + ucast (el_len leaf)
        in Ok (phys_start, phys_end)))"

definition parse_depth0 :: "bytes \<Rightarrow> ExtentHeader \<Rightarrow> (ReadError, (u32 \<times> u32) list) result" where
  "parse_depth0 block_field header = collect_results (parse_leaf block_field) [0..<unat (eh_entries header)]"

definition parse_index :: "bytes \<Rightarrow> u64 \<Rightarrow> disk \<Rightarrow> nat \<Rightarrow> (ReadError, (u32 \<times> u32) list) result" where
  "parse_index block_field block_size d i =
     (let off = 12 + i * 12 in
      if off + 12 > length block_field then Err RE_InvalidExtents
      else rbind (ok_or (ExtentIndex_read_from (drop off block_field)) RE_InvalidExtents) (\<lambda>index.
        let phys_block = index_leaf index;
            byte_offset = phys_block * block_size
        in rbind (ok_or (read_at (unat byte_offset) (unat block_size) d)
                    (RE_CouldNotReadBlock (ucast phys_block))) (\<lambda>leaf_buf.
           rbind (ok_or (ExtentHeader_read_from leaf_buf) RE_InvalidExtents) (\<lambda>leaf_header.
             if eh_magic leaf_header \<noteq> EXTENT_HEADER_MAGIC \<or> eh_depth leaf_header \<noteq> 0
             then Err RE_InvalidExtents
             else collect_results (parse_leaf leaf_buf) [0..<unat (eh_entries leaf_header)]))))"

definition parse_depth1 ::
  "bytes \<Rightarrow> ExtentHeader \<Rightarrow> u64 \<Rightarrow> disk \<Rightarrow> (ReadError, (u32 \<times> u32) list) result" where
  "parse_depth1 block_field header block_size d =
     rbind (collect_results (parse_index block_field block_size d) [0..<unat (eh_entries header)])
       (\<lambda>rs. Ok (concat rs))"

definition parse_extents :: "Inode \<Rightarrow> u64 \<Rightarrow> disk \<Rightarrow> (ReadError, (u32 \<times> u32) list) result" where
  "parse_extents x block_size d =
     rbind (ok_or (ExtentHeader_read_from (i_block x)) RE_InvalidExtents) (\<lambda>header.
       if eh_magic header \<noteq> EXTENT_HEADER_MAGIC then Ok []
       else if eh_depth header = 0 then parse_depth0 (i_block x) header
       else if eh_depth header = 1 then parse_depth1 (i_block x) header block_size d
       else Err RE_DeepExtentsUnsupported)"

section \<open>Arrays of structures\<close>

context codec
begin

lemma write_slice_enc:
  "wf x \<Longrightarrow> off + size \<le> length buf \<Longrightarrow> write_slice write_to size off x buf = put_bytes buf off (enc x)"
  by (simp add: write_slice_def get_bytes_def write_enc put_bytes_0 length_enc)

lemma length_concat_enc: "list_all wf xs \<Longrightarrow> length (concat (map enc xs)) = length xs * size"
  by (induction xs) (auto simp: length_enc)

lemma write_array_enc:
  "list_all wf xs \<Longrightarrow> off + length xs * size \<le> length buf \<Longrightarrow>
     write_array write_to size off xs buf = put_bytes buf off (concat (map enc xs))"
proof (induction xs arbitrary: off buf)
  case (Cons x xs)
  have x: "wf x" "list_all wf xs" "off + size \<le> length buf" using Cons.prems by simp_all
  have "write_slice write_to size off x buf = put_bytes buf off (enc x)" using x by (simp add: write_slice_enc)
  also have "\<dots> = Some (take off buf @ enc x @ drop (off + size) buf)"
    using x by (simp add: put_bytes_def length_enc)
  finally have step: "write_array write_to size off (x # xs) buf =
      write_array write_to size (off + size) xs (take off buf @ enc x @ drop (off + size) buf)" by simp
  have "off + size + length xs * size \<le> length (take off buf @ enc x @ drop (off + size) buf)"
    using Cons.prems x by (simp add: length_enc)
  then show ?case
    using Cons.IH [OF x(2)] x unfolding step 
    by (simp add: put_bytes_append put_bytes_def length_enc ac_simps)
qed (simp add: put_bytes_def)

lemma read_array:
  assumes "list_all wf xs" "i < length xs" "length A = off"
  shows "read_from (drop (off + i * size) (A @ concat (map enc xs) @ R)) = Some (xs ! i)"
proof -
  obtain ys zs where xs: "xs = ys @ xs ! i # zs" "length ys = i"
    using assms(2) by (metis id_take_nth_drop length_take min.absorb4)
  then have "wf (xs ! i)" "list_all wf ys" using assms(1) by (metis list_all_append list.pred_inject(2))+
  moreover have "concat (map enc xs) = concat (map enc ys) @ enc (xs ! i) @ concat (map enc zs)"
    by (subst xs(1)) simp
  moreover have "length (concat (map enc ys)) = i * size"
    using length_concat_enc [OF \<open>list_all wf ys\<close>] xs(2) by simp
  ultimately show ?thesis using assms(3) read_enc by simp
qed

end

section \<open>Leaves cover their ranges\<close>

definition leaf_range :: "ExtentLeaf \<Rightarrow> u32 \<times> u32" where
  "leaf_range l = (el_start_lo l, el_start_lo l + ucast (el_len l))"

definition range_blocks :: "u32 \<times> u32 \<Rightarrow> nat list" where
  "range_blocks r = [unat (fst r)..<unat (snd r)]"

lemma fill_range_cover:
  assumes "unat phys + unat remaining < 2 ^ 32"
  shows "concat (map (\<lambda>l. range_blocks (leaf_range l)) (fst (fill_range remaining phys logical))) =
      [unat phys..<unat phys + unat remaining] \<and> snd (fill_range remaining phys logical) = logical + remaining"
  using assms
proof (induction remaining phys logical rule: fill_range.induct)
  case (1 remaining phys logical)
  show ?case
  proof (cases "remaining > 0")
    case True
    define len where "len = min remaining MAX_BLOCKS_PER_EXTENT"
    have len: "len \<le> remaining" "unat len \<le> 0x8000"
      by (simp_all add: len_def MAX_BLOCKS_PER_EXTENT_def word_le_nat_alt min_def)
    have sub: "unat (remaining - len) = unat remaining - unat len" using len(1) by (simp add: unat_sub)
    have le: "unat len \<le> unat remaining" using len(1) by (simp add: word_le_nat_alt)
    have add: "unat (phys + len) = unat phys + unat len"
      using 1(2) le by (subst unat_add_lem [THEN iffD1]) simp_all
    have cast: "(ucast (ucast len :: u16) :: u32) = len"
      using len(2) by (intro unsigned_word_eqI [where ?'a = nat]) (simp add: unsigned_ucast_eq unsigned_take_bit_eq take_bit_nat_eq_self)
    have step: "fill_range remaining phys logical =
        (\<lparr>el_block = logical, el_len = ucast len, el_start_hi = 0, el_start_lo = phys\<rparr> #
           fst (fill_range (remaining - len) (phys + len) (logical + len)),
         snd (fill_range (remaining - len) (phys + len) (logical + len)))"
      using True by (subst fill_range.simps) (simp add: len_def Let_def split_beta)
    have IH: "concat (map (\<lambda>l. range_blocks (leaf_range l)) (fst (fill_range (remaining - len) (phys + len) (logical + len)))) =
        [unat (phys + len)..<unat (phys + len) + unat (remaining - len)] \<and>
        snd (fill_range (remaining - len) (phys + len) (logical + len)) = logical + len + (remaining - len)"
      using 1(1) [OF True len_def] 1(2) le by (simp add: add sub)
    have "[unat phys..<unat phys + unat remaining] =
        [unat phys..<unat phys + unat len] @ [unat phys + unat len..<unat phys + unat remaining]"
      using upt_add_eq_append [of "unat phys" "unat phys + unat len" "unat remaining - unat len"] le by simp
    then show ?thesis
      unfolding step using IH le
      by (simp add: leaf_range_def [of "ExtentLeaf.make _ _ _ _", unfolded ExtentLeaf.make_def]
          range_blocks_def [of "(_, _)"] cast add sub)
  next
    case False
    then have "remaining = 0" by (simp add: word_gt_0)
    then show ?thesis by (subst (1 2) fill_range.simps) simp
  qed
qed

definition range_ok :: "BlockRange \<Rightarrow> bool" where
  "range_ok r \<longleftrightarrow> unat (br_start r) \<le> unat (br_end r)"

lemma fill_ranges_cover:
  "list_all range_ok blocks \<Longrightarrow>
     concat (map (\<lambda>l. range_blocks (leaf_range l)) (fill_ranges logical blocks)) =
     concat (map (\<lambda>r. range_blocks (br_start r, br_end r)) blocks)"
proof (induction blocks arbitrary: logical)
  case (Cons r blocks)
  have ok: "unat (br_start r) \<le> unat (br_end r)" using Cons.prems by (simp add: range_ok_def)
  then have sub: "unat (br_end r - br_start r) = unat (br_end r) - unat (br_start r)"
    by (simp add: unat_sub word_le_nat_alt)
  have "unat (br_start r) + unat (br_end r - br_start r) < 2 ^ 32"
    using ok sub unsigned_less [of "br_end r"] by simp
  note cover = fill_range_cover [OF this, of logical]
  then show ?case
    using Cons ok sub by (simp add: split_beta range_blocks_def [of "(_, _)"])
qed simp

section \<open>Reading the image\<close>

lemma write_at_pad:
  obtains P where "length P = off" "\<And>bs. write_at off bs d = P @ bs @ drop (off + length bs) d"
    "\<And>n. n \<le> off \<Longrightarrow> n \<le> length d \<Longrightarrow> take n P = take n d"
  by (rule that [of "take off d @ replicate (off - length d) 0"]) (auto simp: write_at_def min_def)

lemma write_at_split: "write_at (length P) b (P @ R) = P @ b @ drop (length b) R"
  by (simp add: write_at_def)

lemma write_at_append: "write_at (off + length a) b (write_at off a d) = write_at off (a @ b) d"
proof -
  obtain P where P: "length P = off" "\<And>bs. write_at off bs d = P @ bs @ drop (off + length bs) d"
    using write_at_pad by blast
  have "write_at (length (P @ a)) b ((P @ a) @ drop (off + length a) d) =
      (P @ a) @ b @ drop (length b) (drop (off + length a) d)"
    by (rule write_at_split)
  then show ?thesis by (simp add: P ac_simps)
qed

lemma length_write_at: "length (write_at off bs d) = max (length d) (off + length bs)"
  by (auto simp: write_at_def)

lemma read_at_write_at:
  assumes "i + n \<le> length bs"
  shows "read_at (off + i) n (write_at off bs d) = Some (take n (drop i bs))"
proof -
  obtain P where P: "length P = off" "\<And>bs. write_at off bs d = P @ bs @ drop (off + length bs) d"
    using write_at_pad by blast
  show ?thesis using assms by (simp add: P(2) read_at_def get_bytes_def P(1))
qed

lemma read_at_write_at_other:
  assumes "o2 + n \<le> length d" "o2 + n \<le> off \<or> off + length bs \<le> o2"
  shows "read_at o2 n (write_at off bs d) = read_at o2 n d"
proof -
  obtain P where P: "length P = off" "write_at off bs d = P @ bs @ drop (off + length bs) d"
    "\<And>n. n \<le> off \<Longrightarrow> n \<le> length d \<Longrightarrow> take n P = take n d"
    using write_at_pad by metis
  show ?thesis
  proof (cases "o2 + n \<le> off")
    case True
    then have "take n (drop o2 P) = take n (drop o2 d)"
      using P(1,3) assms(1) by (simp add: take_drop add.commute)
    then show ?thesis using True assms(1) P by (simp add: read_at_def get_bytes_def)
  next
    case False
    then have "off + length bs \<le> o2" using assms(2) by simp
    then show ?thesis using assms(1) P(1,2) by (simp add: read_at_def get_bytes_def)
  qed
qed

section \<open>Parsing what was written\<close>

lemma parse_leaf_array:
  assumes "length A = 12"
  shows "collect_results (parse_leaf (A @ concat (map ExtentLeaf_bytes ls) @ R)) [0..<length ls] =
    Ok (map leaf_range ls)"
proof -
  let ?buf = "A @ concat (map ExtentLeaf_bytes ls) @ R"
  have all: "list_all (\<lambda>_. True) ls" by (simp add: list_all_iff)
  have len: "length ?buf = 12 + length ls * 12 + length R"
    using elc.length_concat_enc [OF all] assms by simp
  have "parse_leaf ?buf i = Ok (leaf_range (ls ! i))" if "i < length ls" for i
  proof -
    have "ExtentLeaf_read_from (drop (12 + i * 12) ?buf) = Some (ls ! i)"
      using elc.read_array [OF all that assms] .
    moreover have "12 + i * 12 + 12 \<le> length ?buf" unfolding len using that by simp
    ultimately show ?thesis by (simp add: parse_leaf_def leaf_range_def Let_def del: length_append)
  qed
  then have "collect_results (parse_leaf ?buf) [0..<length ls] = Ok (map (\<lambda>i. leaf_range (ls ! i)) [0..<length ls])"
    by (intro collect_results_cong_Ok) simp
  also have "map (\<lambda>i. leaf_range (ls ! i)) [0..<length ls] = map leaf_range ls"
    by (rule nth_equalityI) simp_all
  finally show ?thesis .
qed

lemma length_ext_bytes [simp]:
  "length (ExtentHeader_bytes h) = 12" "length (ExtentTail_bytes t) = 4"
  by (simp_all add: ehc.length_enc etc.length_enc)

lemma list_all_True [simp]: "list_all (\<lambda>_. True) xs"
  by (simp add: list_all_iff)

lemma node_bytes:
  assumes "12 + length ls * 12 \<le> n"
  shows "do { buf \<leftarrow> write_slice ExtentHeader_write_to 12 0 h (replicate n 0);
              write_array ExtentLeaf_write_to 12 12 ls buf } =
    Some (ExtentHeader_bytes h @ concat (map ExtentLeaf_bytes ls) @ replicate (n - 12 - length ls * 12) 0)"
proof -
  have "write_slice ExtentHeader_write_to 12 0 h (replicate n 0) = Some (ExtentHeader_bytes h @ replicate (n - 12) 0)"
    using assms by (simp add: ehc.write_slice_enc put_bytes_def)
  moreover have "write_array ExtentLeaf_write_to 12 12 ls (ExtentHeader_bytes h @ replicate (n - 12) 0) =
      put_bytes (ExtentHeader_bytes h @ replicate (n - 12) 0) 12 (concat (map ExtentLeaf_bytes ls))"
    using assms by (intro elc.write_array_enc) simp_all
  moreover have "length (concat (map ExtentLeaf_bytes ls)) = length ls * 12"
    by (rule elc.length_concat_enc) simp
  ultimately show ?thesis using assms by (simp add: put_bytes_def del: length_concat)
qed

section \<open>Round trip\<close>

text \<open>Up to four index nodes fit into an inode; \<open>chunk\<close> is the group of leaves of one of them.\<close>

lemma div_ceil_groups:
  assumes "0 < k" "k < 2 ^ 16" "L \<le> 4 * k"
  shows "\<exists>n. div_ceil (word_of_nat L) (word_of_nat k) = Some n \<and> unat n \<le> 4 \<and> L \<le> unat n * k \<and>
    (\<forall>i. i < unat n \<longrightarrow> i * k < L)"
proof -
  define n where "n = L div k + (if 0 < L mod k then 1 else 0)"
  have L: "unat (word_of_nat L :: u32) = L" and k: "unat (word_of_nat k :: u32) = k"
    using assms by (simp_all add: unat_of_nat)
  have k0: "word_of_nat k \<noteq> (0 :: u32)" using k assms(1) by auto
  have d: "unat (word_of_nat L div word_of_nat k :: u32) = L div k" by (simp add: unat_div L k)
  have m: "word_of_nat L mod word_of_nat k > (0 :: u32) \<longleftrightarrow> 0 < L mod k"
    by (simp add: word_less_nat_alt unat_mod L k)
  have split: "L = L div k * k + L mod k" by simp
  have n4: "L div k \<le> 4" using assms(1,3) by (metis div_le_mono nonzero_mult_div_cancel_right not_less0)
  have suc: "unat (word_of_nat L div word_of_nat k + 1 :: u32) = L div k + 1"
    using n4 d by (subst unat_add_lem [THEN iffD1]) simp_all
  obtain w where w: "div_ceil (word_of_nat L) (word_of_nat k) = Some w" "unat w = n"
    using k0 m d suc by (auto simp: div_ceil_def n_def)
  have "n \<le> 4"
  proof (rule ccontr)
    assume "\<not> n \<le> 4"
    then have "L div k = 4" "0 < L mod k" using n4 by (auto simp: n_def split: if_splits)
    then have "L = 4 * k + L mod k" using split by simp
    then show False using \<open>0 < L mod k\<close> assms(3) by linarith
  qed
  moreover have "L \<le> n * k"
  proof (cases "0 < L mod k")
    case True
    have "(L div k + 1) * k = L div k * k + k" by simp
    then show ?thesis
      unfolding n_def if_P [OF True] using split mod_less_divisor [OF assms(1), of L] by linarith
  qed (use split in \<open>simp add: n_def\<close>)
  moreover have "i * k < L" if "i < n" for i
  proof (cases "0 < L mod k")
    case True
    then have "i \<le> L div k" using that by (simp add: n_def)
    then have "i * k \<le> L div k * k" by simp
    then show ?thesis using split True by linarith
  next
    case False
    then have "Suc i \<le> L div k" using that by (simp add: n_def)
    then have "Suc i * k \<le> L div k * k" by (rule mult_le_mono1)
    then have "i * k + k \<le> L div k * k" by simp
    then show ?thesis using split assms(1) by linarith
  qed
  ultimately show ?thesis using w by auto
qed

lemma concat_groups: "concat (map (\<lambda>i. take k (drop (i * k) xs)) [0..<n]) = take (n * k) xs"
proof (induction n)
  case (Suc n)
  have "take (Suc n * k) xs = take (n * k) xs @ take k (drop (n * k) xs)"
    using take_add [of "n * k" k xs] by (simp add: add.commute)
  then show ?case using Suc by simp
qed simp

definition node_block :: "nat \<Rightarrow> nat \<Rightarrow> ExtentLeaf list \<Rightarrow> bytes" where
  "node_block N k ls =
     ExtentHeader_bytes \<lparr>eh_magic = EXTENT_HEADER_MAGIC, eh_entries = word_of_nat (length ls),
       eh_max = word_of_nat k, eh_depth = 0, eh_generation = 0\<rparr> @
     concat (map ExtentLeaf_bytes ls) @ replicate (N - 12 - length ls * 12) 0"

lemma length_node_block: "12 + length ls * 12 \<le> N \<Longrightarrow> length (node_block N k ls) = N"
  using elc.length_concat_enc [of ls] by (simp add: node_block_def del: length_concat)

lemma leaf_block_bytes:
  assumes "16 + length ls * 12 \<le> unat bs"
  shows "leaf_block bs k ls = Some (node_block (unat bs) k ls)"
proof -
  let ?N = "unat bs"
  let ?h = "\<lparr>eh_magic = EXTENT_HEADER_MAGIC, eh_entries = word_of_nat (length ls),
       eh_max = word_of_nat k, eh_depth = 0, eh_generation = 0\<rparr>"
  have node: "do { buf \<leftarrow> write_slice ExtentHeader_write_to 12 0 ?h (replicate ?N 0);
      write_array ExtentLeaf_write_to 12 12 ls buf } = Some (node_block ?N k ls)"
    unfolding node_block_def using assms by (intro node_bytes) simp
  have len: "length (node_block ?N k ls) = ?N" using assms by (intro length_node_block) simp
  have rep: "replicate (?N - 12 - length ls * 12) (0 :: u8) =
      replicate (?N - 16 - length ls * 12) 0 @ replicate 4 0"
  proof -
    have "?N - 12 - length ls * 12 = (?N - 16 - length ls * 12) + 4" using assms by linarith
    then show ?thesis by (simp only: replicate_add)
  qed
  have shape: "node_block ?N k ls = (ExtentHeader_bytes ?h @ concat (map ExtentLeaf_bytes ls) @
      replicate (?N - 16 - length ls * 12) 0) @ replicate 4 0"
    by (simp only: node_block_def rep append_assoc)
  have "length (ExtentHeader_bytes ?h @ concat (map ExtentLeaf_bytes ls) @
      replicate (?N - 16 - length ls * 12) (0 :: u8)) = ?N - 4"
    using elc.length_concat_enc [of ls] assms by (simp del: length_concat)
  moreover have "ExtentTail_bytes \<lparr>et_checksum = 0\<rparr> = replicate 4 0"
    by (simp add: ExtentTail_bytes_def to_le_bytes_def map_replicate_const)
  ultimately have "write_slice ExtentTail_write_to 4 (?N - 4) \<lparr>et_checksum = 0\<rparr> (node_block ?N k ls) =
      Some (node_block ?N k ls)"
    using assms len by (subst etc.write_slice_enc) (simp_all add: put_bytes_def shape)
  then show ?thesis
    using node by (auto simp: leaf_block_def Let_def bind_eq_Some_conv split: Option.bind_splits)
qed

lemma write_leaf_blocks_bytes:
  assumes "\<And>i. i \<in> set is \<Longrightarrow> 16 + length (take k (drop (i * k) ls)) * 12 \<le> unat bs"
    and "unat cb + length is < 2 ^ 32"
  shows "write_leaf_blocks bs k ls is (d, cb) =
    Some (if is = [] then d
          else write_at (unat cb * unat bs) (concat (map (\<lambda>i. node_block (unat bs) k (take k (drop (i * k) ls))) is)) d,
          cb + word_of_nat (length is))"
  using assms
proof (induction "is" arbitrary: d cb)
  case (Cons i "is")
  let ?B = "\<lambda>i. node_block (unat bs) k (take k (drop (i * k) ls))"
  have lb: "leaf_block bs k (take k (drop (i * k) ls)) = Some (?B i)"
    using Cons.prems(1) by (intro leaf_block_bytes) simp
  have len: "length (?B i) = unat bs" using Cons.prems(1) [of i] by (intro length_node_block) simp
  have cb: "unat (cb + 1) = unat cb + 1"
    using Cons.prems(2) by (subst unat_add_lem [THEN iffD1]) simp_all
  have IH: "write_leaf_blocks bs k ls is (write_at (unat cb * unat bs) (?B i) d, cb + 1) =
    Some (if is = [] then write_at (unat cb * unat bs) (?B i) d
          else write_at (unat (cb + 1) * unat bs) (concat (map ?B is)) (write_at (unat cb * unat bs) (?B i) d),
          cb + 1 + word_of_nat (length is))"
    using Cons.prems cb by (intro Cons.IH) simp_all
  have "unat (cb + 1) * unat bs = unat cb * unat bs + length (?B i)" by (simp add: cb len)
  then have "write_at (unat (cb + 1) * unat bs) (concat (map ?B is)) (write_at (unat cb * unat bs) (?B i) d) =
      write_at (unat cb * unat bs) (?B i @ concat (map ?B is)) d"
    by (simp add: write_at_append)
  then show ?case using lb IH by (auto simp: add.assoc)
qed simp

lemma unat_ucast_u64: "unat (ucast (w :: u32) :: u64) = unat w"
proof -
  have "unat w < 2 ^ 32" using unsigned_less [of w, where ?'a = nat] by simp
  then show ?thesis by (simp add: unsigned_ucast_eq take_bit_nat_eq_self)
qed

lemma write_inline_extents_parses:
  assumes "Inode_wf x" "length ls \<le> 4"
  shows "\<exists>x'. write_inline_extents x n ls bs = Some x' \<and> Inode_wf x' \<and>
    parse_extents x' bs' d = Ok (map leaf_range ls)"
proof -
  define h where "h = \<lparr>eh_magic = EXTENT_HEADER_MAGIC, eh_entries = word_of_nat (length ls), eh_max = 4,
                    eh_depth = 0, eh_generation = 0\<rparr>"
  define buf where "buf = ExtentHeader_bytes h @ concat (map ExtentLeaf_bytes ls) @ replicate (60 - 12 - length ls * 12) 0"
  define x' where "x' = add_inode_blocks (x\<lparr>i_block := buf\<rparr>) n bs"
  have "do { buf \<leftarrow> write_slice ExtentHeader_write_to 12 0 h (replicate 60 0);
      write_array ExtentLeaf_write_to 12 12 ls buf } = Some buf"
    unfolding buf_def using assms(2) by (intro node_bytes) simp
  then have w: "write_inline_extents x n ls bs = Some (x'\<lparr>i_flags := i_flags x' OR inode_flags_EXTENTS\<rparr>)"
    by (auto simp: write_inline_extents_def h_def [symmetric] x'_def INODE_BLOCK_SIZE_def Let_def
        bind_eq_Some_conv split: Option.bind_splits)
  have len: "length buf = 60"
    using assms(2) elc.length_concat_enc [of ls] by (simp add: buf_def del: length_concat)
  then have wf: "Inode_wf (x'\<lparr>i_flags := i_flags x' OR inode_flags_EXTENTS\<rparr>)"
    using assms(1) by (simp add: Inode_wf_def x'_def add_inode_blocks_def Let_def)
  have "ExtentHeader_read_from buf = Some h" unfolding buf_def by (rule ehc.read_enc) simp
  moreover have "i_block (x'\<lparr>i_flags := i_flags x' OR inode_flags_EXTENTS\<rparr>) = buf"
    by (simp add: x'_def add_inode_blocks_def Let_def)
  moreover have "parse_depth0 buf h = Ok (map leaf_range ls)"
    using parse_leaf_array [of "ExtentHeader_bytes h" ls] assms(2)
    by (simp add: parse_depth0_def buf_def h_def unat_of_nat)
  ultimately show ?thesis using w wf by (simp add: parse_extents_def h_def)
qed

lemma index_leaf_low: "index_leaf \<lparr>ei_block = b, ei_leaf_lo = w, ei_leaf_hi = 0, ei_unused = 0\<rparr> = ucast w"
  by (simp add: index_leaf_def)

lemma parse_index_node:
  fixes bs :: u32
  assumes idx: "ExtentIndex_read_from (drop (12 + i * 12) field) =
      Some \<lparr>ei_block = b, ei_leaf_lo = w, ei_leaf_hi = 0, ei_unused = 0\<rparr>" "12 + i * 12 + 12 \<le> length field"
    and rd: "read_at (unat w * unat bs) (unat bs) d = Some (node_block (unat bs) k ls)"
    and small: "unat bs < 2 ^ 16" "length ls < 2 ^ 16"
  shows "parse_index field (ucast bs) d i = Ok (map leaf_range ls)"
proof -
  have u: "unat (ucast w :: u64) = unat w" "unat (ucast bs :: u64) = unat bs"
    by (rule unat_ucast_u64)+
  have "unat w * unat bs < 2 ^ 32 * 2 ^ 16"
    by (rule mult_strict_mono) (use small unsigned_less [of w] in simp_all)
  then have off: "unat (ucast w * ucast bs :: u64) = unat w * unat bs"
    using u by (subst unat_mult_lem [THEN iffD1]) simp_all
  have "ExtentHeader_read_from (node_block (unat bs) k ls) =
      Some \<lparr>eh_magic = EXTENT_HEADER_MAGIC, eh_entries = word_of_nat (length ls), eh_max = word_of_nat k,
            eh_depth = 0, eh_generation = 0\<rparr>"
    unfolding node_block_def by (rule ehc.read_enc) simp
  moreover have "collect_results (parse_leaf (node_block (unat bs) k ls)) [0..<length ls] = Ok (map leaf_range ls)"
    unfolding node_block_def by (rule parse_leaf_array) simp
  moreover have "unat (word_of_nat (length ls) :: u16) = length ls" using small(2) by (simp add: unat_of_nat)
  ultimately show ?thesis
    using idx rd by (simp add: parse_index_def Let_def index_leaf_low off u)
qed

text \<open>The root of an indexed tree and the nodes behind it.\<close>

definition leaf_group :: "nat \<Rightarrow> ExtentLeaf list \<Rightarrow> nat \<Rightarrow> ExtentLeaf list" where
  "leaf_group k ls i = take k (drop (i * k) ls)"

definition index_entry :: "nat \<Rightarrow> ExtentLeaf list \<Rightarrow> u32 \<Rightarrow> nat \<Rightarrow> ExtentIndex" where
  "index_entry k ls cb i =
     \<lparr>ei_block = el_block (ls ! (i * k)), ei_leaf_lo = cb + word_of_nat i, ei_leaf_hi = 0, ei_unused = 0\<rparr>"

definition index_field :: "nat \<Rightarrow> ExtentLeaf list \<Rightarrow> u32 \<Rightarrow> u32 \<Rightarrow> bytes" where
  "index_field k ls cb c =
     ExtentHeader_bytes \<lparr>eh_magic = EXTENT_HEADER_MAGIC, eh_entries = ucast c, eh_max = 4, eh_depth = 1,
       eh_generation = 0\<rparr> @
     concat (map ExtentIndex_bytes (map (index_entry k ls cb) [0..<unat c])) @
     replicate (60 - 12 - unat c * 12) 0"

lemma length_index_bytes: "length (concat (map ExtentIndex_bytes ix)) = length ix * 12"
  by (rule eic.length_concat_enc) simp

lemma length_index_field: "unat c \<le> 4 \<Longrightarrow> length (index_field k ls cb c) = 60"
  unfolding index_field_def length_append length_index_bytes by simp

lemma write_index_field:
  assumes "unat c \<le> 4"
  shows "do { buf \<leftarrow> write_slice ExtentHeader_write_to 12 0 \<lparr>eh_magic = EXTENT_HEADER_MAGIC,
                eh_entries = ucast c, eh_max = 4, eh_depth = 1, eh_generation = 0\<rparr> (replicate 60 0);
              write_array ExtentIndex_write_to 12 12 (map (index_entry k ls cb) [0..<unat c]) buf } =
    Some (index_field k ls cb c)"
proof -
  let ?h = "\<lparr>eh_magic = EXTENT_HEADER_MAGIC, eh_entries = ucast c, eh_max = 4, eh_depth = 1, eh_generation = 0\<rparr>"
  let ?ix = "map (index_entry k ls cb) [0..<unat c]"
  have "write_slice ExtentHeader_write_to 12 0 ?h (replicate 60 0) = Some (ExtentHeader_bytes ?h @ replicate 48 0)"
    by (simp add: ehc.write_slice_enc put_bytes_def)
  moreover have "write_array ExtentIndex_write_to 12 12 ?ix (ExtentHeader_bytes ?h @ replicate 48 0) =
      put_bytes (ExtentHeader_bytes ?h @ replicate 48 0) 12 (concat (map ExtentIndex_bytes ?ix))"
    using assms by (intro eic.write_array_enc) simp_all
  moreover have "\<dots> = Some (index_field k ls cb c)"
    unfolding put_bytes_def length_index_bytes index_field_def using assms by simp
  ultimately show ?thesis by simp
qed

lemma write_indexed_extents_bytes:
  fixes bs :: u32
  defines "k \<equiv> (unat bs - 12 - 4) div 12"
  assumes "Inode_wf x" "0 < k" "unat bs < 2 ^ 16" "unat cb + 4 < 2 ^ 32"
    and c: "div_ceil (word_of_nat (length ls)) (word_of_nat k) = Some c" "unat c \<le> 4" "0 < unat c"
  shows "\<exists>x'. write_indexed_extents x n ls bs (d, cb) =
      Some (x', write_at (unat cb * unat bs) (concat (map (\<lambda>i. node_block (unat bs) k (leaf_group k ls i)) [0..<unat c])) d,
            cb + c) \<and> Inode_wf x' \<and> i_block x' = index_field k ls cb c"
proof -
  have room: "16 + length (take k (drop (i * k) ls)) * 12 \<le> unat bs" for i
  proof -
    have "16 + k * 12 \<le> unat bs" using \<open>0 < k\<close> unfolding k_def by linarith
    moreover have "length (take k (drop (i * k) ls)) \<le> k" by simp
    ultimately show ?thesis by linarith
  qed
  have blocks: "write_leaf_blocks bs k ls [0..<unat c] (d, cb) =
      Some (write_at (unat cb * unat bs) (concat (map (\<lambda>i. node_block (unat bs) k (leaf_group k ls i)) [0..<unat c])) d,
            cb + c)"
    using write_leaf_blocks_bytes [of "[0..<unat c]" k ls bs cb d] room c(2,3) assms(5)
    by (simp add: leaf_group_def)
  obtain buf where buf: "write_slice ExtentHeader_write_to 12 0 \<lparr>eh_magic = EXTENT_HEADER_MAGIC,
      eh_entries = ucast c, eh_max = 4, eh_depth = 1, eh_generation = 0\<rparr> (replicate 60 0) = Some buf"
    "write_array ExtentIndex_write_to 12 12 (map (index_entry k ls cb) [0..<unat c]) buf = Some (index_field k ls cb c)"
    using write_index_field [OF c(2), of k ls cb] by (auto simp: bind_eq_Some_conv)
  have entry: "(\<lambda>i. \<lparr>ei_block = el_block (ls ! (i * k)), ei_leaf_lo = cb + word_of_nat i, ei_leaf_hi = 0,
      ei_unused = 0\<rparr>) = index_entry k ls cb"
    by (simp add: index_entry_def fun_eq_iff)
  define y where "y = add_inode_blocks (x\<lparr>i_block := index_field k ls cb c\<rparr>) (n + c) bs"
  have "write_indexed_extents x n ls bs (d, cb) =
      Some (y\<lparr>i_flags := i_flags y OR inode_flags_EXTENTS\<rparr>,
        write_at (unat cb * unat bs) (concat (map (\<lambda>i. node_block (unat bs) k (leaf_group k ls i)) [0..<unat c])) d,
        cb + c)"
    unfolding write_indexed_extents_def Let_def snd_conv k_def [symmetric] entry c(1) INODE_BLOCK_SIZE_def
    by (simp add: buf blocks y_def)
  moreover have "Inode_wf (y\<lparr>i_flags := i_flags y OR inode_flags_EXTENTS\<rparr>)"
    "i_block (y\<lparr>i_flags := i_flags y OR inode_flags_EXTENTS\<rparr>) = index_field k ls cb c"
    using assms(2) length_index_field [OF c(2)] by (simp_all add: y_def add_inode_blocks_def Inode_wf_def Let_def)
  ultimately show ?thesis by blast
qed

lemma parse_index_field:
  fixes bs :: u32
  defines "k \<equiv> (unat bs - 12 - 4) div 12"
  defines "nodes \<equiv> \<lambda>ls c. concat (map (\<lambda>i. node_block (unat bs) k (leaf_group k ls i)) [0..<unat (c :: u32)])"
  assumes "0 < k" "unat bs < 2 ^ 16" "unat cb + 4 < 2 ^ 32" "unat c \<le> 4" "i < unat c"
  shows "parse_index (index_field k ls cb c) (ucast bs) (write_at (unat cb * unat bs) (nodes ls c) d) i =
    Ok (map leaf_range (leaf_group k ls i))"
proof -
  let ?ix = "map (index_entry k ls cb) [0..<unat c]"
  let ?blocks = "map (\<lambda>i. node_block (unat bs) k (leaf_group k ls i)) [0..<unat c]"
  have kN: "16 + k * 12 \<le> unat bs" using \<open>0 < k\<close> unfolding k_def by linarith
  have glen: "length (leaf_group k ls j) \<le> k" for j by (simp add: leaf_group_def)
  have blen: "length (node_block (unat bs) k (leaf_group k ls j)) = unat bs" for j
    using glen [of j] kN by (intro length_node_block) linarith
  have "ExtentIndex_read_from (drop (12 + i * 12) (index_field k ls cb c)) = Some (?ix ! i)"
    unfolding index_field_def using assms(7) by (intro eic.read_array) simp_all
  then have idx: "ExtentIndex_read_from (drop (12 + i * 12) (index_field k ls cb c)) = Some (index_entry k ls cb i)"
    using assms(7) by simp
  have w: "unat (cb + word_of_nat i) = unat cb + i"
    using assms(5-7) by (subst unat_add_lem [THEN iffD1]) (simp_all add: unat_of_nat)
  have all: "list_all (\<lambda>b. length b = unat bs) ?blocks" using blen by (simp add: list_all_iff)
  have len: "length (nodes ls c) = unat c * unat bs"
    using length_concat_blocks [OF all] by (simp add: nodes_def)
  have "i * unat bs + unat bs \<le> length (nodes ls c)"
    unfolding len using mult_le_mono1 [of "Suc i" "unat c" "unat bs"] assms(7) by simp
  then have "read_at (unat cb * unat bs + i * unat bs) (unat bs) (write_at (unat cb * unat bs) (nodes ls c) d) =
      Some (take (unat bs) (drop (i * unat bs) (nodes ls c)))"
    by (rule read_at_write_at)
  also have "take (unat bs) (drop (i * unat bs) (nodes ls c)) = node_block (unat bs) k (leaf_group k ls i)"
    using take_drop_concat [OF all, of i] assms(7) by (simp add: nodes_def)
  finally have rd: "read_at (unat (cb + word_of_nat i) * unat bs) (unat bs)
      (write_at (unat cb * unat bs) (nodes ls c) d) = Some (node_block (unat bs) k (leaf_group k ls i))"
    by (simp only: w add_mult_distrib)
  have "length (leaf_group k ls i) < 2 ^ 16" using glen [of i] kN assms(4) by linarith
  moreover have "12 + i * 12 + 12 \<le> length (index_field k ls cb c)"
    using length_index_field [OF assms(6)] assms(6,7) by simp
  ultimately show ?thesis
    using parse_index_node [OF idx [unfolded index_entry_def] _ rd assms(4)] by blast
qed

lemma write_indexed_extents_parses:
  fixes bs :: u32
  defines "k \<equiv> (unat bs - 12 - 4) div 12"
  assumes "Inode_wf x" "0 < k" "unat bs < 2 ^ 16" "0 < length ls" "length ls \<le> 4 * k" "unat cb + 4 < 2 ^ 32"
  shows "\<exists>x' d' cb'. write_indexed_extents x n ls bs (d, cb) = Some (x', d', cb') \<and> Inode_wf x' \<and>
    parse_extents x' (ucast bs) d' = Ok (map leaf_range ls) \<and>
    (\<forall>off m. off + m \<le> length d \<and> (off + m \<le> unat cb * unat bs \<or> unat cb' * unat bs \<le> off) \<longrightarrow>
       read_at off m d' = read_at off m d)"
proof -
  have "k < 2 ^ 16" using assms(4) by (simp add: k_def)
  then obtain c where c: "div_ceil (word_of_nat (length ls)) (word_of_nat k) = Some c" "unat c \<le> 4"
    "length ls \<le> unat c * k"
    using div_ceil_groups [of k "length ls"] assms by auto
  have c0: "0 < unat c" using c(3) assms(5) by (cases "unat c") simp_all
  let ?nodes = "concat (map (\<lambda>i. node_block (unat bs) k (leaf_group k ls i)) [0..<unat c])"
  let ?d = "write_at (unat cb * unat bs) ?nodes d"
  obtain x' where x': "write_indexed_extents x n ls bs (d, cb) = Some (x', ?d, cb + c)" "Inode_wf x'"
    "i_block x' = index_field k ls cb c"
    using write_indexed_extents_bytes [of x bs cb ls c n d] assms c c0 unfolding k_def by blast
  have "collect_results (parse_index (index_field k ls cb c) (ucast bs) ?d) [0..<unat c] =
      Ok (map (\<lambda>i. map leaf_range (leaf_group k ls i)) [0..<unat c])"
    using parse_index_field [of bs cb c _ ls d] assms c(2) unfolding k_def
    by (intro collect_results_cong_Ok) simp
  moreover have "concat (map (\<lambda>i. map leaf_range (leaf_group k ls i)) [0..<unat c]) = map leaf_range ls"
  proof -
    have "concat (map (leaf_group k ls) [0..<unat c]) = ls"
      using concat_groups [of k ls "unat c"] c(3) by (simp add: leaf_group_def [abs_def])
    then show ?thesis using map_concat [of leaf_range "map (leaf_group k ls) [0..<unat c]"] by (simp add: comp_def)
  qed
  moreover have "ExtentHeader_read_from (index_field k ls cb c) = Some \<lparr>eh_magic = EXTENT_HEADER_MAGIC,
      eh_entries = ucast c, eh_max = 4, eh_depth = 1, eh_generation = 0\<rparr>"
    unfolding index_field_def by (rule ehc.read_enc) simp
  moreover have "unat (ucast c :: u16) = unat c"
    using c(2) by (simp add: unsigned_ucast_eq take_bit_nat_eq_self)
  ultimately have "parse_extents x' (ucast bs) ?d = Ok (map leaf_range ls)"
    by (simp add: parse_extents_def parse_depth1_def x'(3))
  moreover have "read_at off m ?d = read_at off m d"
    if "off + m \<le> length d" "off + m \<le> unat cb * unat bs \<or> unat (cb + c) * unat bs \<le> off" for off m
  proof -
    have kN: "16 + k * 12 \<le> unat bs" using \<open>0 < k\<close> unfolding k_def by linarith
    have "length (node_block (unat bs) k (leaf_group k ls j)) = unat bs" for j
      using kN by (intro length_node_block) (simp add: leaf_group_def min_def)
    then have "length ?nodes = unat c * unat bs"
      using length_concat_blocks [of "unat bs" "map (\<lambda>i. node_block (unat bs) k (leaf_group k ls i)) [0..<unat c]"]
      by (simp add: list_all_iff)
    moreover have "unat (cb + c) = unat cb + unat c"
      using assms(7) c(2) by (subst unat_add_lem [THEN iffD1]) simp_all
    ultimately show ?thesis using that by (intro read_at_write_at_other) (simp_all add: add_mult_distrib)
  qed
  ultimately show ?thesis using x' by blast
qed

section \<open>Claims\<close>

lemma sum_list_unat:
  "sum_list (map (\<lambda>r. unat (range_len r)) rs) < 2 ^ 32 \<Longrightarrow>
     unat (sum_list (map range_len rs)) = sum_list (map (\<lambda>r. unat (range_len r)) rs)"
  by (induction rs) (auto simp: unat_word_ariths)

lemma fill_ranges_not_Nil:
  assumes "list_all range_ok rs" "0 < sum_list (map (\<lambda>r. unat (range_len r)) rs)"
  shows "fill_ranges logical rs \<noteq> []"
proof
  assume "fill_ranges logical rs = []"
  then have "concat (map (\<lambda>r. range_blocks (br_start r, br_end r)) rs) = []"
    using fill_ranges_cover [OF assms(1), of logical] by simp
  then have "\<forall>r\<in>set rs. unat (range_len r) = 0"
    using assms(1) by (auto simp: range_blocks_def range_len_def list_all_iff range_ok_def unat_sub word_le_nat_alt)
  then have "sum_list (map (\<lambda>r. unat (range_len r)) rs) = 0" by (induction rs) simp_all
  then show False using assms(2) by linarith
qed

text \<open>
  Claim C3. The extent tree of a file written into an inode, and behind index nodes when it has more
  than four extents, parses back to ranges that list exactly the blocks of the file in order; the
  image is left alone outside the index nodes it allocates. The ranges are non-empty in total, hold
  fewer than \<open>2 ^ 32\<close> blocks and need at most four index nodes.
\<close>

theorem extents_roundtrip:
  fixes bs :: u32
  assumes "Inode_wf x" "list_all range_ok rs"
    and "0 < sum_list (map (\<lambda>r. unat (range_len r)) rs)" "sum_list (map (\<lambda>r. unat (range_len r)) rs) < 2 ^ 32"
    and "28 \<le> unat bs" "unat bs < 2 ^ 16" "unat cb + 4 < 2 ^ 32"
    and "length (fill_extent_leaves_from_ranges rs) \<le> 4 * ((unat bs - 16) div 12)"
  shows "\<exists>x' d' cb' parsed. write_extents x rs bs (d, cb) = Some (x', d', cb') \<and> Inode_wf x' \<and>
    parse_extents x' (ucast bs) d' = Ok parsed \<and>
    concat (map range_blocks parsed) = concat (map (\<lambda>r. range_blocks (br_start r, br_end r)) rs) \<and>
    (\<forall>off m. off + m \<le> length d \<and> (off + m \<le> unat cb * unat bs \<or> unat cb' * unat bs \<le> off) \<longrightarrow>
       read_at off m d' = read_at off m d)"
proof -
  let ?ls = "fill_extent_leaves_from_ranges rs"
  let ?n = "sum_list (map range_len rs)"
  have "unat ?n \<noteq> 0" using sum_list_unat [OF assms(4)] assms(3) by linarith
  then have n: "?n \<noteq> 0" by auto
  have ls: "?ls \<noteq> []" using fill_ranges_not_Nil assms(2,3) by (simp add: fill_extent_leaves_from_ranges_def)
  have cover: "concat (map range_blocks (map leaf_range ?ls)) =
      concat (map (\<lambda>r. range_blocks (br_start r, br_end r)) rs)"
    using fill_ranges_cover [OF assms(2), of 0] by (simp add: fill_extent_leaves_from_ranges_def comp_def)
  have "(unat bs - 16) div 12 \<le> unat bs" by (rule order_trans [OF div_le_dividend]) simp
  then have "length ?ls < 2 ^ 32" using assms(6,8) by simp
  then have small: "(word_of_nat (length ?ls) :: u32) \<le> 4 \<longleftrightarrow> length ?ls \<le> 4"
    by (simp add: word_le_nat_alt unat_of_nat)
  show ?thesis
  proof (cases "length ?ls \<le> 4")
    case True
    then obtain x' where x': "write_inline_extents x ?n ?ls bs = Some x'" "Inode_wf x'"
      "parse_extents x' (ucast bs) d = Ok (map leaf_range ?ls)"
      using write_inline_extents_parses [OF assms(1)] by blast
    then have "write_extents x rs bs (d, cb) = Some (x', d, cb)"
      using n small True by (simp add: write_extents_def Let_def)
    then show ?thesis using x' cover by blast
  next
    case False
    have k: "unat bs - 12 - 4 = unat bs - 16" "0 < (unat bs - 16) div 12" using assms(5) by simp_all
    have "\<exists>x' d' cb'. write_indexed_extents x ?n ?ls bs (d, cb) = Some (x', d', cb') \<and> Inode_wf x' \<and>
        parse_extents x' (ucast bs) d' = Ok (map leaf_range ?ls) \<and>
        (\<forall>off m. off + m \<le> length d \<and> (off + m \<le> unat cb * unat bs \<or> unat cb' * unat bs \<le> off) \<longrightarrow>
           read_at off m d' = read_at off m d)"
      using assms ls by (intro write_indexed_extents_parses) (simp_all only: k, simp_all)
    moreover have "write_extents x rs bs (d, cb) = write_indexed_extents x ?n ?ls bs (d, cb)"
      using n small False by (simp add: write_extents_def Let_def)
    ultimately show ?thesis using cover by (simp only:) blast
  qed
qed

definition demo_ranges :: "BlockRange list" where
  "demo_ranges = map (\<lambda>s. \<lparr>br_start = s, br_end = s + 2\<rparr>) [10, 20, 30, 40, 50]"

theorem extents_roundtrip_witness:
  "\<exists>x' d' cb' parsed. write_extents Inode_default demo_ranges 4096 ([], 60) = Some (x', d', cb') \<and>
    Inode_wf x' \<and> parse_extents x' 4096 d' = Ok parsed \<and>
    concat (map range_blocks parsed) = [10, 11, 20, 21, 30, 31, 40, 41, 50, 51]"
proof -
  have ok: "list_all range_ok demo_ranges" by code_simp
  have len: "length (fill_extent_leaves_from_ranges demo_ranges) = 5" by code_simp
  have sum: "sum_list (map (\<lambda>r. unat (range_len r)) demo_ranges) = 10" by code_simp
  have blocks: "concat (map (\<lambda>r. range_blocks (br_start r, br_end r)) demo_ranges) =
      [10, 11, 20, 21, 30, 31, 40, 41, 50, 51]" by code_simp
  show ?thesis
    using extents_roundtrip [of Inode_default demo_ranges 4096 60 "[]"] ok by (simp add: len sum blocks) blast
qed

end
